(* ===== verification/Prelude.thy ===== *)
theory Prelude
  imports Main "HOL-Library.Word" "HOL-Library.State_Monad"
    "HOL-Library.Char_ord" "HOL-Library.List_Lexorder" "HOL-Library.Sublist"
begin

text \<open>
  What every component of the development shares: the names of the machine types the Go code
  uses, Go's error values with \<open>errors.Is\<close> and \<open>errors.Join\<close>, the string formatting the
  messages are built with, and a weakest-precondition calculus for code that threads a state.
\<close>

section \<open>Machine types\<close>

type_synonym int64 = "64 word"
type_synonym uint64 = "64 word"
type_synonym bytes = string
type_synonym timestamp = int

text \<open>
  A Go \<open>string\<close> and a Go \<open>[]byte\<close> are sequences of bytes, as \<^typ>\<open>string\<close> is; a nil and an
  empty slice are both the empty list, because no modelled code tells them apart.
  A \<open>time.Time\<close> is its distance in nanoseconds from the zero time, which is \<open>0\<close>.
\<close>

section \<open>Error values\<close>

text \<open>
  The sentinels of \<open>pkg/desire/store.go\<close>, \<open>internal/reconciler/leadergate.go\<close>,
  \<open>internal/leadership/runnable.go\<close> and \<open>pkg/desire/store/redis/redis.go\<close>, the two context
  errors, the two sentinels of the Redis client the store compares against, an opaque error with a
  text, \<open>fmt.Errorf\<close> with one \<open>%w\<close> between two pieces of text, and \<open>errors.Join\<close>.
\<close>

datatype goerror =
    ErrNotFound
  | ErrAlreadyExists
  | ErrVersionConflict
  | ErrAborted
  | ErrOwnerConflict
  | ErrDeletePending
  | ErrLeadershipStale
  | ErrLeadershipLost
  | Canceled
  | DeadlineExceeded
  | RedisNil
  | TxFailedErr
  | ErrCASNoop
  | ErrorString string
  | Wrapf string goerror string
  | JoinErrors "goerror list"

type_synonym 'a result = "goerror + 'a"

primrec errors_Is :: "goerror \<Rightarrow> goerror \<Rightarrow> bool" where
  "errors_Is ErrNotFound t = (t = ErrNotFound)"
| "errors_Is ErrAlreadyExists t = (t = ErrAlreadyExists)"
| "errors_Is ErrVersionConflict t = (t = ErrVersionConflict)"
| "errors_Is ErrAborted t = (t = ErrAborted)"
| "errors_Is ErrOwnerConflict t = (t = ErrOwnerConflict)"
| "errors_Is ErrDeletePending t = (t = ErrDeletePending)"
| "errors_Is ErrLeadershipStale t = (t = ErrLeadershipStale)"
| "errors_Is ErrLeadershipLost t = (t = ErrLeadershipLost)"
| "errors_Is Canceled t = (t = Canceled)"
| "errors_Is DeadlineExceeded t = (t = DeadlineExceeded)"
| "errors_Is RedisNil t = (t = RedisNil)"
| "errors_Is TxFailedErr t = (t = TxFailedErr)"
| "errors_Is ErrCASNoop t = (t = ErrCASNoop)"
| "errors_Is (ErrorString s) t = (t = ErrorString s)"
| "errors_Is (Wrapf p e q) t = (t = Wrapf p e q \<or> errors_Is e t)"
| "errors_Is (JoinErrors es) t = (t = JoinErrors es \<or> list_ex (\<lambda>b. b) (map (\<lambda>e. errors_Is e t) es))"

definition errors_Join :: "goerror list \<Rightarrow> goerror option" where
  "errors_Join es = (if es = [] then None else Some (JoinErrors es))"

primrec join_with :: "string \<Rightarrow> string list \<Rightarrow> string" where
  "join_with sep [] = []"
| "join_with sep (x # xs) = (if xs = [] then x else x @ sep @ join_with sep xs)"

primrec error_text :: "goerror \<Rightarrow> string" where
  "error_text ErrNotFound = ''desire: not found''"
| "error_text ErrAlreadyExists = ''desire: already exists''"
| "error_text ErrVersionConflict = ''desire: version conflict''"
| "error_text ErrAborted = ''desire: aborted''"
| "error_text ErrOwnerConflict = ''desire: owner conflict''"
| "error_text ErrDeletePending = ''desire: apply rejected, delete is pending for this resource''"
| "error_text ErrLeadershipStale = ''leader election renewal is stale''"
| "error_text ErrLeadershipLost = ''management-cluster leadership lost''"
| "error_text Canceled = ''context canceled''"
| "error_text DeadlineExceeded = ''context deadline exceeded''"
| "error_text RedisNil = ''redis: nil''"
| "error_text TxFailedErr = ''redis: transaction failed''"
| "error_text ErrCASNoop = ''desire: cas noop''"
| "error_text (ErrorString s) = s"
| "error_text (Wrapf p e q) = p @ error_text e @ q"
| "error_text (JoinErrors es) = join_with [CHR 0x0A] (map error_text es)"

abbreviation wrap :: "string \<Rightarrow> goerror \<Rightarrow> goerror" where
  "wrap p e \<equiv> Wrapf (p @ '': '') e []"

text \<open>The sentinels are the only targets the code asks \<open>errors.Is\<close> about.\<close>

primrec is_sentinel :: "goerror \<Rightarrow> bool" where
  "is_sentinel ErrNotFound = True"
| "is_sentinel ErrAlreadyExists = True"
| "is_sentinel ErrVersionConflict = True"
| "is_sentinel ErrAborted = True"
| "is_sentinel ErrOwnerConflict = True"
| "is_sentinel ErrDeletePending = True"
| "is_sentinel ErrLeadershipStale = True"
| "is_sentinel ErrLeadershipLost = True"
| "is_sentinel Canceled = True"
| "is_sentinel DeadlineExceeded = True"
| "is_sentinel RedisNil = True"
| "is_sentinel TxFailedErr = True"
| "is_sentinel ErrCASNoop = True"
| "is_sentinel (ErrorString s) = False"
| "is_sentinel (Wrapf p e q) = False"
| "is_sentinel (JoinErrors es) = False"

lemma errors_Is_refl [simp]: "errors_Is e e"
  by (cases e) simp_all

lemma errors_Is_sentinel: "is_sentinel e \<Longrightarrow> errors_Is e t \<longleftrightarrow> t = e"
  by (cases e) auto

lemma errors_Is_Join_iff [simp]:
  "is_sentinel t \<Longrightarrow> errors_Is (JoinErrors es) t \<longleftrightarrow> (\<exists>e\<in>set es. errors_Is e t)"
  by (cases t) (auto simp: list_ex_iff)

lemma errors_Join_None [simp]: "errors_Join es = None \<longleftrightarrow> es = []"
  by (simp add: errors_Join_def)

section \<open>Formatting\<close>

text \<open>
  \<open>%q\<close> as \<open>strconv.Quote\<close> writes it for a string of ASCII bytes. A byte from \<open>0x80\<close> on is
  written as a byte of an invalid UTF-8 sequence is; runes beyond ASCII are outside the model.
\<close>

definition hexdigit :: "nat \<Rightarrow> char" where
  "hexdigit n = (''0123456789abcdef'' ! (n mod 16))"

definition quote_char :: "char \<Rightarrow> string" where
  "quote_char c =
     (if c = CHR 0x22 then [CHR 0x5C, CHR 0x22]
      else if c = CHR 0x5C then [CHR 0x5C, CHR 0x5C]
      else if c = CHR 0x07 then [CHR 0x5C, CHR ''a'']
      else if c = CHR 0x08 then [CHR 0x5C, CHR ''b'']
      else if c = CHR 0x0C then [CHR 0x5C, CHR ''f'']
      else if c = CHR 0x0A then [CHR 0x5C, CHR ''n'']
      else if c = CHR 0x0D then [CHR 0x5C, CHR ''r'']
      else if c = CHR 0x09 then [CHR 0x5C, CHR ''t'']
      else if c = CHR 0x0B then [CHR 0x5C, CHR ''v'']
      else if 32 \<le> (of_char c :: nat) \<and> (of_char c :: nat) < 127 then [c]
      else [CHR 0x5C, CHR ''x'', hexdigit (of_char c div 16), hexdigit (of_char c)])"

definition quote :: "string \<Rightarrow> string" where
  "quote s = [CHR 0x22] @ concat (map quote_char s) @ [CHR 0x22]"

section \<open>Reasoning about state-threading code\<close>

named_theorems wp_rules \<open>rules that compute a weakest precondition\<close>

definition wp :: "('s, 'a) state \<Rightarrow> ('a \<Rightarrow> 's \<Rightarrow> bool) \<Rightarrow> 's \<Rightarrow> bool" where
  "wp m Q s = (case run_state m s of (a, s') \<Rightarrow> Q a s')"

lemma wp_return [wp_rules]: "wp (State_Monad.return x) Q s = Q x s"
  by (simp add: wp_def)

lemma wp_return_eta: "wp (State_Monad.return x) Q = Q x"
  by (simp add: wp_def fun_eq_iff)

lemma wp_bind [wp_rules]: "wp (State_Monad.bind m f) Q s = wp m (\<lambda>a. wp (f a) Q) s"
  by (simp add: wp_def split: prod.split)

lemma wp_bind_eta: "wp (State_Monad.bind m f) Q = wp m (\<lambda>a. wp (f a) Q)"
  by (simp add: wp_bind fun_eq_iff)

lemma wp_State [wp_rules]: "wp (State f) Q s = (case f s of (a, s') \<Rightarrow> Q a s')"
  by (simp add: wp_def)

lemma wp_mono: "wp m Q s \<Longrightarrow> (\<And>a s'. Q a s' \<Longrightarrow> R a s') \<Longrightarrow> wp m R s"
  by (auto simp: wp_def split: prod.splits)

lemma wp_conj: "wp m (\<lambda>a s. P a s \<and> Q a s) s \<longleftrightarrow> wp m P s \<and> wp m Q s"
  by (auto simp: wp_def split: prod.splits)

lemma wp_if [wp_rules]: "wp (if b then m else n) Q s = (if b then wp m Q s else wp n Q s)"
  by simp

lemma wp_case_sum [wp_rules]:
  "wp (case r of Inl e \<Rightarrow> f e | Inr x \<Rightarrow> g x) Q s =
     (case r of Inl e \<Rightarrow> wp (f e) Q s | Inr x \<Rightarrow> wp (g x) Q s)"
  by (cases r) simp_all

lemma wp_case_option [wp_rules]:
  "wp (case r of None \<Rightarrow> f | Some x \<Rightarrow> g x) Q s =
     (case r of None \<Rightarrow> wp f Q s | Some x \<Rightarrow> wp (g x) Q s)"
  by (cases r) simp_all

lemma wp_run: "wp m Q s \<Longrightarrow> run_state m s = (a, s') \<Longrightarrow> Q a s'"
  by (simp add: wp_def)

lemma wp_runI: "(\<And>a s'. run_state m s = (a, s') \<Longrightarrow> Q a s') \<Longrightarrow> wp m Q s"
  by (simp add: wp_def split: prod.split)

section \<open>Lists and association lists\<close>

lemma find_Some_iff_first:
  "List.find P xs = Some x \<Longrightarrow> P x \<and> x \<in> set xs"
  by (auto simp: find_Some_iff)

end
