(* ===== verification/Json.thy ===== *)
theory Json
  imports Prelude
begin

text \<open>
  The part of Go's \<open>encoding/json\<close> the program decides with: \<open>json.Valid\<close> and decoding into
  \<open>any\<close> with \<open>UseNumber\<close>, and on top of them \<open>speccompare.Equal\<close>. The grammar is the one of
  Go's scanner (four white-space bytes, no control byte in a string, at most 10000 open
  containers), strings are unquoted as Go does (escapes, surrogate pairs, invalid UTF-8 replaced
  by U+FFFD), a number keeps its literal, and an object is a Go map: a later duplicate key wins and
  the order of keys is lost, so an object is kept as a list sorted by key.
\<close>

section \<open>Values\<close>

datatype json =
    JNull
  | JBool bool
  | JNumber string
  | JString string
  | JArray "json list"
  | JObject "(string \<times> json) list"

fun obj_put :: "string \<Rightarrow> 'v \<Rightarrow> (string \<times> 'v) list \<Rightarrow> (string \<times> 'v) list" where
  "obj_put k v [] = [(k, v)]"
| "obj_put k v ((k', v') # m) =
     (if k < k' then (k, v) # (k', v') # m
      else if k = k' then (k, v) # m
      else (k', v') # obj_put k v m)"

definition obj_of :: "(string \<times> 'v) list \<Rightarrow> (string \<times> 'v) list" where
  "obj_of ps = foldl (\<lambda>m (k, v). obj_put k v m) [] ps"

section \<open>Lexical structure\<close>

definition is_space :: "char \<Rightarrow> bool" where
  "is_space c \<longleftrightarrow> c = CHR 0x20 \<or> c = CHR 0x09 \<or> c = CHR 0x0D \<or> c = CHR 0x0A"

definition skip_ws :: "string \<Rightarrow> string" where
  "skip_ws s = dropWhile is_space s"

definition is_digit :: "char \<Rightarrow> bool" where
  "is_digit c \<longleftrightarrow> 48 \<le> (of_char c :: nat) \<and> (of_char c :: nat) \<le> 57"

definition hex_value :: "char \<Rightarrow> nat option" where
  "hex_value c =
     (let n = (of_char c :: nat) in
      if 48 \<le> n \<and> n \<le> 57 then Some (n - 48)
      else if 97 \<le> n \<and> n \<le> 102 then Some (n - 87)
      else if 65 \<le> n \<and> n \<le> 70 then Some (n - 55)
      else None)"

text \<open>\<open>getu4\<close>: four hexadecimal digits.\<close>

definition hex4 :: "string \<Rightarrow> (nat \<times> string) option" where
  "hex4 s =
     (case s of
        a # b # c # d # r \<Rightarrow>
          (case (hex_value a, hex_value b, hex_value c, hex_value d) of
             (Some w, Some x, Some y, Some z) \<Rightarrow> Some (4096 * w + 256 * x + 16 * y + z, r)
           | _ \<Rightarrow> None)
      | _ \<Rightarrow> None)"

section \<open>UTF-8\<close>

definition byte :: "nat \<Rightarrow> char" where
  "byte n = char_of n"

definition rune_error :: string where
  "rune_error = [CHR 0xEF, CHR 0xBF, CHR 0xBD]"

text \<open>\<open>utf8.EncodeRune\<close>, for a code point up to \<open>0x10FFFF\<close>.\<close>

definition encode_rune :: "nat \<Rightarrow> string" where
  "encode_rune r =
     (if r < 0x80 then [byte r]
      else if r < 0x800 then [byte (0xC0 + r div 64), byte (0x80 + r mod 64)]
      else if 0xD800 \<le> r \<and> r < 0xE000 \<or> 0x10FFFF < r then rune_error
      else if r < 0x10000 then
        [byte (0xE0 + r div 4096), byte (0x80 + r div 64 mod 64), byte (0x80 + r mod 64)]
      else
        [byte (0xF0 + r div 262144), byte (0x80 + r div 4096 mod 64),
         byte (0x80 + r div 64 mod 64), byte (0x80 + r mod 64)])"

definition in_range :: "nat \<Rightarrow> nat \<Rightarrow> char \<Rightarrow> bool" where
  "in_range lo hi c \<longleftrightarrow> lo \<le> (of_char c :: nat) \<and> (of_char c :: nat) \<le> hi"

text \<open>\<open>utf8.DecodeRune\<close>: the length of the valid sequence in front, \<open>0\<close> when there is none.\<close>

definition utf8_len :: "string \<Rightarrow> nat" where
  "utf8_len s =
     (case s of
        [] \<Rightarrow> 0
      | a # r \<Rightarrow>
          if in_range 0 0x7F a then 1
          else if in_range 0xC2 0xDF a then
            (case r of b # _ \<Rightarrow> if in_range 0x80 0xBF b then 2 else 0 | _ \<Rightarrow> 0)
          else if in_range 0xE0 0xEF a then
            (case r of
               b # c # _ \<Rightarrow>
                 if in_range (if a = CHR 0xE0 then 0xA0 else 0x80)
                      (if a = CHR 0xED then 0x9F else 0xBF) b \<and> in_range 0x80 0xBF c
                 then 3 else 0
             | _ \<Rightarrow> 0)
          else if in_range 0xF0 0xF4 a then
            (case r of
               b # c # d # _ \<Rightarrow>
                 if in_range (if a = CHR 0xF0 then 0x90 else 0x80)
                      (if a = CHR 0xF4 then 0x8F else 0xBF) b
                    \<and> in_range 0x80 0xBF c \<and> in_range 0x80 0xBF d
                 then 4 else 0
             | _ \<Rightarrow> 0)
          else 0)"

section \<open>Strings and numbers\<close>

definition is_surrogate :: "nat \<Rightarrow> bool" where
  "is_surrogate r \<longleftrightarrow> 0xD800 \<le> r \<and> r < 0xE000"

text \<open>
  The bytes an escape stands for and the rest after it; the argument starts behind the backslash.
  A high surrogate followed by an escaped low surrogate is one rune; any other surrogate is
  replaced and what follows it is read again.
\<close>

definition parse_escape :: "string \<Rightarrow> (string \<times> string) option" where
  "parse_escape s =
     (case s of
        [] \<Rightarrow> None
      | c # r \<Rightarrow>
          if c = CHR 0x22 \<or> c = CHR 0x5C \<or> c = CHR ''/'' then Some ([c], r)
          else if c = CHR ''b'' then Some ([CHR 0x08], r)
          else if c = CHR ''f'' then Some ([CHR 0x0C], r)
          else if c = CHR ''n'' then Some ([CHR 0x0A], r)
          else if c = CHR ''r'' then Some ([CHR 0x0D], r)
          else if c = CHR ''t'' then Some ([CHR 0x09], r)
          else if c = CHR ''u'' then
            (case hex4 r of
               None \<Rightarrow> None
             | Some (h, r1) \<Rightarrow>
                 if \<not> is_surrogate h then Some (encode_rune h, r1)
                 else
                   (case r1 of
                      b # u # r2 \<Rightarrow>
                        if b = CHR 0x5C \<and> u = CHR ''u'' then
                          (case hex4 r2 of
                             Some (l, r3) \<Rightarrow>
                               if h < 0xDC00 \<and> 0xDC00 \<le> l \<and> l < 0xE000
                               then Some (encode_rune (0x10000 + (h - 0xD800) * 1024 + (l - 0xDC00)), r3)
                               else Some (rune_error, r1)
                           | None \<Rightarrow> Some (rune_error, r1))
                        else Some (rune_error, r1)
                    | _ \<Rightarrow> Some (rune_error, r1)))
          else None)"

lemma hex4_length: "hex4 s = Some (n, r) \<Longrightarrow> length r < length s"
  by (auto simp: hex4_def split: list.splits option.splits)

lemma parse_escape_length: "parse_escape s = Some (o1, r) \<Longrightarrow> length r < length s"
  by (auto simp: parse_escape_def Let_def dest!: hex4_length
      split: list.splits option.splits if_splits prod.splits)

text \<open>The body of a string literal, behind its opening quote.\<close>

function parse_string :: "string \<Rightarrow> (string \<times> string) option" where
  "parse_string s =
     (case s of
        [] \<Rightarrow> None
      | c # r \<Rightarrow>
          if c = CHR 0x22 then Some ([], r)
          else if c = CHR 0x5C then
            (case parse_escape r of
               None \<Rightarrow> None
             | Some (o1, r1) \<Rightarrow>
                 (case parse_string r1 of None \<Rightarrow> None | Some (o2, r2) \<Rightarrow> Some (o1 @ o2, r2)))
          else if (of_char c :: nat) < 32 then None
          else if utf8_len s = 0 then
            (case parse_string r of None \<Rightarrow> None | Some (o2, r2) \<Rightarrow> Some (rune_error @ o2, r2))
          else
            (case parse_string (drop (utf8_len s) s) of
               None \<Rightarrow> None
             | Some (o2, r2) \<Rightarrow> Some (take (utf8_len s) s @ o2, r2)))"
  by pat_completeness auto
termination
  by (relation "measure length") (auto dest!: parse_escape_length)

declare parse_string.simps [simp del]

text \<open>Digits, at least one of them.\<close>

definition digits1 :: "string \<Rightarrow> (string \<times> string) option" where
  "digits1 s =
     (let d = takeWhile is_digit s in if d = [] then None else Some (d, dropWhile is_digit s))"

definition parse_int_part :: "string \<Rightarrow> (string \<times> string) option" where
  "parse_int_part s =
     (case s of
        [] \<Rightarrow> None
      | c # r \<Rightarrow> if c = CHR ''0'' then Some ([c], r) else digits1 s)"

definition parse_frac :: "string \<Rightarrow> (string \<times> string) option" where
  "parse_frac s =
     (case s of
        c # r \<Rightarrow>
          if c = CHR ''.'' then
            (case digits1 r of None \<Rightarrow> None | Some (d, r') \<Rightarrow> Some (c # d, r'))
          else Some ([], s)
      | [] \<Rightarrow> Some ([], s))"

definition parse_exp :: "string \<Rightarrow> (string \<times> string) option" where
  "parse_exp s =
     (case s of
        c # r \<Rightarrow>
          if c = CHR ''e'' \<or> c = CHR ''E'' then
            (let (sg, r1) =
               (case r of
                  x # r' \<Rightarrow> if x = CHR ''+'' \<or> x = CHR ''-'' then ([x], r') else ([], r)
                | [] \<Rightarrow> ([], r))
             in case digits1 r1 of None \<Rightarrow> None | Some (d, r2) \<Rightarrow> Some (c # sg @ d, r2))
          else Some ([], s)
      | [] \<Rightarrow> Some ([], s))"

definition parse_number :: "string \<Rightarrow> (string \<times> string) option" where
  "parse_number s =
     (let (sg, r) = (case s of c # r \<Rightarrow> if c = CHR ''-'' then ([c], r) else ([], s) | [] \<Rightarrow> ([], s))
      in case parse_int_part r of
           None \<Rightarrow> None
         | Some (i, r1) \<Rightarrow>
             (case parse_frac r1 of
                None \<Rightarrow> None
              | Some (f, r2) \<Rightarrow>
                  (case parse_exp r2 of
                     None \<Rightarrow> None
                   | Some (e, r3) \<Rightarrow> Some (sg @ i @ f @ e, r3))))"

definition eat :: "string \<Rightarrow> string \<Rightarrow> string option" where
  "eat p s = (if take (length p) s = p then Some (drop (length p) s) else None)"

section \<open>Values, arrays and objects\<close>

text \<open>
  One recursive-descent parser, with a fuel that bounds the depth of the calls and \<open>d\<close>, the number
  of containers that may still be opened. Two nested calls read at least one byte, so more than two
  units for every byte are enough: by lemma \<open>parse_value_fuel\<close> no larger fuel changes a result.
\<close>

definition max_depth :: nat where
  "max_depth = 10000"

fun parse_value :: "nat \<Rightarrow> nat \<Rightarrow> string \<Rightarrow> (json \<times> string) option"
  and parse_elems :: "nat \<Rightarrow> nat \<Rightarrow> string \<Rightarrow> (json list \<times> string) option"
  and parse_members :: "nat \<Rightarrow> nat \<Rightarrow> string \<Rightarrow> ((string \<times> json) list \<times> string) option"
where
  "parse_value 0 d s = None"
| "parse_value (Suc f) d s =
     (case skip_ws s of
        [] \<Rightarrow> None
      | c # r \<Rightarrow>
          if c = CHR ''{'' then
            (if d = 0 then None
             else case skip_ws r of
                    [] \<Rightarrow> None
                  | c' # r' \<Rightarrow>
                      if c' = CHR ''}'' then Some (JObject [], r')
                      else map_option (\<lambda>(ms, t). (JObject (obj_of ms), t)) (parse_members f (d - 1) (c' # r')))
          else if c = CHR ''['' then
            (if d = 0 then None
             else case skip_ws r of
                    [] \<Rightarrow> None
                  | c' # r' \<Rightarrow>
                      if c' = CHR '']'' then Some (JArray [], r')
                      else map_option (\<lambda>(vs, t). (JArray vs, t)) (parse_elems f (d - 1) (c' # r')))
          else if c = CHR 0x22 then map_option (\<lambda>(x, t). (JString x, t)) (parse_string r)
          else if c = CHR ''t'' then map_option (\<lambda>t. (JBool True, t)) (eat ''true'' (c # r))
          else if c = CHR ''f'' then map_option (\<lambda>t. (JBool False, t)) (eat ''false'' (c # r))
          else if c = CHR ''n'' then map_option (\<lambda>t. (JNull, t)) (eat ''null'' (c # r))
          else map_option (\<lambda>(x, t). (JNumber x, t)) (parse_number (c # r)))"
| "parse_elems 0 d s = None"
| "parse_elems (Suc f) d s =
     (case parse_value f d s of
        None \<Rightarrow> None
      | Some (v, r) \<Rightarrow>
          (case skip_ws r of
             [] \<Rightarrow> None
           | c # r' \<Rightarrow>
               if c = CHR '']'' then Some ([v], r')
               else if c = CHR '','' then map_option (\<lambda>(vs, t). (v # vs, t)) (parse_elems f d r')
               else None))"
| "parse_members 0 d s = None"
| "parse_members (Suc f) d s =
     (case skip_ws s of
        [] \<Rightarrow> None
      | q # r0 \<Rightarrow>
          if q \<noteq> CHR 0x22 then None
          else
            (case parse_string r0 of
               None \<Rightarrow> None
             | Some (k, r1) \<Rightarrow>
                 (case skip_ws r1 of
                    [] \<Rightarrow> None
                  | c1 # r2 \<Rightarrow>
                      if c1 \<noteq> CHR '':'' then None
                      else
                        (case parse_value f d r2 of
                           None \<Rightarrow> None
                         | Some (v, r3) \<Rightarrow>
                             (case skip_ws r3 of
                                [] \<Rightarrow> None
                              | c # r4 \<Rightarrow>
                                  if c = CHR ''}'' then Some ([(k, v)], r4)
                                  else if c = CHR '','' then
                                    map_option (\<lambda>(ms, t). ((k, v) # ms, t)) (parse_members f d r4)
                                  else None)))))"

text \<open>The whole input is one value with white space around it.\<close>

definition json_decode :: "bytes \<Rightarrow> json option" where
  "json_decode s =
     (case parse_value (Suc (2 * length s)) max_depth s of
        None \<Rightarrow> None
      | Some (v, r) \<Rightarrow> if skip_ws r = [] then Some v else None)"

definition json_Valid :: "bytes \<Rightarrow> bool" where
  "json_Valid s \<longleftrightarrow> json_decode s \<noteq> None"

section \<open>Facts about the parser\<close>

lemma skip_ws_length: "length (skip_ws s) \<le> length s"
  by (simp add: skip_ws_def length_dropWhile_le)

lemma skip_ws_Cons_length: "skip_ws s = c # r \<Longrightarrow> length r < length s"
  using skip_ws_length [of s] by simp

lemma parse_string_length: "parse_string s = Some (x, r) \<Longrightarrow> length r < length s"
proof (induction s arbitrary: x r rule: parse_string.induct)
  case (1 s)
  show ?case
  proof (cases s)
    case Nil
    with "1.prems" show ?thesis by (simp add: parse_string.simps [of "[]"])
  next
    case (Cons c t)
    have drop_le: "length (drop (utf8_len s) s) \<le> length s" by simp
    show ?thesis
      using "1.prems" Cons "1.IH" [OF Cons] drop_le
      by (auto simp: parse_string.simps [of "c # t"] dest!: parse_escape_length
          split: option.splits if_splits prod.splits) (meson less_trans less_le_trans less_SucI order_less_le_trans)+
  qed
qed


lemma digits1_length: "digits1 s = Some (d, r) \<Longrightarrow> length r < length s"
proof -
  assume a: "digits1 s = Some (d, r)"
  have "s = takeWhile is_digit s @ dropWhile is_digit s" by simp
  then have "length s = length (takeWhile is_digit s) + length (dropWhile is_digit s)"
    by (metis length_append)
  with a show ?thesis by (auto simp: digits1_def Let_def split: if_splits)
qed

lemma parse_number_length: "parse_number s = Some (x, r) \<Longrightarrow> length r < length s"
proof -
  have i: "parse_int_part t = Some (y, u) \<Longrightarrow> length u < length t" for t y u
    by (auto simp: parse_int_part_def dest!: digits1_length split: list.splits if_splits)
  have f: "parse_frac t = Some (y, u) \<Longrightarrow> length u \<le> length t" for t y u
    by (auto simp: parse_frac_def dest!: digits1_length split: list.splits if_splits option.splits)
  have e: "parse_exp t = Some (y, u) \<Longrightarrow> length u \<le> length t" for t y u
    by (auto simp: parse_exp_def Let_def dest!: digits1_length
        split: list.splits if_splits option.splits prod.splits)
  assume "parse_number s = Some (x, r)"
  then show ?thesis
    by (auto simp: parse_number_def Let_def dest!: i f e
        split: list.splits if_splits option.splits prod.splits)
qed

lemma eat_length: "p \<noteq> [] \<Longrightarrow> eat p s = Some r \<Longrightarrow> length r < length s"
  by (cases s; cases p) (auto simp: eat_def split: if_splits)

lemma parse_length:
  "parse_value f d s = Some (v, r) \<Longrightarrow> length r < length s"
  "parse_elems f d s = Some (vs, r) \<Longrightarrow> length r < length s"
  "parse_members f d s = Some (ms, r) \<Longrightarrow> length r < length s"
proof (induction f arbitrary: d s v vs ms r)
  case 0
  { case 1 then show ?case by simp }
  { case 2 then show ?case by simp }
  { case 3 then show ?case by simp }
next
  case (Suc f)
  note rest = skip_ws_Cons_length parse_string_length Suc.IH
  { case 1
    have num: "length r < length (c # t)" if "parse_number (c # t) = Some (x, r)" for x c t
      using parse_number_length [OF that] .
    from 1 show ?case
      by (auto dest!: skip_ws_Cons_length num eat_length [rotated] dest: rest
          split: if_splits list.splits)
  }
  { case 2 then show ?case
      by (auto split: option.splits list.splits if_splits dest!: rest)  }
  { case 3 then show ?case
      by (auto split: option.splits list.splits if_splits dest!: rest)  }
qed


lemma parse_fuel_Suc:
  "2 * length s < f \<Longrightarrow> parse_value (Suc f) d s = parse_value f d s"
  "2 * length s + 1 < f \<Longrightarrow> parse_elems (Suc f) d s = parse_elems f d s"
  "2 * length s + 1 < f \<Longrightarrow> parse_members (Suc f) d s = parse_members f d s"
proof (induction f arbitrary: d s)
  case 0
  { case 1 then show ?case by simp }
  { case 2 then show ?case by simp }
  { case 3 then show ?case by simp }
next
  case (Suc f)
  { case 1
    have inner: "parse_members (Suc f) d' (c' # r') = parse_members f d' (c' # r') \<and>
        parse_elems (Suc f) d' (c' # r') = parse_elems f d' (c' # r')"
      if "skip_ws s = c # r" "skip_ws r = c' # r'" for c r c' r' d'
    proof -
      have "2 * length (c' # r') + 1 < f"
        using 1 that skip_ws_length [of s] skip_ws_length [of r] by simp
      then show ?thesis by (simp only: Suc.IH)
    qed
    show ?case
      by (subst (1 2) parse_value.simps) (auto split: list.split simp: inner simp del: parse_value.simps parse_elems.simps parse_members.simps) }
  { case 2
    then have v: "parse_value (Suc f) d s = parse_value f d s" by (intro Suc.IH) simp
    have es: "parse_elems (Suc f) d r' = parse_elems f d r'"
      if "parse_value f d s = Some (v, r)" "skip_ws r = c # r'" for v r c r'
    proof -
      have "2 * length r' + 1 < f"
        using 2 parse_length(1) [OF that(1)] skip_ws_Cons_length [OF that(2)] by simp
      then show ?thesis by (rule Suc.IH)
    qed
    show ?case
      by (subst (1 2) parse_elems.simps)
        (auto split: list.split option.split simp: v es simp del: parse_value.simps parse_elems.simps parse_members.simps) }
  { case 3
    have v: "parse_value (Suc f) d r2 = parse_value f d r2"
      if "skip_ws s = q # r0" "parse_string r0 = Some (k, r1)" "skip_ws r1 = c1 # r2" for q r0 k r1 c1 r2
    proof -
      have "2 * length r2 < f"
        using 3 skip_ws_Cons_length [OF that(1)] parse_string_length [OF that(2)]
          skip_ws_Cons_length [OF that(3)] by simp
      then show ?thesis by (rule Suc.IH)
    qed
    have ms: "parse_members (Suc f) d r4 = parse_members f d r4"
      if "skip_ws s = q # r0" "parse_string r0 = Some (k, r1)" "skip_ws r1 = c1 # r2"
        "parse_value f d r2 = Some (w, r3)" "skip_ws r3 = c # r4" for q r0 k r1 c1 r2 w r3 c r4
    proof -
      have "2 * length r4 + 1 < f"
        using 3 skip_ws_Cons_length [OF that(1)] parse_string_length [OF that(2)]
          skip_ws_Cons_length [OF that(3)] parse_length(1) [OF that(4)]
          skip_ws_Cons_length [OF that(5)] by simp
      then show ?thesis by (rule Suc.IH)
    qed
    show ?case
      by (subst (1 2) parse_members.simps)
        (auto split: list.split option.split simp: v ms simp del: parse_value.simps parse_elems.simps parse_members.simps) }
qed

lemma parse_value_fuel:
  assumes "2 * length s < f" and "f \<le> f'"
  shows "parse_value f' d s = parse_value f d s"
  using assms(2)
proof (induction rule: dec_induct)
  case (step n)
  then show ?case using assms(1) parse_fuel_Suc(1) [of s n d] by simp
qed simp

section \<open>Facts about objects\<close>

abbreviation keys_sorted :: "(string \<times> 'v) list \<Rightarrow> bool" where
  "keys_sorted m \<equiv> sorted (map fst m) \<and> distinct (map fst m)"

lemma obj_put_keys: "set (map fst (obj_put k v m)) = insert k (set (map fst m))"
  by (induction k v m rule: obj_put.induct) auto

lemma obj_put_sorted: "keys_sorted m \<Longrightarrow> keys_sorted (obj_put k v m)"
proof (induction k v m rule: obj_put.induct)
  case (2 k v k' v' m)
  then show ?case
    using obj_put_keys [of k v m] by (auto simp: less_imp_le)
qed simp

lemma obj_put_lookup: "keys_sorted m \<Longrightarrow> map_of (obj_put k v m) = (map_of m)(k \<mapsto> v)"
  by (induction k v m rule: obj_put.induct) (auto simp: fun_eq_iff)

lemma obj_of_snoc: "obj_of (ps @ [(k, v)]) = obj_put k v (obj_of ps)"
  by (simp add: obj_of_def)

lemma obj_of_sorted: "keys_sorted (obj_of ps)"
proof (induction ps rule: rev_induct)
  case (snoc p ps)
  then show ?case by (cases p) (simp add: obj_of_snoc obj_put_sorted)
qed (simp add: obj_of_def)

lemma obj_of_lookup: "map_of (obj_of ps) = map_of (rev ps)"
proof (induction ps rule: rev_induct)
  case (snoc p ps)
  then show ?case
    by (cases p) (simp add: obj_of_snoc obj_put_lookup [OF obj_of_sorted])
qed (simp add: obj_of_def)

lemma keys_sorted_unique:
  assumes "keys_sorted xs" "keys_sorted ys" "map_of xs = map_of ys"
  shows "xs = ys"
proof (rule map_sorted_distinct_set_unique [where f = fst])
  show eq: "set xs = set ys"
    using assms by (metis map_of_eq_Some_iff set_eqI surj_pair)
  show "inj_on fst (set xs \<union> set ys)"
    using assms eq by (simp add: distinct_map)
qed (use assms in simp_all)

text \<open>Two member lists are the same Go map exactly when they give the same object.\<close>

lemma obj_of_eq_iff: "obj_of ps = obj_of qs \<longleftrightarrow> map_of (rev ps) = map_of (rev qs)"
  by (metis keys_sorted_unique obj_of_lookup obj_of_sorted)

end
