(* ===== verification/Desire.thy ===== *)
theory Desire
  imports Json
begin

text \<open>
  Package \<open>pkg/desire\<close>: the desire types, their validation, the prefix selector, the owner check
  with its process-wide counter, and \<open>speccompare.Equal\<close>. Code of other modules is an argument:
  \<open>FindStatusCondition\<close> and \<open>SetStatusCondition\<close> of \<open>k8s.io/apimachinery\<close> and the three DNS name
  checks of its validation package. The laws the code relies on are the assumptions of the locale
  \<open>condition_api\<close>; \<open>find_condition\<close> and \<open>set_condition\<close> show they can hold.
\<close>

section \<open>Types\<close>

type_synonym DesireType = string

definition TypeApply :: DesireType where "TypeApply = ''apply''"
definition TypeDelete :: DesireType where "TypeDelete = ''delete''"
definition TypeRead :: DesireType where "TypeRead = ''read''"

definition InitialGeneration :: int64 where "InitialGeneration = 1"

definition AllTypes :: "DesireType list" where
  "AllTypes = [TypeApply, TypeDelete, TypeRead]"

record Identity =
  ManagementCluster :: string
  DesireTypeOf :: DesireType
  Group :: string
  Resource :: string
  Namespace :: string
  Name :: string

text \<open>\<open>metav1.Condition\<close>, the data the statuses carry.\<close>

record Condition =
  cond_Type :: string
  cond_Status :: string
  cond_ObservedGeneration :: int64
  cond_LastTransitionTime :: timestamp
  cond_Reason :: string
  cond_Message :: string

definition ConditionTrue :: string where "ConditionTrue = ''True''"
definition ConditionFalse :: string where "ConditionFalse = ''False''"

definition TypeSuccessful :: string where "TypeSuccessful = ''Successful''"
definition ReasonApplied :: string where "ReasonApplied = ''Applied''"
definition ReasonDeleted :: string where "ReasonDeleted = ''Deleted''"
definition ReasonSynced :: string where "ReasonSynced = ''Synced''"
definition ReasonWaitingForDeletion :: string where
  "ReasonWaitingForDeletion = ''WaitingForDeletion''"
definition ReasonNotFound :: string where "ReasonNotFound = ''NotFound''"
definition ReasonKubeAPIError :: string where "ReasonKubeAPIError = ''KubeAPIError''"
definition ReasonPreCheckFailed :: string where "ReasonPreCheckFailed = ''PreCheckFailed''"

record Status =
  Conditions :: "Condition list"

record ReadStatus =
  rs_Status :: Status
  rs_KubeContent :: bytes

record ApplySpec =
  KubeContent :: bytes

record ApplyDesire =
  ad_Identity :: Identity
  ad_Owner :: string
  ad_OriginID :: string
  ad_Spec :: ApplySpec
  ad_Status :: Status
  ad_Generation :: int64
  ad_Version :: int64

record DeleteDesire =
  dd_Identity :: Identity
  dd_Owner :: string
  dd_OriginID :: string
  dd_Status :: Status
  dd_Generation :: int64
  dd_Version :: int64

record ReadDesire =
  rd_Identity :: Identity
  rd_Owner :: string
  rd_OriginID :: string
  rd_TargetVersion :: string
  rd_Status :: ReadStatus
  rd_Generation :: int64
  rd_Version :: int64

text \<open>How \<open>fmt\<close> prints an identity under \<open>%s\<close>: the fields between braces.\<close>

definition fmt_identity :: "Identity \<Rightarrow> string" where
  "fmt_identity i =
     ''{'' @ join_with '' '' [ManagementCluster i, DesireTypeOf i, Group i, Resource i,
       Namespace i, Name i] @ ''}''"

type_synonym find_fn = "Condition list \<Rightarrow> string \<Rightarrow> Condition option"
type_synonym set_fn = "timestamp \<Rightarrow> Condition list \<Rightarrow> Condition \<Rightarrow> Condition list"

definition IsDeleted :: "find_fn \<Rightarrow> Status \<Rightarrow> bool" where
  "IsDeleted FindStatusCondition status =
     (case FindStatusCondition (Conditions status) TypeSuccessful of
        None \<Rightarrow> False
      | Some condition \<Rightarrow>
          cond_Status condition = ConditionTrue \<and> cond_Reason condition = ReasonDeleted)"

text \<open>A value of the model shares no storage with another, so a clone is the value itself.\<close>

definition CloneApplySpec :: "ApplySpec \<Rightarrow> ApplySpec" where
  "CloneApplySpec spec = spec\<lparr>KubeContent := KubeContent spec\<rparr>"

definition CloneStatus :: "Status \<Rightarrow> Status" where
  "CloneStatus status = status\<lparr>Conditions := Conditions status\<rparr>"

definition CloneReadStatus :: "ReadStatus \<Rightarrow> ReadStatus" where
  "CloneReadStatus status =
     status\<lparr>rs_Status := CloneStatus (rs_Status status), rs_KubeContent := rs_KubeContent status\<rparr>"

section \<open>Validation\<close>

text \<open>The checks of \<open>k8s.io/apimachinery/pkg/util/validation\<close>: the problems found in a name.\<close>

record dns_api =
  IsDNS1035Label :: "string \<Rightarrow> string list"
  IsDNS1123Label :: "string \<Rightarrow> string list"
  IsDNS1123Subdomain :: "string \<Rightarrow> string list"

definition required_error :: "string \<Rightarrow> goerror" where
  "required_error field = ErrorString (''field '' @ field @ '' is required and must be non-empty'')"

definition invalid_error :: "string \<Rightarrow> string \<Rightarrow> string \<Rightarrow> string list \<Rightarrow> goerror" where
  "invalid_error kind field value errs =
     ErrorString (''field '' @ field @ '': value '' @ quote value @ '' is not a valid '' @ kind @ '': ''
       @ join_with ''; '' errs)"

definition validateDNS1035Label :: "dns_api \<Rightarrow> string \<Rightarrow> string \<Rightarrow> bool \<Rightarrow> goerror option" where
  "validateDNS1035Label v field value required =
     (if value = [] then (if required then Some (required_error field) else None)
      else let errs = IsDNS1035Label v value in
           if errs \<noteq> [] then Some (invalid_error ''DNS-1035 label'' field value errs) else None)"

definition validateDNS1123Label :: "dns_api \<Rightarrow> string \<Rightarrow> string \<Rightarrow> bool \<Rightarrow> goerror option" where
  "validateDNS1123Label v field value required =
     (if value = [] then (if required then Some (required_error field) else None)
      else let errs = IsDNS1123Label v value in
           if errs \<noteq> [] then Some (invalid_error ''DNS-1123 label'' field value errs) else None)"

definition validateDNS1123Subdomain :: "dns_api \<Rightarrow> string \<Rightarrow> string \<Rightarrow> bool \<Rightarrow> goerror option" where
  "validateDNS1123Subdomain v field value required =
     (if value = [] then (if required then Some (required_error field) else None)
      else let errs = IsDNS1123Subdomain v value in
           if errs \<noteq> [] then Some (invalid_error ''DNS-1123 subdomain'' field value errs) else None)"

definition Identity_Validate :: "dns_api \<Rightarrow> Identity \<Rightarrow> goerror option" where
  "Identity_Validate v i =
     (if DesireTypeOf i \<noteq> TypeApply \<and> DesireTypeOf i \<noteq> TypeDelete \<and> DesireTypeOf i \<noteq> TypeRead then
        Some (ErrorString (''field type: value '' @ quote (DesireTypeOf i)
          @ '' is not a valid DesireType (apply, delete, or read)''))
      else case validateDNS1123Label v ''managementCluster'' (ManagementCluster i) True of
        Some err \<Rightarrow> Some (wrap ''identity'' err)
      | None \<Rightarrow>
      (case validateDNS1123Subdomain v ''group'' (Group i) False of
        Some err \<Rightarrow> Some (wrap ''identity'' err)
      | None \<Rightarrow>
      (case validateDNS1035Label v ''resource'' (Resource i) True of
        Some err \<Rightarrow> Some (wrap ''identity'' err)
      | None \<Rightarrow>
      (case validateDNS1123Label v ''namespace'' (Namespace i) False of
        Some err \<Rightarrow> Some (wrap ''identity'' err)
      | None \<Rightarrow>
      (case validateDNS1123Subdomain v ''name'' (Name i) False of
        Some err \<Rightarrow> Some (wrap ''identity'' err)
      | None \<Rightarrow> None)))))"

definition ApplySpec_Validate :: "ApplySpec \<Rightarrow> goerror option" where
  "ApplySpec_Validate s =
     (if length (KubeContent s) = 0 then
        Some (ErrorString ''ApplySpec.KubeContent must not be empty'')
      else if \<not> json_Valid (KubeContent s) then
        Some (ErrorString ''ApplySpec.KubeContent must be valid JSON'')
      else None)"

definition ApplyDesire_Validate :: "dns_api \<Rightarrow> ApplyDesire \<Rightarrow> goerror option" where
  "ApplyDesire_Validate v d =
     (if DesireTypeOf (ad_Identity d) \<noteq> TypeApply then
        Some (ErrorString (''ApplyDesire: identity type must be '' @ quote TypeApply @ '', got ''
          @ quote (DesireTypeOf (ad_Identity d))))
      else case Identity_Validate v (ad_Identity d) of
        Some err \<Rightarrow> Some (wrap ''ApplyDesire'' err)
      | None \<Rightarrow>
        if ad_Owner d = [] then Some (ErrorString ''ApplyDesire.Owner is required'')
        else case ApplySpec_Validate (ad_Spec d) of
          Some err \<Rightarrow> Some (wrap ''ApplyDesire'' err)
        | None \<Rightarrow> None)"

definition DeleteDesire_Validate :: "dns_api \<Rightarrow> DeleteDesire \<Rightarrow> goerror option" where
  "DeleteDesire_Validate v d =
     (if DesireTypeOf (dd_Identity d) \<noteq> TypeDelete then
        Some (ErrorString (''DeleteDesire: identity type must be '' @ quote TypeDelete @ '', got ''
          @ quote (DesireTypeOf (dd_Identity d))))
      else case Identity_Validate v (dd_Identity d) of
        Some err \<Rightarrow> Some (wrap ''DeleteDesire'' err)
      | None \<Rightarrow>
        if dd_Owner d = [] then Some (ErrorString ''DeleteDesire.Owner is required'') else None)"

definition ReadDesire_Validate :: "dns_api \<Rightarrow> ReadDesire \<Rightarrow> goerror option" where
  "ReadDesire_Validate v d =
     (if DesireTypeOf (rd_Identity d) \<noteq> TypeRead then
        Some (ErrorString (''ReadDesire: identity type must be '' @ quote TypeRead @ '', got ''
          @ quote (DesireTypeOf (rd_Identity d))))
      else case Identity_Validate v (rd_Identity d) of
        Some err \<Rightarrow> Some (wrap ''ReadDesire'' err)
      | None \<Rightarrow>
        if rd_Owner d = [] then Some (ErrorString ''ReadDesire.Owner is required'')
        else if rd_TargetVersion d = [] then
          Some (ErrorString ''ReadDesire.TargetVersion is required'')
        else None)"

section \<open>Prefix selector\<close>

record PrefixSelector =
  sel_Type :: DesireType
  sel_Group :: string
  sel_Resource :: string
  sel_Namespace :: string
  sel_Name :: string

text \<open>\<open>strings.HasPrefix\<close> with its arguments in the order of the code.\<close>

definition HasPrefix :: "string \<Rightarrow> string \<Rightarrow> bool" where
  "HasPrefix s pre = prefix pre s"

definition Matches :: "PrefixSelector \<Rightarrow> Identity \<Rightarrow> bool" where
  "Matches sel i =
     (if sel_Type sel \<noteq> [] \<and> DesireTypeOf i \<noteq> sel_Type sel then False
      else if sel_Group sel \<noteq> [] \<and> \<not> HasPrefix (Group i) (sel_Group sel) then False
      else if sel_Resource sel \<noteq> [] \<and> \<not> HasPrefix (Resource i) (sel_Resource sel) then False
      else if sel_Namespace sel \<noteq> [] \<and> Namespace i \<noteq> sel_Namespace sel then False
      else if sel_Name sel \<noteq> [] \<and> Name i \<noteq> sel_Name sel then False
      else True)"

section \<open>Owner check\<close>

text \<open>
  \<open>CheckOwner\<close> with the counter \<open>ownerConflictTotal\<close>, an atomic \<open>uint64\<close>, passed through; the
  logged warning is left out.
\<close>

definition ReportOwnerConflict :: "uint64 \<Rightarrow> uint64" where
  "ReportOwnerConflict n = n + 1"

definition CheckOwner :: "string \<Rightarrow> string \<Rightarrow> uint64 \<Rightarrow> goerror option \<times> uint64" where
  "CheckOwner existingOwner attemptedOwner n =
     (if existingOwner = attemptedOwner then (None, n)
      else (Some ErrOwnerConflict, ReportOwnerConflict n))"

section \<open>Comparing specs\<close>

text \<open>Two decoded values are \<open>reflect.DeepEqual\<close> exactly when they are the same \<^typ>\<open>json\<close>.\<close>

definition speccompare_decode :: "bytes \<Rightarrow> json option" where
  "speccompare_decode content = (if \<not> json_Valid content then None else json_decode content)"

definition speccompare_Equal :: "ApplySpec \<Rightarrow> ApplySpec \<Rightarrow> bool" where
  "speccompare_Equal a b =
     (if KubeContent a = KubeContent b then json_Valid (KubeContent a)
      else case speccompare_decode (KubeContent a) of
        None \<Rightarrow> False
      | Some left \<Rightarrow>
          (case speccompare_decode (KubeContent b) of None \<Rightarrow> False | Some right \<Rightarrow> left = right))"

section \<open>The condition helpers of apimachinery\<close>

text \<open>
  What the code relies on of \<open>meta.FindStatusCondition\<close> and \<open>meta.SetStatusCondition\<close>: the first
  returns the first condition of a type; the second replaces the content of the condition of that
  type, or appends it, and leaves every other condition alone. A condition's time of transition is
  set by it, so nothing is said of that field.
\<close>

definition same_outcome :: "Condition \<Rightarrow> Condition \<Rightarrow> bool" where
  "same_outcome a b \<longleftrightarrow> a\<lparr>cond_LastTransitionTime := 0\<rparr> = b\<lparr>cond_LastTransitionTime := 0\<rparr>"

locale condition_api =
  fixes FindStatusCondition :: find_fn
    and SetStatusCondition :: set_fn
  assumes find_first: "FindStatusCondition cs t = List.find (\<lambda>c. cond_Type c = t) cs"
    and set_same: "\<exists>c'. FindStatusCondition (SetStatusCondition now cs c) (cond_Type c) = Some c'
                        \<and> same_outcome c' c"
    and set_other: "t \<noteq> cond_Type c \<Longrightarrow>
                      FindStatusCondition (SetStatusCondition now cs c) t = FindStatusCondition cs t"
    and set_types: "map cond_Type (SetStatusCondition now cs c) =
                      map cond_Type cs @ (if cond_Type c \<in> cond_Type ` set cs then [] else [cond_Type c])"
begin

lemma find_type: "FindStatusCondition cs t = Some c \<Longrightarrow> cond_Type c = t"
  by (auto simp: find_first find_Some_iff)

lemma find_member: "FindStatusCondition cs t = Some c \<Longrightarrow> c \<in> set cs"
  by (auto simp: find_first find_Some_iff)

lemma find_None: "FindStatusCondition cs t = None \<longleftrightarrow> t \<notin> cond_Type ` set cs"
  by (auto simp: find_first find_None_iff)

lemma find_unique:
  "distinct (map cond_Type cs) \<Longrightarrow> c \<in> set cs \<Longrightarrow> FindStatusCondition cs (cond_Type c) = Some c"
  unfolding find_first by (induction cs) force+

lemma set_distinct:
  "distinct (map cond_Type cs) \<Longrightarrow> distinct (map cond_Type (SetStatusCondition now cs c))"
  by (auto simp: set_types)

lemma IsDeleted_set:
  "cond_Type c = TypeSuccessful \<Longrightarrow>
   IsDeleted FindStatusCondition \<lparr>Conditions = SetStatusCondition now cs c\<rparr> \<longleftrightarrow>
     cond_Status c = ConditionTrue \<and> cond_Reason c = ReasonDeleted"
  using set_same [of now cs c]
  by (auto simp: IsDeleted_def same_outcome_def) (metis Condition.select_convs Condition.surjective Condition.update_convs(4))+

end

text \<open>The two helpers as their documentation states them.\<close>

definition find_condition :: find_fn where
  "find_condition cs t = List.find (\<lambda>c. cond_Type c = t) cs"

fun set_condition :: set_fn where
  "set_condition now [] c =
     [if cond_LastTransitionTime c = 0 then c\<lparr>cond_LastTransitionTime := now\<rparr> else c]"
| "set_condition now (x # xs) c =
     (if cond_Type x = cond_Type c then
        c\<lparr>cond_LastTransitionTime :=
            (if cond_Status x = cond_Status c then cond_LastTransitionTime x
             else if cond_LastTransitionTime c = 0 then now else cond_LastTransitionTime c)\<rparr> # xs
      else x # set_condition now xs c)"

interpretation kube_conditions: condition_api find_condition set_condition
proof unfold_locales
  fix now cs and c :: Condition
  show "\<exists>c'. find_condition (set_condition now cs c) (cond_Type c) = Some c' \<and> same_outcome c' c"
    by (induction now cs c rule: set_condition.induct) (auto simp: find_condition_def same_outcome_def)
next
  fix t now cs and c :: Condition
  assume "t \<noteq> cond_Type c"
  then show "find_condition (set_condition now cs c) t = find_condition cs t"
    by (induction now cs c rule: set_condition.induct) (auto simp: find_condition_def)
next
  fix now cs and c :: Condition
  show "map cond_Type (set_condition now cs c) =
      map cond_Type cs @ (if cond_Type c \<in> cond_Type ` set cs then [] else [cond_Type c])"
    by (induction now cs c rule: set_condition.induct) auto
qed (simp add: find_condition_def)

section \<open>Facts about the types\<close>

lemma types_distinct [simp]:
  "TypeApply \<noteq> TypeDelete" "TypeDelete \<noteq> TypeApply" "TypeApply \<noteq> TypeRead"
  "TypeRead \<noteq> TypeApply" "TypeDelete \<noteq> TypeRead" "TypeRead \<noteq> TypeDelete"
  by (simp_all add: TypeApply_def TypeDelete_def TypeRead_def)

lemma types_nonempty [simp]: "TypeApply \<noteq> []" "TypeDelete \<noteq> []" "TypeRead \<noteq> []"
  by (simp_all add: TypeApply_def TypeDelete_def TypeRead_def)

lemma clone_id [simp]:
  "CloneApplySpec sp = sp" "CloneStatus st = st" "CloneReadStatus rst = rst"
  by (simp_all add: CloneApplySpec_def CloneStatus_def CloneReadStatus_def)

lemma identity_type_upd [simp]: "i\<lparr>DesireTypeOf := DesireTypeOf i\<rparr> = i"
  by simp

lemma identity_type_eqI:
  "i\<lparr>DesireTypeOf := t\<rparr> = j\<lparr>DesireTypeOf := t\<rparr> \<Longrightarrow> DesireTypeOf i = DesireTypeOf j \<Longrightarrow> i = j"
  by (cases i; cases j) simp

lemma json_Valid_iff: "json_Valid s \<longleftrightarrow> (\<exists>v. json_decode s = Some v)"
  by (simp add: json_Valid_def)

lemma speccompare_decode_eq: "speccompare_decode content = json_decode content"
  by (auto simp: speccompare_decode_def json_Valid_iff)

lemma speccompare_Equal_iff:
  "speccompare_Equal a b \<longleftrightarrow>
     (\<exists>v. json_decode (KubeContent a) = Some v \<and> json_decode (KubeContent b) = Some v)"
  by (auto simp: speccompare_Equal_def speccompare_decode_eq json_Valid_iff split: option.splits)

end
