(* ===== verification/StoreRecord.thy ===== *)
theory StoreRecord
  imports Desire
begin

text \<open>
  The record both store backends keep for one desire, the zero record, and the projections into
  the three public desire types. A nil \<open>Apply\<close> pointer is \<^term>\<open>None\<close>. The two backends declare the
  same struct and the same projections; the projections are mapped to the in-memory backend.
\<close>

record resourceRecord =
  rec_Apply :: "ApplySpec option"
  rec_Identity :: Identity
  rec_OriginID :: string
  rec_Owner :: string
  rec_TargetVersion :: string
  rec_ReadStatus :: ReadStatus
  rec_Status :: Status
  rec_Generation :: int64
  rec_Version :: int64

definition zero_Identity :: Identity where
  "zero_Identity = \<lparr>ManagementCluster = [], DesireTypeOf = [], Group = [], Resource = [],
     Namespace = [], Name = []\<rparr>"

definition zero_Status :: Status where
  "zero_Status = \<lparr>Conditions = []\<rparr>"

definition zero_ReadStatus :: ReadStatus where
  "zero_ReadStatus = \<lparr>rs_Status = zero_Status, rs_KubeContent = []\<rparr>"

definition zero_record :: resourceRecord where
  "zero_record = \<lparr>rec_Apply = None, rec_Identity = zero_Identity, rec_OriginID = [], rec_Owner = [],
     rec_TargetVersion = [], rec_ReadStatus = zero_ReadStatus, rec_Status = zero_Status,
     rec_Generation = 0, rec_Version = 0\<rparr>"

definition zero_ApplyDesire :: ApplyDesire where
  "zero_ApplyDesire = \<lparr>ad_Identity = zero_Identity, ad_Owner = [], ad_OriginID = [],
     ad_Spec = \<lparr>KubeContent = []\<rparr>, ad_Status = zero_Status, ad_Generation = 0, ad_Version = 0\<rparr>"

definition projectApplyDesire :: "resourceRecord \<Rightarrow> ApplyDesire" where
  "projectApplyDesire r =
     (case rec_Apply r of
        None \<Rightarrow> zero_ApplyDesire
      | Some spec \<Rightarrow>
          \<lparr>ad_Identity = rec_Identity r, ad_Owner = rec_Owner r, ad_OriginID = rec_OriginID r,
           ad_Spec = CloneApplySpec spec, ad_Status = CloneStatus (rec_Status r),
           ad_Generation = rec_Generation r, ad_Version = rec_Version r\<rparr>)"

definition projectDeleteDesire :: "resourceRecord \<Rightarrow> DeleteDesire" where
  "projectDeleteDesire r =
     \<lparr>dd_Identity = rec_Identity r, dd_Owner = rec_Owner r, dd_OriginID = rec_OriginID r,
      dd_Status = CloneStatus (rec_Status r), dd_Generation = rec_Generation r,
      dd_Version = rec_Version r\<rparr>"

definition projectReadDesire :: "resourceRecord \<Rightarrow> ReadDesire" where
  "projectReadDesire r =
     \<lparr>rd_Identity = rec_Identity r, rd_Owner = rec_Owner r, rd_OriginID = rec_OriginID r,
      rd_TargetVersion = rec_TargetVersion r, rd_Status = CloneReadStatus (rec_ReadStatus r),
      rd_Generation = rec_Generation r, rd_Version = rec_Version r\<rparr>"

text \<open>The records the three create operations write.\<close>

definition new_apply_record :: "ApplyDesire \<Rightarrow> resourceRecord" where
  "new_apply_record d = zero_record\<lparr>rec_Identity := ad_Identity d, rec_Owner := ad_Owner d,
     rec_OriginID := ad_OriginID d, rec_Generation := InitialGeneration, rec_Version := 1,
     rec_Apply := Some (CloneApplySpec (ad_Spec d))\<rparr>"

definition new_delete_record :: "DeleteDesire \<Rightarrow> resourceRecord" where
  "new_delete_record d = zero_record\<lparr>rec_Identity := dd_Identity d, rec_Owner := dd_Owner d,
     rec_OriginID := dd_OriginID d, rec_Generation := InitialGeneration, rec_Version := 1\<rparr>"

definition new_read_record :: "ReadDesire \<Rightarrow> resourceRecord" where
  "new_read_record d = zero_record\<lparr>rec_Identity := rd_Identity d, rec_Owner := rd_Owner d,
     rec_OriginID := rd_OriginID d, rec_TargetVersion := rd_TargetVersion d,
     rec_Generation := InitialGeneration, rec_Version := 1\<rparr>"

text \<open>A target is an identity without its type: what the sibling desires share.\<close>

definition sibling :: "Identity \<Rightarrow> DesireType \<Rightarrow> Identity" where
  "sibling i t = i\<lparr>DesireTypeOf := t\<rparr>"

definition target_of :: "Identity \<Rightarrow> Identity" where
  "target_of i = i\<lparr>DesireTypeOf := []\<rparr>"

lemma sibling_simps [simp]:
  "DesireTypeOf (sibling i t) = t"
  "ManagementCluster (sibling i t) = ManagementCluster i"
  "Group (sibling i t) = Group i"
  "Resource (sibling i t) = Resource i"
  "Namespace (sibling i t) = Namespace i"
  "Name (sibling i t) = Name i"
  "sibling (sibling i t) u = sibling i u"
  "sibling i (DesireTypeOf i) = i"
  by (simp_all add: sibling_def)

lemma target_of_sibling [simp]: "target_of (sibling i t) = target_of i"
  by (simp add: target_of_def sibling_def)

lemma sibling_target_of [simp]: "sibling (target_of i) t = sibling i t"
  by (simp add: target_of_def sibling_def)

lemma sibling_eq_iff: "sibling i t = j \<longleftrightarrow> target_of i = target_of j \<and> DesireTypeOf j = t"
  by (cases i; cases j) (auto simp: target_of_def sibling_def)

lemma eq_sibling_iff: "j = sibling i t \<longleftrightarrow> target_of i = target_of j \<and> DesireTypeOf j = t"
  using sibling_eq_iff by metis

lemma sibling_same [simp]:
  "sibling i t = i \<longleftrightarrow> DesireTypeOf i = t" "i = sibling i t \<longleftrightarrow> DesireTypeOf i = t"
  "sibling i t = sibling i u \<longleftrightarrow> t = u"
  by (auto simp: sibling_eq_iff eq_sibling_iff)

lemma identity_eq_iff: "i = j \<longleftrightarrow> target_of i = target_of j \<and> DesireTypeOf i = DesireTypeOf j"
  by (metis sibling_eq_iff sibling_simps(8))

lemma new_record_simps [simp]:
  "rec_Identity (new_apply_record d) = ad_Identity d"
  "rec_Owner (new_apply_record d) = ad_Owner d"
  "rec_Apply (new_apply_record d) = Some (ad_Spec d)"
  "rec_Generation (new_apply_record d) = 1"
  "rec_Version (new_apply_record d) = 1"
  "rec_Status (new_apply_record d) = zero_Status"
  "rec_Identity (new_delete_record e) = dd_Identity e"
  "rec_Owner (new_delete_record e) = dd_Owner e"
  "rec_Apply (new_delete_record e) = None"
  "rec_Generation (new_delete_record e) = 1"
  "rec_Version (new_delete_record e) = 1"
  "rec_Status (new_delete_record e) = zero_Status"
  "rec_Identity (new_read_record g) = rd_Identity g"
  "rec_Owner (new_read_record g) = rd_Owner g"
  "rec_Apply (new_read_record g) = None"
  "rec_Generation (new_read_record g) = 1"
  "rec_Version (new_read_record g) = 1"
  by (simp_all add: new_apply_record_def new_delete_record_def new_read_record_def zero_record_def
      InitialGeneration_def)

lemma project_simps [simp]:
  "rec_Apply r = Some sp \<Longrightarrow> ad_Identity (projectApplyDesire r) = rec_Identity r"
  "rec_Apply r = Some sp \<Longrightarrow> ad_Owner (projectApplyDesire r) = rec_Owner r"
  "rec_Apply r = Some sp \<Longrightarrow> ad_Spec (projectApplyDesire r) = sp"
  "rec_Apply r = Some sp \<Longrightarrow> ad_Status (projectApplyDesire r) = rec_Status r"
  "rec_Apply r = Some sp \<Longrightarrow> ad_Generation (projectApplyDesire r) = rec_Generation r"
  "rec_Apply r = Some sp \<Longrightarrow> ad_Version (projectApplyDesire r) = rec_Version r"
  "dd_Identity (projectDeleteDesire r) = rec_Identity r"
  "dd_Owner (projectDeleteDesire r) = rec_Owner r"
  "dd_Status (projectDeleteDesire r) = rec_Status r"
  "dd_Generation (projectDeleteDesire r) = rec_Generation r"
  "dd_Version (projectDeleteDesire r) = rec_Version r"
  "rd_Identity (projectReadDesire r) = rec_Identity r"
  "rd_Owner (projectReadDesire r) = rec_Owner r"
  "rd_Status (projectReadDesire r) = rec_ReadStatus r"
  "rd_Generation (projectReadDesire r) = rec_Generation r"
  "rd_Version (projectReadDesire r) = rec_Version r"
  by (simp_all add: projectApplyDesire_def projectDeleteDesire_def projectReadDesire_def)

end
