(* ===== verification/StoreContract.thy ===== *)
theory StoreContract
  imports StoreRecord
begin

text \<open>
  What the stores promise, stated on the map from identities to records that both backends
  represent: the well-formedness of such a map, and an abstract machine that keeps, for every
  target, one owner, at most one intent (apply it or delete it) and at most one read mirror.
  The map abstracts to that machine by \<open>target_state_of\<close>.
\<close>

section \<open>Well-formed record maps\<close>

type_synonym record_map = "Identity \<rightharpoonup> resourceRecord"

definition record_ok :: "dns_api \<Rightarrow> Identity \<Rightarrow> resourceRecord \<Rightarrow> bool" where
  "record_ok v i r \<longleftrightarrow>
     rec_Identity r = i \<and> Identity_Validate v i = None \<and> rec_Owner r \<noteq> [] \<and>
     (case rec_Apply r of
        None \<Rightarrow> DesireTypeOf i \<noteq> TypeApply
      | Some spec \<Rightarrow> DesireTypeOf i = TypeApply \<and> ApplySpec_Validate spec = None)"

definition wf_map :: "dns_api \<Rightarrow> record_map \<Rightarrow> bool" where
  "wf_map v m \<longleftrightarrow>
     (\<forall>i r. m i = Some r \<longrightarrow> record_ok v i r) \<and>
     (\<forall>i j r q. m i = Some r \<longrightarrow> m j = Some q \<longrightarrow> target_of i = target_of j \<longrightarrow>
        rec_Owner r = rec_Owner q) \<and>
     (\<forall>i r. m (sibling i TypeApply) = Some r \<longrightarrow> m (sibling i TypeDelete) = None)"

lemma wf_mapI:
  assumes "\<And>i r. m i = Some r \<Longrightarrow> record_ok v i r"
    and "\<And>i j r q. m i = Some r \<Longrightarrow> m j = Some q \<Longrightarrow> target_of i = target_of j \<Longrightarrow>
           rec_Owner r = rec_Owner q"
    and "\<And>i r. m (sibling i TypeApply) = Some r \<Longrightarrow> m (sibling i TypeDelete) = None"
  shows "wf_map v m"
  unfolding wf_map_def using assms by blast

lemma wf_mapD:
  assumes "wf_map v m"
  shows "m i = Some r \<Longrightarrow> record_ok v i r"
    and "m i = Some r \<Longrightarrow> m j = Some q \<Longrightarrow> target_of i = target_of j \<Longrightarrow> rec_Owner r = rec_Owner q"
    and "m (sibling i TypeApply) = Some r \<Longrightarrow> m (sibling i TypeDelete) = None"
  using assms unfolding wf_map_def by blast+

lemma wf_map_no_apply:
  "wf_map v m \<Longrightarrow> m (sibling i TypeDelete) = Some r \<Longrightarrow> m (sibling i TypeApply) = None"
  using wf_mapD(3) [of v m i] by (cases "m (sibling i TypeApply)") auto

lemma wf_map_empty: "wf_map v Map.empty"
  by (simp add: wf_map_def)

lemma wf_map_restrict:
  assumes "wf_map v m" and sub: "\<And>i r. m' i = Some r \<Longrightarrow> m i = Some r"
  shows "wf_map v m'"
proof (rule wf_mapI)
  fix i r
  assume "m' (sibling i TypeApply) = Some r"
  then have "m (sibling i TypeDelete) = None" using wf_mapD(3) [OF assms(1) sub] by blast
  then show "m' (sibling i TypeDelete) = None" using sub by (metis not_None_eq)
qed (use wf_mapD(1,2) [OF assms(1)] sub in blast)+

lemma wf_map_delete: "wf_map v m \<Longrightarrow> wf_map v (m(i := None))"
  by (erule wf_map_restrict) (simp split: if_splits)

text \<open>Adding a record: its siblings have its owner, and it does not add a second intent.\<close>

lemma wf_map_insert:
  assumes wf: "wf_map v m" and "record_ok v i r"
    and owner: "\<And>j q. m j = Some q \<Longrightarrow> target_of j = target_of i \<Longrightarrow> rec_Owner q = rec_Owner r"
    and da: "DesireTypeOf i = TypeApply \<Longrightarrow> m (sibling i TypeDelete) = None"
    and ad: "DesireTypeOf i = TypeDelete \<Longrightarrow> m (sibling i TypeApply) = None"
  shows "wf_map v (m(i \<mapsto> r))"
proof (rule wf_mapI)
  fix j q
  assume a: "(m(i \<mapsto> r)) (sibling j TypeApply) = Some q"
  show "(m(i \<mapsto> r)) (sibling j TypeDelete) = None"
  proof (cases "target_of j = target_of i")
    case True
    then have s: "sibling j t = sibling i t" for t by (metis sibling_target_of)
    show ?thesis
      using a da ad wf_mapD(3) [OF wf, of i] unfolding s by (auto split: if_splits)
  next
    case False
    then show ?thesis
      using a wf_mapD(3) [OF wf, of j] by (auto simp: sibling_eq_iff split: if_splits)
  qed
next
  fix j k q p
  assume "(m(i \<mapsto> r)) j = Some q" "(m(i \<mapsto> r)) k = Some p" "target_of j = target_of k"
  then show "rec_Owner q = rec_Owner p"
    using owner [of j q] owner [of k p] wf_mapD(2) [OF wf, of j q k p]
    by (simp split: if_splits)
next
  fix j q
  assume "(m(i \<mapsto> r)) j = Some q"
  then show "record_ok v j q"
    using assms(2) wf_mapD(1) [OF wf] by (simp split: if_splits)
qed

text \<open>Rewriting a record without touching what the invariant speaks of.\<close>

lemma wf_map_update:
  assumes wf: "wf_map v m" and old: "m i = Some r" and "record_ok v i r'" "rec_Owner r' = rec_Owner r"
  shows "wf_map v (m(i \<mapsto> r'))"
proof (rule wf_map_insert [OF wf assms(3)])
  fix j q
  assume "m j = Some q" "target_of j = target_of i"
  then show "rec_Owner q = rec_Owner r'"
    using wf_mapD(2) [OF wf _ old] assms(4) by simp
next
  assume t: "DesireTypeOf i = TypeApply"
  then have "m (sibling i TypeApply) = Some r" using old by (metis sibling_simps(8))
  then show "m (sibling i TypeDelete) = None" by (rule wf_mapD(3) [OF wf])
next
  assume t: "DesireTypeOf i = TypeDelete"
  then have "m (sibling i TypeDelete) = Some r" using old by (metis sibling_simps(8))
  then show "m (sibling i TypeApply) = None" by (rule wf_map_no_apply [OF wf])
qed

text \<open>The same facts for an identity of a known type.\<close>

lemma wf_apply_record:
  "wf_map v m \<Longrightarrow> DesireTypeOf i = TypeApply \<Longrightarrow> m i = Some q \<Longrightarrow> \<exists>sp. rec_Apply q = Some sp"
  using wf_mapD(1) [of v m i q] by (auto simp: record_ok_def split: option.splits)

lemma wf_apply_excl:
  "wf_map v m \<Longrightarrow> DesireTypeOf i = TypeApply \<Longrightarrow> m i = Some q \<Longrightarrow> m (sibling i TypeDelete) = None"
  using wf_mapD(3) [of v m i q] by (metis sibling_simps(8))

lemma wf_delete_excl:
  "wf_map v m \<Longrightarrow> DesireTypeOf i = TypeDelete \<Longrightarrow> m i = Some q \<Longrightarrow> m (sibling i TypeApply) = None"
  using wf_map_no_apply [of v m i q] by (metis sibling_simps(8))

lemma wf_sibling_apply_record:
  "wf_map v m \<Longrightarrow> m (sibling i TypeApply) = Some q \<Longrightarrow> \<exists>sp. rec_Apply q = Some sp"
  by (rule wf_apply_record [of v m "sibling i TypeApply"]) simp_all

lemma wf_sibling_owner:
  "wf_map v m \<Longrightarrow> m (sibling i t) = Some r \<Longrightarrow> m i = Some q \<Longrightarrow> rec_Owner r = rec_Owner q"
  by (rule wf_mapD(2) [of v m "sibling i t" r i q]) simp_all

section \<open>The abstract machine\<close>

record apply_entry =
  ae_OriginID :: string
  ae_Spec :: ApplySpec
  ae_Status :: Status
  ae_Generation :: int64
  ae_Version :: int64

record delete_entry =
  de_OriginID :: string
  de_Status :: Status
  de_Generation :: int64
  de_Version :: int64

record read_entry =
  re_OriginID :: string
  re_TargetVersion :: string
  re_Status :: ReadStatus
  re_Generation :: int64
  re_Version :: int64

datatype intent = NoIntent | WantApply apply_entry | WantDelete delete_entry

record target_state =
  ts_Owner :: string
  ts_Intent :: intent
  ts_Read :: "read_entry option"

type_synonym spec_state = "target_state option"

definition apply_entry_of :: "resourceRecord \<Rightarrow> ApplySpec \<Rightarrow> apply_entry" where
  "apply_entry_of r spec = \<lparr>ae_OriginID = rec_OriginID r, ae_Spec = spec, ae_Status = rec_Status r,
     ae_Generation = rec_Generation r, ae_Version = rec_Version r\<rparr>"

definition delete_entry_of :: "resourceRecord \<Rightarrow> delete_entry" where
  "delete_entry_of r = \<lparr>de_OriginID = rec_OriginID r, de_Status = rec_Status r,
     de_Generation = rec_Generation r, de_Version = rec_Version r\<rparr>"

definition read_entry_of :: "resourceRecord \<Rightarrow> read_entry" where
  "read_entry_of r = \<lparr>re_OriginID = rec_OriginID r, re_TargetVersion = rec_TargetVersion r,
     re_Status = rec_ReadStatus r, re_Generation = rec_Generation r, re_Version = rec_Version r\<rparr>"

text \<open>
  The abstraction: the records of the three siblings become one state. In a well-formed map the
  apply and the delete record exclude each other and the owners agree, so nothing is lost.
\<close>

definition intent_of :: "resourceRecord option \<Rightarrow> resourceRecord option \<Rightarrow> intent" where
  "intent_of a d =
     (case a of
        Some r \<Rightarrow> (case rec_Apply r of Some spec \<Rightarrow> WantApply (apply_entry_of r spec) | None \<Rightarrow> NoIntent)
      | None \<Rightarrow> (case d of Some r \<Rightarrow> WantDelete (delete_entry_of r) | None \<Rightarrow> NoIntent))"

definition state_of ::
  "resourceRecord option \<Rightarrow> resourceRecord option \<Rightarrow> resourceRecord option \<Rightarrow> spec_state" where
  "state_of a d q =
     (case (a, d, q) of
        (None, None, None) \<Rightarrow> None
      | _ \<Rightarrow> Some \<lparr>ts_Owner = (case a of Some r \<Rightarrow> rec_Owner r | None \<Rightarrow>
                                 (case d of Some r \<Rightarrow> rec_Owner r | None \<Rightarrow>
                                 (case q of Some r \<Rightarrow> rec_Owner r | None \<Rightarrow> []))),
                  ts_Intent = intent_of a d, ts_Read = map_option read_entry_of q\<rparr>)"

definition target_state_of :: "record_map \<Rightarrow> Identity \<Rightarrow> spec_state" where
  "target_state_of m i =
     state_of (m (sibling i TypeApply)) (m (sibling i TypeDelete)) (m (sibling i TypeRead))"

text \<open>The operations of the machine on the state of one target. \<open>None\<close>: the target is unknown.\<close>

definition normal_state :: "target_state \<Rightarrow> spec_state" where
  "normal_state t = (if ts_Intent t = NoIntent \<and> ts_Read t = None then None else Some t)"

definition fresh_apply :: "ApplyDesire \<Rightarrow> apply_entry" where
  "fresh_apply d = \<lparr>ae_OriginID = ad_OriginID d, ae_Spec = ad_Spec d, ae_Status = \<lparr>Conditions = []\<rparr>,
     ae_Generation = 1, ae_Version = 1\<rparr>"

definition spec_create_apply :: "find_fn \<Rightarrow> ApplyDesire \<Rightarrow> spec_state \<Rightarrow> spec_state result" where
  "spec_create_apply fnd d st =
     (case st of
        None \<Rightarrow> Inr (Some \<lparr>ts_Owner = ad_Owner d, ts_Intent = WantApply (fresh_apply d), ts_Read = None\<rparr>)
      | Some t \<Rightarrow>
          if ts_Owner t \<noteq> ad_Owner d then Inl ErrOwnerConflict
          else case ts_Intent t of
            WantApply e \<Rightarrow> Inl ErrAlreadyExists
          | WantDelete e \<Rightarrow>
              if IsDeleted fnd (de_Status e) then Inr (Some (t\<lparr>ts_Intent := WantApply (fresh_apply d)\<rparr>))
              else Inl ErrDeletePending
          | NoIntent \<Rightarrow> Inr (Some (t\<lparr>ts_Intent := WantApply (fresh_apply d)\<rparr>)))"

definition fresh_delete :: "DeleteDesire \<Rightarrow> delete_entry" where
  "fresh_delete d = \<lparr>de_OriginID = dd_OriginID d, de_Status = \<lparr>Conditions = []\<rparr>,
     de_Generation = 1, de_Version = 1\<rparr>"

definition spec_create_delete :: "DeleteDesire \<Rightarrow> spec_state \<Rightarrow> spec_state result" where
  "spec_create_delete d st =
     (case st of
        None \<Rightarrow> Inr (Some \<lparr>ts_Owner = dd_Owner d, ts_Intent = WantDelete (fresh_delete d), ts_Read = None\<rparr>)
      | Some t \<Rightarrow>
          if ts_Owner t \<noteq> dd_Owner d then Inl ErrOwnerConflict
          else case ts_Intent t of
            WantDelete e \<Rightarrow> Inl ErrAlreadyExists
          | _ \<Rightarrow> Inr (Some (t\<lparr>ts_Intent := WantDelete (fresh_delete d)\<rparr>)))"

definition fresh_read :: "ReadDesire \<Rightarrow> read_entry" where
  "fresh_read d = \<lparr>re_OriginID = rd_OriginID d, re_TargetVersion = rd_TargetVersion d,
     re_Status = \<lparr>rs_Status = \<lparr>Conditions = []\<rparr>, rs_KubeContent = []\<rparr>, re_Generation = 1, re_Version = 1\<rparr>"

definition spec_create_read :: "ReadDesire \<Rightarrow> spec_state \<Rightarrow> spec_state result" where
  "spec_create_read d st =
     (case st of
        None \<Rightarrow> Inr (Some \<lparr>ts_Owner = rd_Owner d, ts_Intent = NoIntent, ts_Read = Some (fresh_read d)\<rparr>)
      | Some t \<Rightarrow>
          if ts_Owner t \<noteq> rd_Owner d then Inl ErrOwnerConflict
          else if ts_Read t \<noteq> None then Inl ErrAlreadyExists
          else Inr (Some (t\<lparr>ts_Read := Some (fresh_read d)\<rparr>)))"

text \<open>Versioned access to the intent of a target.\<close>

definition spec_update_spec ::
  "ApplySpec \<Rightarrow> string \<Rightarrow> int64 \<Rightarrow> spec_state \<Rightarrow> spec_state result" where
  "spec_update_spec spec owner version st =
     (case st of
        None \<Rightarrow> Inl ErrNotFound
      | Some t \<Rightarrow>
          (case ts_Intent t of
             WantApply e \<Rightarrow>
               if ae_Version e \<noteq> version then Inl ErrVersionConflict
               else if ts_Owner t \<noteq> owner then Inl ErrOwnerConflict
               else Inr (Some (t\<lparr>ts_Intent := WantApply (e\<lparr>
                      ae_Spec := spec,
                      ae_Generation := ae_Generation e + (if speccompare_Equal (ae_Spec e) spec then 0 else 1),
                      ae_Version := ae_Version e + 1\<rparr>)\<rparr>))
           | _ \<Rightarrow> Inl ErrNotFound))"

definition spec_apply_status :: "Status \<Rightarrow> int64 \<Rightarrow> spec_state \<Rightarrow> spec_state result" where
  "spec_apply_status status version st =
     (case st of
        None \<Rightarrow> Inl ErrNotFound
      | Some t \<Rightarrow>
          (case ts_Intent t of
             WantApply e \<Rightarrow>
               if ae_Version e \<noteq> version then Inl ErrVersionConflict
               else Inr (Some (t\<lparr>ts_Intent := WantApply (e\<lparr>ae_Status := status,
                      ae_Version := ae_Version e + 1\<rparr>)\<rparr>))
           | _ \<Rightarrow> Inl ErrNotFound))"

definition spec_delete_status :: "Status \<Rightarrow> int64 \<Rightarrow> spec_state \<Rightarrow> spec_state result" where
  "spec_delete_status status version st =
     (case st of
        None \<Rightarrow> Inl ErrNotFound
      | Some t \<Rightarrow>
          (case ts_Intent t of
             WantDelete e \<Rightarrow>
               if de_Version e \<noteq> version then Inl ErrVersionConflict
               else Inr (Some (t\<lparr>ts_Intent := WantDelete (e\<lparr>de_Status := status,
                      de_Version := de_Version e + 1\<rparr>)\<rparr>))
           | _ \<Rightarrow> Inl ErrNotFound))"

definition spec_read_status :: "ReadStatus \<Rightarrow> spec_state \<Rightarrow> spec_state result" where
  "spec_read_status status st =
     (case st of
        None \<Rightarrow> Inl ErrNotFound
      | Some t \<Rightarrow>
          (case ts_Read t of
             Some e \<Rightarrow> Inr (Some (t\<lparr>ts_Read := Some (e\<lparr>re_Status := status\<rparr>)\<rparr>))
           | None \<Rightarrow> Inl ErrNotFound))"

definition spec_delete_apply :: "string \<Rightarrow> int64 \<Rightarrow> spec_state \<Rightarrow> spec_state result" where
  "spec_delete_apply owner version st =
     (case st of
        None \<Rightarrow> Inl ErrNotFound
      | Some t \<Rightarrow>
          (case ts_Intent t of
             WantApply e \<Rightarrow>
               if ae_Version e \<noteq> version then Inl ErrVersionConflict
               else if ts_Owner t \<noteq> owner then Inl ErrOwnerConflict
               else Inr (normal_state (t\<lparr>ts_Intent := NoIntent\<rparr>))
           | _ \<Rightarrow> Inl ErrNotFound))"

definition spec_delete_delete :: "string \<Rightarrow> int64 \<Rightarrow> spec_state \<Rightarrow> spec_state result" where
  "spec_delete_delete owner version st =
     (case st of
        None \<Rightarrow> Inl ErrNotFound
      | Some t \<Rightarrow>
          (case ts_Intent t of
             WantDelete e \<Rightarrow>
               if de_Version e \<noteq> version then Inl ErrVersionConflict
               else if ts_Owner t \<noteq> owner then Inl ErrOwnerConflict
               else Inr (normal_state (t\<lparr>ts_Intent := NoIntent\<rparr>))
           | _ \<Rightarrow> Inl ErrNotFound))"

definition spec_delete_read :: "string \<Rightarrow> int64 \<Rightarrow> spec_state \<Rightarrow> spec_state result" where
  "spec_delete_read owner version st =
     (case st of
        None \<Rightarrow> Inl ErrNotFound
      | Some t \<Rightarrow>
          (case ts_Read t of
             Some e \<Rightarrow>
               if re_Version e \<noteq> version then Inl ErrVersionConflict
               else if ts_Owner t \<noteq> owner then Inl ErrOwnerConflict
               else Inr (normal_state (t\<lparr>ts_Read := None\<rparr>))
           | None \<Rightarrow> Inl ErrNotFound))"

text \<open>A target that is unknown, or whose state has the owner, has no record of another owner.\<close>

definition owner_agrees :: "string \<Rightarrow> spec_state \<Rightarrow> bool" where
  "owner_agrees own st \<longleftrightarrow> (case st of None \<Rightarrow> True | Some t \<Rightarrow> ts_Owner t = own)"

lemma target_owner:
  assumes wf: "wf_map v m" and own: "owner_agrees own (target_state_of m i)"
    and j: "m j = Some q" "target_of j = target_of i"
  shows "rec_Owner q = own"
proof -
  have sib: "j = sibling i (DesireTypeOf j)" using j(2) by (simp add: eq_sibling_iff)
  have "DesireTypeOf j \<in> {TypeApply, TypeDelete, TypeRead}"
    using wf_mapD(1) [OF wf j(1)] by (auto simp: record_ok_def Identity_Validate_def split: if_splits)
  then obtain t where "target_state_of m i = Some t" "ts_Owner t = own"
    using own j(1) sib
    by (auto simp: owner_agrees_def target_state_of_def state_of_def split: option.splits)
  then obtain u p where "m (sibling i u) = Some p" "rec_Owner p = own"
    by (auto simp: target_state_of_def state_of_def split: option.splits)
  then show ?thesis using wf_mapD(2) [OF wf _ j(1)] j(2) by (metis target_of_sibling)
qed

text \<open>Creating a record, with other records removed in the same step.\<close>

lemma wf_map_create:
  assumes wf: "wf_map v m" and ok: "record_ok v i r"
    and own: "owner_agrees (rec_Owner r) (target_state_of m i)"
    and sub: "\<And>j q. m' j = Some q \<Longrightarrow> m j = Some q"
    and "DesireTypeOf i = TypeApply \<Longrightarrow> m' (sibling i TypeDelete) = None"
    and "DesireTypeOf i = TypeDelete \<Longrightarrow> m' (sibling i TypeApply) = None"
  shows "wf_map v (m'(i \<mapsto> r))"
  using assms(5,6) target_owner [OF wf own sub]
  by (intro wf_map_insert [OF wf_map_restrict [OF wf sub] ok]) auto

lemma validated_record_ok:
  "ApplyDesire_Validate v d = None \<Longrightarrow> record_ok v (ad_Identity d) (new_apply_record d)"
  "DeleteDesire_Validate v e = None \<Longrightarrow> record_ok v (dd_Identity e) (new_delete_record e)"
  "ReadDesire_Validate v g = None \<Longrightarrow> record_ok v (rd_Identity g) (new_read_record g)"
  by (auto simp: record_ok_def ApplyDesire_Validate_def DeleteDesire_Validate_def
      ReadDesire_Validate_def split: if_splits option.splits)

lemma ApplyDesire_Validate_type:
  "ApplyDesire_Validate v d = None \<Longrightarrow> DesireTypeOf (ad_Identity d) = TypeApply"
  by (simp add: ApplyDesire_Validate_def split: if_splits)

lemma DeleteDesire_Validate_type:
  "DeleteDesire_Validate v d = None \<Longrightarrow> DesireTypeOf (dd_Identity d) = TypeDelete"
  by (simp add: DeleteDesire_Validate_def split: if_splits)

lemma ReadDesire_Validate_type:
  "ReadDesire_Validate v d = None \<Longrightarrow> DesireTypeOf (rd_Identity d) = TypeRead"
  by (simp add: ReadDesire_Validate_def split: if_splits)

section \<open>Implementing the machine\<close>

text \<open>
  An operation on the target of \<open>i\<close> that took the map \<open>m\<close> to \<open>m'\<close> with result \<open>r\<close> implements a step
  of the machine: it fails with an error the caller recognises as the machine's, leaving the map
  alone, or it takes the target to the machine's next state; the records of no other target change.
\<close>

definition implements ::
  "(spec_state \<Rightarrow> spec_state result) \<Rightarrow> Identity \<Rightarrow> record_map \<Rightarrow> 'a result \<Rightarrow> record_map \<Rightarrow> bool" where
  "implements f i m r m' \<longleftrightarrow>
     (case f (target_state_of m i) of
        Inl e \<Rightarrow> (\<exists>err. r = Inl err \<and> errors_Is err e) \<and> m' = m
      | Inr st \<Rightarrow> (\<exists>x. r = Inr x) \<and> target_state_of m' i = st) \<and>
     (\<forall>j. target_of j \<noteq> target_of i \<longrightarrow> m' j = m j)"

lemma implements_error:
  "f (target_state_of m i) = Inl e \<Longrightarrow> errors_Is err e \<Longrightarrow> implements f i m (Inl err) m"
  by (simp add: implements_def)

lemma implements_ok:
  "f (target_state_of m i) = Inr (target_state_of m' i) \<Longrightarrow>
   (\<And>j. target_of j \<noteq> target_of i \<Longrightarrow> m' j = m j) \<Longrightarrow> implements f i m (Inr x) m'"
  by (simp add: implements_def)

text \<open>The state of a target after one of its records is written or removed.\<close>

lemma target_state_upd:
  "DesireTypeOf i = TypeApply \<Longrightarrow>
     target_state_of (m(i := x)) i = state_of x (m (sibling i TypeDelete)) (m (sibling i TypeRead))"
  "DesireTypeOf i = TypeDelete \<Longrightarrow>
     target_state_of (m(i := x)) i = state_of (m (sibling i TypeApply)) x (m (sibling i TypeRead))"
  "DesireTypeOf i = TypeRead \<Longrightarrow>
     target_state_of (m(i := x)) i = state_of (m (sibling i TypeApply)) (m (sibling i TypeDelete)) x"
  by (simp_all add: target_state_of_def)

lemma target_state_unfold:
  "DesireTypeOf i = TypeApply \<Longrightarrow>
     target_state_of m i = state_of (m i) (m (sibling i TypeDelete)) (m (sibling i TypeRead))"
  "DesireTypeOf i = TypeDelete \<Longrightarrow>
     target_state_of m i = state_of (m (sibling i TypeApply)) (m i) (m (sibling i TypeRead))"
  "DesireTypeOf i = TypeRead \<Longrightarrow>
     target_state_of m i = state_of (m (sibling i TypeApply)) (m (sibling i TypeDelete)) (m i)"
  by (metis target_state_of_def sibling_simps(8))+

lemmas spec_op_defs =
  spec_create_apply_def spec_create_delete_def spec_create_read_def spec_update_spec_def
  spec_apply_status_def spec_delete_status_def spec_read_status_def spec_delete_apply_def
  spec_delete_delete_def spec_delete_read_def

lemmas entry_defs =
  state_of_def intent_of_def apply_entry_of_def delete_entry_of_def read_entry_of_def normal_state_def
  fresh_apply_def fresh_delete_def fresh_read_def

end
