(* ===== verification/StoreInterface.thy ===== *)
theory StoreInterface
  imports Desire
begin

text \<open>
  The interface the apply and delete controllers declare for their store (\<open>specLister\<close> and
  \<open>statusWriter\<close>): list a partition, read one desire, write its status under its version. The locale
  fixes the three operations and states the promises of \<open>pkg/desire/store.go\<close> the controllers build
  on; its lemmas hold for every backend and every desire type that satisfies them.
\<close>

locale status_store =
  fixes list_desires :: "string \<Rightarrow> 's \<Rightarrow> 'd list result"
    and get_desire :: "Identity \<Rightarrow> 's \<Rightarrow> 'd result"
    and put_status :: "Identity \<Rightarrow> Status \<Rightarrow> int64 \<Rightarrow> 's \<Rightarrow> 'd result \<times> 's"
    and ident :: "'d \<Rightarrow> Identity"
    and status_of :: "'d \<Rightarrow> Status"
    and generation :: "'d \<Rightarrow> int64"
    and version_of :: "'d \<Rightarrow> int64"
    and store_inv :: "'s \<Rightarrow> bool"
  assumes get_ident: "store_inv s \<Longrightarrow> get_desire i s = Inr d \<Longrightarrow> ident d = i"
    and get_missing: "store_inv s \<Longrightarrow> get_desire i s = Inl e \<Longrightarrow> e = ErrNotFound"
    and list_complete: "store_inv s \<Longrightarrow>
          \<exists>ds. list_desires mc s = Inr ds \<and> distinct (map ident ds) \<and>
            (\<forall>d. d \<in> set ds \<longleftrightarrow> ManagementCluster (ident d) = mc \<and> get_desire (ident d) s = Inr d)"
    and put_missing: "store_inv s \<Longrightarrow> get_desire i s = Inl e \<Longrightarrow>
          put_status i st n s = (Inl ErrNotFound, s)"
    and put_stale: "store_inv s \<Longrightarrow> get_desire i s = Inr d \<Longrightarrow> version_of d \<noteq> n \<Longrightarrow>
          put_status i st n s = (Inl ErrVersionConflict, s)"
    and put_current: "store_inv s \<Longrightarrow> get_desire i s = Inr d \<Longrightarrow> version_of d = n \<Longrightarrow>
          \<exists>d' s'. put_status i st n s = (Inr d', s') \<and> get_desire i s' = Inr d' \<and> store_inv s' \<and>
            status_of d' = st \<and> generation d' = generation d \<and> version_of d' = n + 1 \<and>
            (\<forall>j. j \<noteq> i \<longrightarrow> get_desire j s' = get_desire j s)"
begin

lemma put_inv: "store_inv s \<Longrightarrow> put_status i st n s = (r, s') \<Longrightarrow> store_inv s'"
  using put_missing [of s i] put_stale [of s i _ n st] put_current [of s i _ n st]
  by (cases "get_desire i s") (metis Pair_inject)+

lemma put_result:
  assumes inv: "store_inv s" and put: "put_status i st n s = (r, s')"
  shows "(\<exists>d d'. get_desire i s = Inr d \<and> version_of d = n \<and> r = Inr d' \<and> get_desire i s' = Inr d' \<and>
            status_of d' = st \<and> generation d' = generation d \<and> version_of d' = n + 1) \<or>
         (s' = s \<and> (r = Inl ErrVersionConflict \<or> r = Inl ErrNotFound))"
proof (cases "get_desire i s")
  case (Inl e)
  then show ?thesis using put_missing [OF inv Inl] put by simp
next
  case (Inr d)
  show ?thesis
  proof (cases "version_of d = n")
    case True
    from put_current [OF inv Inr True, of st] show ?thesis using put Inr True by fastforce
  next
    case False
    then show ?thesis using put_stale [OF inv Inr False] put by simp
  qed
qed

lemma put_frame:
  assumes inv: "store_inv s" and put: "put_status i st n s = (r, s')" and "j \<noteq> i"
  shows "get_desire j s' = get_desire j s"
proof (cases "get_desire i s")
  case (Inl e)
  then show ?thesis using put_missing [OF inv Inl, of st n] put by simp
next
  case (Inr d)
  then show ?thesis
    using put_stale [OF inv Inr, of n st] put_current [OF inv Inr, of n st] put assms(3)
    by (cases "version_of d = n") auto
qed

text \<open>Of two writers that read the same version at most one succeeds.\<close>

lemma no_lost_update:
  assumes inv: "store_inv s" and first: "put_status i st n s = (Inr d, s')"
  shows "put_status i st' n s' = (Inl ErrVersionConflict, s')"
proof -
  have "get_desire i s' = Inr d" "version_of d = n + 1"
    using put_result [OF inv first] by auto
  moreover have "n + 1 \<noteq> n" by simp
  ultimately show ?thesis
    using put_stale [OF put_inv [OF inv first], of i d n st'] by metis
qed

end

end
