(* ===== verification/MemoryStore.thy ===== *)
theory MemoryStore
  imports StoreContract StoreInterface "HOL-Library.AList"
begin

text \<open>
  Package \<open>pkg/desire/store/memory\<close>. The state is the map \<open>items\<close>, kept as an association list with
  distinct keys whose order stands for Go's unspecified order of iteration, and the process-wide
  counter of owner conflicts. Every operation runs under the store's mutex, so it is one function
  from the state to its result and the next state.
\<close>

section \<open>State and operations\<close>

record Store =
  items :: "(Identity \<times> resourceRecord) list"
  ownerConflictTotal :: uint64

definition mem_New :: "uint64 \<Rightarrow> Store" where
  "mem_New n = \<lparr>items = [], ownerConflictTotal = n\<rparr>"

abbreviation lookup_item :: "Store \<Rightarrow> record_map" where
  "lookup_item s \<equiv> map_of (items s)"

definition put_item :: "Identity \<Rightarrow> resourceRecord \<Rightarrow> Store \<Rightarrow> Store" where
  "put_item i r s = s\<lparr>items := AList.update i r (items s)\<rparr>"

definition delete_item :: "Identity \<Rightarrow> Store \<Rightarrow> Store" where
  "delete_item i s = s\<lparr>items := AList.delete i (items s)\<rparr>"

text \<open>\<open>targetOwner\<close>: the loop over the desire types, up to the first that has a record.\<close>

fun owner_among :: "Store \<Rightarrow> Identity \<Rightarrow> DesireType list \<Rightarrow> string option" where
  "owner_among s i [] = None"
| "owner_among s i (t # ts) =
     (case lookup_item s (sibling i t) of
        Some r \<Rightarrow> Some (rec_Owner r)
      | None \<Rightarrow> owner_among s i ts)"

definition mem_targetOwner :: "Identity \<Rightarrow> Store \<Rightarrow> string option" where
  "mem_targetOwner i s = owner_among s i AllTypes"

definition mem_CheckOwner :: "string \<Rightarrow> string \<Rightarrow> Store \<Rightarrow> goerror option \<times> Store" where
  "mem_CheckOwner existing attempted s =
     (case CheckOwner existing attempted (ownerConflictTotal s) of
        (e, n) \<Rightarrow> (e, s\<lparr>ownerConflictTotal := n\<rparr>))"

definition mem_checkTargetOwner :: "Identity \<Rightarrow> string \<Rightarrow> Store \<Rightarrow> goerror option \<times> Store" where
  "mem_checkTargetOwner i attempted s =
     (case mem_targetOwner i s of
        Some owner \<Rightarrow> mem_CheckOwner owner attempted s
      | None \<Rightarrow> (None, s))"

definition mem_CreateApplyDesire ::
  "dns_api \<Rightarrow> find_fn \<Rightarrow> ApplyDesire \<Rightarrow> Store \<Rightarrow> ApplyDesire result \<times> Store" where
  "mem_CreateApplyDesire v fnd d s =
     (case ApplyDesire_Validate v d of
        Some err \<Rightarrow> (Inl (wrap ''desire: validate apply desire'' err), s)
      | None \<Rightarrow>
        let i = ad_Identity d in
        (case mem_checkTargetOwner i (ad_Owner d) s of
           (Some err, s1) \<Rightarrow>
             (Inl (wrap (''desire: create apply desire '' @ fmt_identity i) err), s1)
         | (None, s1) \<Rightarrow>
           let deleteID = sibling i TypeDelete in
           (case (case lookup_item s1 deleteID of
                    Some deleteRecord \<Rightarrow>
                      if \<not> IsDeleted fnd (rec_Status deleteRecord) then Inl ErrDeletePending
                      else Inr (delete_item deleteID s1)
                  | None \<Rightarrow> Inr s1) of
              Inl err \<Rightarrow> (Inl err, s1)
            | Inr s2 \<Rightarrow>
                if lookup_item s2 i \<noteq> None then (Inl ErrAlreadyExists, s2)
                else let r = new_apply_record d in
                     (Inr (projectApplyDesire r), put_item i r s2))))"

definition mem_GetApplyDesire :: "Identity \<Rightarrow> Store \<Rightarrow> ApplyDesire result" where
  "mem_GetApplyDesire i s =
     (if DesireTypeOf i \<noteq> TypeApply then Inl ErrNotFound
      else case lookup_item s i of
        None \<Rightarrow> Inl ErrNotFound
      | Some r \<Rightarrow>
          if rec_Apply r = None then Inl ErrNotFound else Inr (projectApplyDesire r))"

definition mem_UpdateApplyDesireSpec ::
  "Identity \<Rightarrow> ApplySpec \<Rightarrow> string \<Rightarrow> int64 \<Rightarrow> Store \<Rightarrow> ApplyDesire result \<times> Store" where
  "mem_UpdateApplyDesireSpec i spec owner version s =
     (if DesireTypeOf i \<noteq> TypeApply then (Inl ErrNotFound, s)
      else case ApplySpec_Validate spec of
        Some err \<Rightarrow> (Inl (wrap ''desire: validate apply spec'' err), s)
      | None \<Rightarrow>
        (case lookup_item s i of
           None \<Rightarrow> (Inl ErrNotFound, s)
         | Some r \<Rightarrow>
           (case rec_Apply r of
              None \<Rightarrow> (Inl ErrNotFound, s)
            | Some old \<Rightarrow>
              if rec_Version r \<noteq> version then (Inl ErrVersionConflict, s)
              else case mem_CheckOwner (rec_Owner r) owner s of
                (Some err, s1) \<Rightarrow>
                  (Inl (wrap (''desire: update apply desire spec '' @ fmt_identity i) err), s1)
              | (None, s1) \<Rightarrow>
                  let cloned = CloneApplySpec spec;
                      r1 = (if \<not> speccompare_Equal old cloned
                            then r\<lparr>rec_Generation := rec_Generation r + 1\<rparr> else r);
                      r2 = r1\<lparr>rec_Apply := Some cloned, rec_Version := rec_Version r1 + 1\<rparr>
                  in (Inr (projectApplyDesire r2), put_item i r2 s1))))"

definition mem_DeleteApplyDesire ::
  "Identity \<Rightarrow> string \<Rightarrow> int64 \<Rightarrow> Store \<Rightarrow> unit result \<times> Store" where
  "mem_DeleteApplyDesire i owner version s =
     (if DesireTypeOf i \<noteq> TypeApply then (Inl ErrNotFound, s)
      else case lookup_item s i of
        None \<Rightarrow> (Inl ErrNotFound, s)
      | Some r \<Rightarrow>
        if rec_Apply r = None then (Inl ErrNotFound, s)
        else if rec_Version r \<noteq> version then (Inl ErrVersionConflict, s)
        else case mem_CheckOwner (rec_Owner r) owner s of
          (Some err, s1) \<Rightarrow>
            (Inl (wrap (''desire: delete apply desire '' @ fmt_identity i) err), s1)
        | (None, s1) \<Rightarrow> (Inr (), delete_item i s1))"

definition mem_CreateDeleteDesire ::
  "dns_api \<Rightarrow> DeleteDesire \<Rightarrow> Store \<Rightarrow> DeleteDesire result \<times> Store" where
  "mem_CreateDeleteDesire v d s =
     (case DeleteDesire_Validate v d of
        Some err \<Rightarrow> (Inl (wrap ''desire: validate delete desire'' err), s)
      | None \<Rightarrow>
        let i = dd_Identity d in
        (case mem_checkTargetOwner i (dd_Owner d) s of
           (Some err, s1) \<Rightarrow>
             (Inl (wrap (''desire: create delete desire '' @ fmt_identity i) err), s1)
         | (None, s1) \<Rightarrow>
             if lookup_item s1 i \<noteq> None then (Inl ErrAlreadyExists, s1)
             else let s2 = delete_item (sibling i TypeApply) s1;
                      r = new_delete_record d
                  in (Inr (projectDeleteDesire r), put_item i r s2)))"

definition mem_GetDeleteDesire :: "Identity \<Rightarrow> Store \<Rightarrow> DeleteDesire result" where
  "mem_GetDeleteDesire i s =
     (if DesireTypeOf i \<noteq> TypeDelete then Inl ErrNotFound
      else case lookup_item s i of
        None \<Rightarrow> Inl ErrNotFound
      | Some r \<Rightarrow> Inr (projectDeleteDesire r))"

definition mem_DeleteDeleteDesire ::
  "Identity \<Rightarrow> string \<Rightarrow> int64 \<Rightarrow> Store \<Rightarrow> unit result \<times> Store" where
  "mem_DeleteDeleteDesire i owner version s =
     (if DesireTypeOf i \<noteq> TypeDelete then (Inl ErrNotFound, s)
      else case lookup_item s i of
        None \<Rightarrow> (Inl ErrNotFound, s)
      | Some r \<Rightarrow>
        if rec_Version r \<noteq> version then (Inl ErrVersionConflict, s)
        else case mem_CheckOwner (rec_Owner r) owner s of
          (Some err, s1) \<Rightarrow>
            (Inl (wrap (''desire: delete delete desire '' @ fmt_identity i) err), s1)
        | (None, s1) \<Rightarrow> (Inr (), delete_item i s1))"

definition mem_CreateReadDesire ::
  "dns_api \<Rightarrow> ReadDesire \<Rightarrow> Store \<Rightarrow> ReadDesire result \<times> Store" where
  "mem_CreateReadDesire v d s =
     (case ReadDesire_Validate v d of
        Some err \<Rightarrow> (Inl (wrap ''desire: validate read desire'' err), s)
      | None \<Rightarrow>
        let i = rd_Identity d in
        (case mem_checkTargetOwner i (rd_Owner d) s of
           (Some err, s1) \<Rightarrow>
             (Inl (wrap (''desire: create read desire '' @ fmt_identity i) err), s1)
         | (None, s1) \<Rightarrow>
             if lookup_item s1 i \<noteq> None then (Inl ErrAlreadyExists, s1)
             else let r = new_read_record d in (Inr (projectReadDesire r), put_item i r s1)))"

definition mem_GetReadDesire :: "Identity \<Rightarrow> Store \<Rightarrow> ReadDesire result" where
  "mem_GetReadDesire i s =
     (if DesireTypeOf i \<noteq> TypeRead then Inl ErrNotFound
      else case lookup_item s i of
        None \<Rightarrow> Inl ErrNotFound
      | Some r \<Rightarrow> Inr (projectReadDesire r))"

definition mem_DeleteReadDesire ::
  "Identity \<Rightarrow> string \<Rightarrow> int64 \<Rightarrow> Store \<Rightarrow> unit result \<times> Store" where
  "mem_DeleteReadDesire i owner version s =
     (if DesireTypeOf i \<noteq> TypeRead then (Inl ErrNotFound, s)
      else case lookup_item s i of
        None \<Rightarrow> (Inl ErrNotFound, s)
      | Some r \<Rightarrow>
        if rec_Version r \<noteq> version then (Inl ErrVersionConflict, s)
        else case mem_CheckOwner (rec_Owner r) owner s of
          (Some err, s1) \<Rightarrow>
            (Inl (wrap (''desire: delete read desire '' @ fmt_identity i) err), s1)
        | (None, s1) \<Rightarrow> (Inr (), delete_item i s1))"

definition mem_ListApplyDesires :: "string \<Rightarrow> Store \<Rightarrow> ApplyDesire list result" where
  "mem_ListApplyDesires mc s =
     Inr (map (\<lambda>(i, r). projectApplyDesire r)
       (filter (\<lambda>(i, r). ManagementCluster i = mc \<and> DesireTypeOf i = TypeApply) (items s)))"

definition mem_ListDeleteDesires :: "string \<Rightarrow> Store \<Rightarrow> DeleteDesire list result" where
  "mem_ListDeleteDesires mc s =
     Inr (map (\<lambda>(i, r). projectDeleteDesire r)
       (filter (\<lambda>(i, r). ManagementCluster i = mc \<and> DesireTypeOf i = TypeDelete) (items s)))"

definition mem_ListReadDesires :: "string \<Rightarrow> Store \<Rightarrow> ReadDesire list result" where
  "mem_ListReadDesires mc s =
     Inr (map (\<lambda>(i, r). projectReadDesire r)
       (filter (\<lambda>(i, r). ManagementCluster i = mc \<and> DesireTypeOf i = TypeRead) (items s)))"

text \<open>Go allows the deletion of the entry a map iteration is at; every entry is visited once.\<close>

definition mem_DeleteByPrefix :: "string \<Rightarrow> PrefixSelector \<Rightarrow> Store \<Rightarrow> unit result \<times> Store" where
  "mem_DeleteByPrefix mc sel s =
     (Inr (), s\<lparr>items := filter (\<lambda>(i, r). \<not> (ManagementCluster i = mc \<and> Matches sel i)) (items s)\<rparr>)"

definition mem_UpdateApplyDesireStatus ::
  "Identity \<Rightarrow> Status \<Rightarrow> int64 \<Rightarrow> Store \<Rightarrow> ApplyDesire result \<times> Store" where
  "mem_UpdateApplyDesireStatus i status version s =
     (if DesireTypeOf i \<noteq> TypeApply then (Inl ErrNotFound, s)
      else case lookup_item s i of
        None \<Rightarrow> (Inl ErrNotFound, s)
      | Some r \<Rightarrow>
        if rec_Apply r = None then (Inl ErrNotFound, s)
        else if rec_Version r \<noteq> version then (Inl ErrVersionConflict, s)
        else let r1 = r\<lparr>rec_Status := CloneStatus status, rec_Version := rec_Version r + 1\<rparr>
             in (Inr (projectApplyDesire r1), put_item i r1 s))"

definition mem_UpdateDeleteDesireStatus ::
  "Identity \<Rightarrow> Status \<Rightarrow> int64 \<Rightarrow> Store \<Rightarrow> DeleteDesire result \<times> Store" where
  "mem_UpdateDeleteDesireStatus i status version s =
     (if DesireTypeOf i \<noteq> TypeDelete then (Inl ErrNotFound, s)
      else case lookup_item s i of
        None \<Rightarrow> (Inl ErrNotFound, s)
      | Some r \<Rightarrow>
        if rec_Version r \<noteq> version then (Inl ErrVersionConflict, s)
        else let r1 = r\<lparr>rec_Status := CloneStatus status, rec_Version := rec_Version r + 1\<rparr>
             in (Inr (projectDeleteDesire r1), put_item i r1 s))"

definition mem_UpdateReadDesireStatus ::
  "Identity \<Rightarrow> ReadStatus \<Rightarrow> Store \<Rightarrow> ReadDesire result \<times> Store" where
  "mem_UpdateReadDesireStatus i status s =
     (if DesireTypeOf i \<noteq> TypeRead then (Inl ErrNotFound, s)
      else case lookup_item s i of
        None \<Rightarrow> (Inl ErrNotFound, s)
      | Some r \<Rightarrow>
        let r1 = r\<lparr>rec_ReadStatus := CloneReadStatus status\<rparr>
        in (Inr (projectReadDesire r1), put_item i r1 s))"

section \<open>Facts about the map\<close>

lemma lookup_put [simp]: "lookup_item (put_item i r s) = (lookup_item s)(i \<mapsto> r)"
  by (simp add: put_item_def update_conv' fun_eq_iff)

lemma lookup_delete [simp]: "lookup_item (delete_item i s) = (lookup_item s)(i := None)"
  by (simp add: delete_item_def delete_conv' fun_eq_iff)

lemma CheckOwner_cases:
  "CheckOwner a b n = (if a = b then (None, n) else (Some ErrOwnerConflict, n + 1))"
  by (simp add: CheckOwner_def ReportOwnerConflict_def)

lemma mem_CheckOwner_cases:
  "mem_CheckOwner a b s =
     (if a = b then (None, s)
      else (Some ErrOwnerConflict, s\<lparr>ownerConflictTotal := ownerConflictTotal s + 1\<rparr>))"
  by (simp add: mem_CheckOwner_def CheckOwner_cases)

text \<open>With one owner for each target the owner found first is the owner of the target's state.\<close>

lemma mem_targetOwner_state:
  "mem_targetOwner i s = map_option ts_Owner (target_state_of (lookup_item s) i)"
  by (auto simp: mem_targetOwner_def AllTypes_def target_state_of_def state_of_def
      split: option.splits)

lemma mem_checkTargetOwner_state:
  "mem_checkTargetOwner i owner s =
     (case target_state_of (lookup_item s) i of
        None \<Rightarrow> (None, s)
      | Some t \<Rightarrow> mem_CheckOwner (ts_Owner t) owner s)"
  by (simp add: mem_checkTargetOwner_def mem_targetOwner_state split: option.splits)

section \<open>The invariant\<close>

definition mem_inv :: "dns_api \<Rightarrow> Store \<Rightarrow> bool" where
  "mem_inv v s \<longleftrightarrow> distinct (map fst (items s)) \<and> wf_map v (lookup_item s)"

section \<open>Every operation implements the machine\<close>

lemmas mem_defs = mem_checkTargetOwner_state mem_CheckOwner_cases Let_def
  implements_def target_state_upd target_state_unfold entry_defs spec_op_defs
  zero_record_def zero_Status_def zero_ReadStatus_def InitialGeneration_def

lemma mem_create_apply_implements:
  assumes wf: "wf_map v (lookup_item s)" and val: "ApplyDesire_Validate v d = None"
    and out: "mem_CreateApplyDesire v fnd d s = (r, s')"
  shows "implements (spec_create_apply fnd d) (ad_Identity d) (lookup_item s) r (lookup_item s')"
proof (cases "lookup_item s (ad_Identity d)")
  case None
  show ?thesis
    using out val ApplyDesire_Validate_type [OF val] None
    by (cases "lookup_item s (sibling (ad_Identity d) TypeDelete)";
        cases "lookup_item s (sibling (ad_Identity d) TypeRead)")
       (auto simp: mem_CreateApplyDesire_def new_apply_record_def mem_defs split: if_splits)
next
  case (Some q)
  note t = ApplyDesire_Validate_type [OF val]
  obtain sp where "rec_Apply q = Some sp" using wf_apply_record [OF wf t Some] by blast
  with wf_apply_excl [OF wf t Some] out val t Some show ?thesis
    by (auto simp: mem_CreateApplyDesire_def new_apply_record_def mem_defs split: if_splits)
qed

lemma mem_create_delete_implements:
  assumes wf: "wf_map v (lookup_item s)" and val: "DeleteDesire_Validate v d = None"
    and out: "mem_CreateDeleteDesire v d s = (r, s')"
  shows "implements (spec_create_delete d) (dd_Identity d) (lookup_item s) r (lookup_item s')"
proof (cases "lookup_item s (dd_Identity d)")
  case None
  show ?thesis
    using out val DeleteDesire_Validate_type [OF val] None
       wf_sibling_apply_record [OF wf, of "dd_Identity d"]
    by (cases "lookup_item s (sibling (dd_Identity d) TypeApply)";
        cases "lookup_item s (sibling (dd_Identity d) TypeRead)")
       (auto simp: mem_CreateDeleteDesire_def new_delete_record_def mem_defs split: if_splits)
next
  case (Some q)
  note t = DeleteDesire_Validate_type [OF val]
  with wf_delete_excl [OF wf t Some] out val t Some show ?thesis
    by (auto simp: mem_CreateDeleteDesire_def new_delete_record_def mem_defs split: if_splits)
qed

lemma mem_create_read_implements:
  assumes wf: "wf_map v (lookup_item s)" and val: "ReadDesire_Validate v d = None"
    and out: "mem_CreateReadDesire v d s = (r, s')"
  shows "implements (spec_create_read d) (rd_Identity d) (lookup_item s) r (lookup_item s')"
  using out val ReadDesire_Validate_type [OF val]
  by (cases "lookup_item s (rd_Identity d)"; cases "lookup_item s (sibling (rd_Identity d) TypeApply)";
      cases "lookup_item s (sibling (rd_Identity d) TypeDelete)")
     (auto simp: mem_CreateReadDesire_def new_read_record_def mem_defs split: if_splits)

lemma mem_update_spec_implements:
  assumes wf: "wf_map v (lookup_item s)" and t: "DesireTypeOf i = TypeApply"
    and val: "ApplySpec_Validate spec = None"
    and out: "mem_UpdateApplyDesireSpec i spec owner version s = (r, s')"
  shows "implements (spec_update_spec spec owner version) i (lookup_item s) r (lookup_item s')"
proof (cases "lookup_item s i")
  case None
  with out t val show ?thesis
    by (auto simp: mem_UpdateApplyDesireSpec_def mem_defs split: option.splits)
next
  case (Some q)
  obtain sp where "rec_Apply q = Some sp" using wf_apply_record [OF wf t Some] by blast
  with wf_apply_excl [OF wf t Some] out t val Some show ?thesis
    by (auto simp: mem_UpdateApplyDesireSpec_def mem_defs split: if_splits)
qed

lemma mem_apply_status_implements:
  assumes wf: "wf_map v (lookup_item s)" and t: "DesireTypeOf i = TypeApply"
    and out: "mem_UpdateApplyDesireStatus i status version s = (r, s')"
  shows "implements (spec_apply_status status version) i (lookup_item s) r (lookup_item s')"
proof (cases "lookup_item s i")
  case None
  with out t show ?thesis
    by (auto simp: mem_UpdateApplyDesireStatus_def mem_defs split: option.splits)
next
  case (Some q)
  obtain sp where "rec_Apply q = Some sp" using wf_apply_record [OF wf t Some] by blast
  with wf_apply_excl [OF wf t Some] out t Some show ?thesis
    by (auto simp: mem_UpdateApplyDesireStatus_def mem_defs split: if_splits)
qed

lemma mem_delete_apply_implements:
  assumes wf: "wf_map v (lookup_item s)" and t: "DesireTypeOf i = TypeApply"
    and out: "mem_DeleteApplyDesire i owner version s = (r, s')"
  shows "implements (spec_delete_apply owner version) i (lookup_item s) r (lookup_item s')"
proof (cases "lookup_item s i")
  case None
  with out t show ?thesis
    by (auto simp: mem_DeleteApplyDesire_def mem_defs split: option.splits)
next
  case (Some q)
  obtain sp where "rec_Apply q = Some sp" using wf_apply_record [OF wf t Some] by blast
  with wf_apply_excl [OF wf t Some] out t Some wf_sibling_owner [OF wf _ Some] show ?thesis
    by (auto simp: mem_DeleteApplyDesire_def mem_defs split: if_splits option.splits)
qed

lemma mem_delete_status_implements:
  assumes wf: "wf_map v (lookup_item s)" and t: "DesireTypeOf i = TypeDelete"
    and out: "mem_UpdateDeleteDesireStatus i status version s = (r, s')"
  shows "implements (spec_delete_status status version) i (lookup_item s) r (lookup_item s')"
proof (cases "lookup_item s i")
  case None
  with out t show ?thesis
    by (auto simp: mem_UpdateDeleteDesireStatus_def mem_defs split: option.splits)
next
  case (Some q)
  with wf_delete_excl [OF wf t Some] out t show ?thesis
    by (auto simp: mem_UpdateDeleteDesireStatus_def mem_defs split: if_splits)
qed

lemma mem_delete_delete_implements:
  assumes wf: "wf_map v (lookup_item s)" and t: "DesireTypeOf i = TypeDelete"
    and out: "mem_DeleteDeleteDesire i owner version s = (r, s')"
  shows "implements (spec_delete_delete owner version) i (lookup_item s) r (lookup_item s')"
proof (cases "lookup_item s i")
  case None
  with out t show ?thesis
    by (auto simp: mem_DeleteDeleteDesire_def mem_defs split: option.splits)
next
  case (Some q)
  with wf_delete_excl [OF wf t Some] out t wf_sibling_owner [OF wf _ Some] show ?thesis
    by (auto simp: mem_DeleteDeleteDesire_def mem_defs split: if_splits option.splits)
qed

lemma mem_read_status_implements:
  assumes wf: "wf_map v (lookup_item s)" and t: "DesireTypeOf i = TypeRead"
    and out: "mem_UpdateReadDesireStatus i status s = (r, s')"
  shows "implements (spec_read_status status) i (lookup_item s) r (lookup_item s')"
proof (cases "lookup_item s i")
  case None
  with out t show ?thesis
    by (auto simp: mem_UpdateReadDesireStatus_def mem_defs split: option.splits)
next
  case (Some q)
  with out t wf_sibling_owner [OF wf _ Some] show ?thesis
    by (auto simp: mem_UpdateReadDesireStatus_def mem_defs split: option.splits)
qed

lemma mem_delete_read_implements:
  assumes wf: "wf_map v (lookup_item s)" and t: "DesireTypeOf i = TypeRead"
    and out: "mem_DeleteReadDesire i owner version s = (r, s')"
  shows "implements (spec_delete_read owner version) i (lookup_item s) r (lookup_item s')"
proof (cases "lookup_item s i")
  case None
  with out t show ?thesis
    by (auto simp: mem_DeleteReadDesire_def mem_defs split: option.splits)
next
  case (Some q)
  note own = wf_sibling_owner [OF wf _ Some] wf_sibling_apply_record [OF wf, of i]
  show ?thesis
    using out t Some own
    by (cases "lookup_item s (sibling i TypeApply)"; cases "lookup_item s (sibling i TypeDelete)")
      (auto simp: mem_DeleteReadDesire_def mem_defs split: if_splits)
qed

section \<open>The invariant is kept\<close>

lemma mem_inv_counter [simp]: "mem_inv v (s\<lparr>ownerConflictTotal := n\<rparr>) = mem_inv v s"
  by (simp add: mem_inv_def)

lemma mem_inv_delete_item: "mem_inv v s \<Longrightarrow> mem_inv v (delete_item i s)"
  unfolding mem_inv_def lookup_delete by (simp add: wf_map_delete delete_item_def distinct_delete)

lemma mem_inv_put_item:
  "distinct (map fst (items s)) \<Longrightarrow> wf_map v ((lookup_item s)(i \<mapsto> r)) \<Longrightarrow> mem_inv v (put_item i r s)"
  unfolding mem_inv_def lookup_put by (simp add: put_item_def distinct_update)

lemma mem_inv_rewrite:
  assumes "mem_inv v s" "lookup_item s i = Some r" "record_ok v i r'" "rec_Owner r' = rec_Owner r"
  shows "mem_inv v (put_item i r' s)"
  using assms wf_map_update [of v "lookup_item s" i r r']
  by (intro mem_inv_put_item) (simp_all add: mem_inv_def)

lemma mem_inv_record_ok: "mem_inv v s \<Longrightarrow> lookup_item s i = Some r \<Longrightarrow> record_ok v i r"
  unfolding mem_inv_def by (blast intro: wf_mapD(1))

text \<open>Creating a record behind the owner check, in a store that lost no other record but \<open>k\<close>.\<close>

lemma mem_inv_create:
  assumes inv: "mem_inv v s" and ok: "record_ok v i r"
    and own: "owner_agrees (rec_Owner r) (target_state_of (lookup_item s) i)"
    and s': "s' = s \<or> s' = delete_item k s"
    and "DesireTypeOf i = TypeApply \<Longrightarrow> lookup_item s' (sibling i TypeDelete) = None"
    and "DesireTypeOf i = TypeDelete \<Longrightarrow> lookup_item s' (sibling i TypeApply) = None"
  shows "mem_inv v (put_item i r s')"
proof (rule mem_inv_put_item)
  show "distinct (map fst (items s'))"
    using inv s' by (auto simp: mem_inv_def delete_item_def distinct_delete)
  have "lookup_item s' j = Some q \<Longrightarrow> lookup_item s j = Some q" for j q
    using s' by (auto simp: lookup_delete simp del: map_of_eq_Some_iff split: if_splits)
  with assms show "wf_map v ((lookup_item s')(i \<mapsto> r))"
    by (intro wf_map_create [OF _ ok own]) (auto simp: mem_inv_def)
qed

lemma mem_inv_create_apply:
  assumes inv: "mem_inv v s" shows "mem_inv v (snd (mem_CreateApplyDesire v fnd d s))"
proof (cases "ApplyDesire_Validate v d")
  case None
  note t = ApplyDesire_Validate_type [OF None]
  note create = mem_inv_create [OF inv validated_record_ok(1) [OF None], of _ "sibling (ad_Identity d) TypeDelete"]
  show ?thesis
    using None inv t
    by (auto simp: mem_CreateApplyDesire_def mem_checkTargetOwner_state mem_CheckOwner_cases Let_def
          owner_agrees_def mem_inv_delete_item simp del: map_of_eq_Some_iff map_of_eq_None_iff intro!: create split: option.splits)
qed (simp add: mem_CreateApplyDesire_def inv)

lemma mem_inv_create_delete:
  assumes inv: "mem_inv v s" shows "mem_inv v (snd (mem_CreateDeleteDesire v d s))"
proof (cases "DeleteDesire_Validate v d")
  case None
  note t = DeleteDesire_Validate_type [OF None]
  note create = mem_inv_create [OF inv validated_record_ok(2) [OF None], of _ "sibling (dd_Identity d) TypeApply"]
  show ?thesis
    using None inv t
    by (auto simp: mem_CreateDeleteDesire_def mem_checkTargetOwner_state mem_CheckOwner_cases Let_def
          owner_agrees_def  simp del: map_of_eq_Some_iff map_of_eq_None_iff intro!: create split: option.splits)
qed (simp add: mem_CreateDeleteDesire_def inv)

lemma mem_inv_create_read:
  assumes inv: "mem_inv v s" shows "mem_inv v (snd (mem_CreateReadDesire v d s))"
proof (cases "ReadDesire_Validate v d")
  case None
  note t = ReadDesire_Validate_type [OF None]
  note create = mem_inv_create [OF inv validated_record_ok(3) [OF None]]
  show ?thesis
    using None inv t
    by (auto simp: mem_CreateReadDesire_def mem_checkTargetOwner_state mem_CheckOwner_cases Let_def
          owner_agrees_def  simp del: map_of_eq_Some_iff map_of_eq_None_iff intro!: create split: option.splits)
qed (simp add: mem_CreateReadDesire_def inv)

lemma mem_inv_update_spec:
  assumes inv: "mem_inv v s"
  shows "mem_inv v (snd (mem_UpdateApplyDesireSpec i spec owner version s))"
  using inv mem_inv_record_ok [OF inv, of i]
  by (auto simp: mem_UpdateApplyDesireSpec_def mem_CheckOwner_cases Let_def record_ok_def
      simp del: map_of_eq_Some_iff intro!: mem_inv_rewrite split: option.splits)

lemma mem_inv_status:
  assumes inv: "mem_inv v s"
  shows "mem_inv v (snd (mem_UpdateApplyDesireStatus i status version s))"
    and "mem_inv v (snd (mem_UpdateDeleteDesireStatus i status version s))"
    and "mem_inv v (snd (mem_UpdateReadDesireStatus i rstatus s))"
  using inv mem_inv_record_ok [OF inv, of i]
  by (auto simp: mem_UpdateApplyDesireStatus_def mem_UpdateDeleteDesireStatus_def
      mem_UpdateReadDesireStatus_def Let_def record_ok_def simp del: map_of_eq_Some_iff
      intro!: mem_inv_rewrite split: option.splits)

lemma mem_inv_delete:
  "mem_inv v s \<Longrightarrow> mem_inv v (snd (mem_DeleteApplyDesire i owner version s))"
  "mem_inv v s \<Longrightarrow> mem_inv v (snd (mem_DeleteDeleteDesire i owner version s))"
  "mem_inv v s \<Longrightarrow> mem_inv v (snd (mem_DeleteReadDesire i owner version s))"
  by (auto simp: mem_DeleteApplyDesire_def mem_DeleteDeleteDesire_def mem_DeleteReadDesire_def
      mem_CheckOwner_cases mem_inv_delete_item split: option.splits)

lemma lookup_filter_items:
  "distinct (map fst xs) \<Longrightarrow>
   map_of (filter (\<lambda>(i, r). P i) xs) j = (if P j then map_of xs j else None)"
  by (induction xs) (auto simp: map_of_eq_None_iff)

lemma mem_inv_delete_by_prefix:
  "mem_inv v s \<Longrightarrow> mem_inv v (snd (mem_DeleteByPrefix mc sel s))"
  by (auto simp: mem_inv_def mem_DeleteByPrefix_def distinct_map_filter
      lookup_filter_items [where P = "\<lambda>i. \<not> (ManagementCluster i = mc \<and> Matches sel i)", simplified]
      simp del: map_of_eq_Some_iff elim!: wf_map_restrict split: if_splits)

section \<open>Reading and listing\<close>

lemma mem_get_apply_iff:
  assumes "mem_inv v s"
  shows "mem_GetApplyDesire i s = Inr d \<longleftrightarrow>
     DesireTypeOf i = TypeApply \<and> (\<exists>r. lookup_item s i = Some r \<and> d = projectApplyDesire r)"
  using mem_inv_record_ok [OF assms, of i]
  by (auto simp: mem_GetApplyDesire_def record_ok_def simp del: map_of_eq_Some_iff
      split: option.splits)

lemma mem_get_delete_iff:
  "mem_GetDeleteDesire i s = Inr d \<longleftrightarrow>
     DesireTypeOf i = TypeDelete \<and> (\<exists>r. lookup_item s i = Some r \<and> d = projectDeleteDesire r)"
  by (auto simp: mem_GetDeleteDesire_def split: option.splits)

lemma mem_get_read_iff:
  "mem_GetReadDesire i s = Inr d \<longleftrightarrow>
     DesireTypeOf i = TypeRead \<and> (\<exists>r. lookup_item s i = Some r \<and> d = projectReadDesire r)"
  by (auto simp: mem_GetReadDesire_def split: option.splits)

lemma mem_get_missing:
  "mem_GetApplyDesire i s = Inl e \<Longrightarrow> e = ErrNotFound"
  "mem_GetDeleteDesire i s = Inl e \<Longrightarrow> e = ErrNotFound"
  "mem_GetReadDesire i s = Inl e \<Longrightarrow> e = ErrNotFound"
  by (auto simp: mem_GetApplyDesire_def mem_GetDeleteDesire_def mem_GetReadDesire_def
      split: option.splits if_splits)

text \<open>A listing of an association list: what it holds, and that it holds it once.\<close>

lemma listing:
  assumes dist: "distinct (map fst xs)" and id: "\<And>i r. (i, r) \<in> set xs \<Longrightarrow> P i \<Longrightarrow> f (proj r) = i"
  defines "ds \<equiv> map (\<lambda>(i, r). proj r) (filter (\<lambda>(i, r). P i) xs)"
  shows "distinct (map f ds)"
    and "d \<in> set ds \<longleftrightarrow> P (f d) \<and> (\<exists>r. map_of xs (f d) = Some r \<and> d = proj r)"
proof -
  have "map f ds = map fst (filter (\<lambda>(i, r). P i) xs)"
    using id by (auto simp: ds_def)
  then show "distinct (map f ds)" using dist by (simp add: distinct_map_filter)
  show "d \<in> set ds \<longleftrightarrow> P (f d) \<and> (\<exists>r. map_of xs (f d) = Some r \<and> d = proj r)"
    using dist id by (force simp: ds_def)
qed

lemma mem_items_ident:
  assumes inv: "mem_inv v s" and "(i, r) \<in> set (items s)"
  shows "rec_Identity r = i" and "DesireTypeOf i = TypeApply \<Longrightarrow> ad_Identity (projectApplyDesire r) = i"
proof -
  have ok: "record_ok v i r"
    using inv assms(2) by (intro mem_inv_record_ok [OF inv]) (simp add: mem_inv_def)
  then show "rec_Identity r = i" by (simp add: record_ok_def)
  show "DesireTypeOf i = TypeApply \<Longrightarrow> ad_Identity (projectApplyDesire r) = i"
    using ok by (auto simp: record_ok_def split: option.splits)
qed

lemma mem_list_apply:
  assumes inv: "mem_inv v s"
  shows "\<exists>ds. mem_ListApplyDesires mc s = Inr ds \<and> distinct (map ad_Identity ds) \<and>
    (\<forall>d. d \<in> set ds \<longleftrightarrow>
       ManagementCluster (ad_Identity d) = mc \<and> mem_GetApplyDesire (ad_Identity d) s = Inr d)"
  using inv mem_items_ident(2) [OF inv]
    listing [of "items s" "\<lambda>i. ManagementCluster i = mc \<and> DesireTypeOf i = TypeApply" ad_Identity
      projectApplyDesire]
  by (auto simp: mem_ListApplyDesires_def mem_get_apply_iff [OF inv] mem_inv_def simp del: set_map set_filter map_map map_of_eq_Some_iff)

lemma mem_list_delete:
  assumes inv: "mem_inv v s"
  shows "\<exists>ds. mem_ListDeleteDesires mc s = Inr ds \<and> distinct (map dd_Identity ds) \<and>
    (\<forall>d. d \<in> set ds \<longleftrightarrow>
       ManagementCluster (dd_Identity d) = mc \<and> mem_GetDeleteDesire (dd_Identity d) s = Inr d)"
  using inv mem_items_ident(1) [OF inv]
    listing [of "items s" "\<lambda>i. ManagementCluster i = mc \<and> DesireTypeOf i = TypeDelete" dd_Identity
      projectDeleteDesire]
  by (auto simp: mem_ListDeleteDesires_def mem_get_delete_iff mem_inv_def simp del: set_map set_filter map_map map_of_eq_Some_iff)

lemma mem_list_read:
  assumes inv: "mem_inv v s"
  shows "\<exists>ds. mem_ListReadDesires mc s = Inr ds \<and> distinct (map rd_Identity ds) \<and>
    (\<forall>d. d \<in> set ds \<longleftrightarrow>
       ManagementCluster (rd_Identity d) = mc \<and> mem_GetReadDesire (rd_Identity d) s = Inr d)"
  using inv mem_items_ident(1) [OF inv]
    listing [of "items s" "\<lambda>i. ManagementCluster i = mc \<and> DesireTypeOf i = TypeRead" rd_Identity
      projectReadDesire]
  by (auto simp: mem_ListReadDesires_def mem_get_read_iff mem_inv_def simp del: set_map set_filter map_map map_of_eq_Some_iff)

section \<open>The store behind the controllers' interface\<close>

interpretation mem_apply: status_store mem_ListApplyDesires mem_GetApplyDesire
  mem_UpdateApplyDesireStatus ad_Identity ad_Status ad_Generation ad_Version "mem_inv v" for v
proof unfold_locales
  fix s i d e n st
  assume inv: "mem_inv v s"
  note ok = mem_inv_record_ok [OF inv, of i]
  note get = mem_get_apply_iff [OF inv]
  show "mem_GetApplyDesire i s = Inr d \<Longrightarrow> ad_Identity d = i"
    using ok by (auto simp: get record_ok_def simp del: map_of_eq_Some_iff split: option.splits)
  show "mem_GetApplyDesire i s = Inl e \<Longrightarrow> e = ErrNotFound"
    by (rule mem_get_missing)
  show "mem_GetApplyDesire i s = Inl e \<Longrightarrow> mem_UpdateApplyDesireStatus i st n s = (Inl ErrNotFound, s)"
    by (auto simp: mem_GetApplyDesire_def mem_UpdateApplyDesireStatus_def split: option.splits if_splits)
  show "mem_GetApplyDesire i s = Inr d \<Longrightarrow> ad_Version d \<noteq> n \<Longrightarrow>
      mem_UpdateApplyDesireStatus i st n s = (Inl ErrVersionConflict, s)"
    by (auto simp: mem_GetApplyDesire_def mem_UpdateApplyDesireStatus_def split: option.splits if_splits)
  show "\<exists>d' s'. mem_UpdateApplyDesireStatus i st n s = (Inr d', s') \<and> mem_GetApplyDesire i s' = Inr d' \<and>
      mem_inv v s' \<and> ad_Status d' = st \<and> ad_Generation d' = ad_Generation d \<and> ad_Version d' = n + 1 \<and>
      (\<forall>j. j \<noteq> i \<longrightarrow> mem_GetApplyDesire j s' = mem_GetApplyDesire j s)"
    if cur: "mem_GetApplyDesire i s = Inr d" "ad_Version d = n"
  proof -
    obtain r sp where r: "DesireTypeOf i = TypeApply" "lookup_item s i = Some r"
      "d = projectApplyDesire r" "rec_Apply r = Some sp"
      using cur ok by (auto simp: get record_ok_def simp del: map_of_eq_Some_iff split: option.splits)
    let ?r = "r\<lparr>rec_Status := st, rec_Version := rec_Version r + 1\<rparr>"
    have "mem_UpdateApplyDesireStatus i st n s = (Inr (projectApplyDesire ?r), put_item i ?r s)"
      using r cur(2) by (simp add: mem_UpdateApplyDesireStatus_def Let_def)
    then show ?thesis
      using r cur(2) mem_inv_status(1) [OF inv, of i st n]
      by (simp add: mem_GetApplyDesire_def del: map_of_eq_Some_iff)
  qed
qed (rule mem_list_apply)

interpretation mem_delete: status_store mem_ListDeleteDesires mem_GetDeleteDesire
  mem_UpdateDeleteDesireStatus dd_Identity dd_Status dd_Generation dd_Version "mem_inv v" for v
proof unfold_locales
  fix s i d e n st
  assume inv: "mem_inv v s"
  note ok = mem_inv_record_ok [OF inv, of i]
  show "mem_GetDeleteDesire i s = Inr d \<Longrightarrow> dd_Identity d = i"
    using ok by (auto simp: mem_get_delete_iff record_ok_def simp del: map_of_eq_Some_iff)
  show "mem_GetDeleteDesire i s = Inl e \<Longrightarrow> e = ErrNotFound"
    by (rule mem_get_missing)
  show "mem_GetDeleteDesire i s = Inl e \<Longrightarrow> mem_UpdateDeleteDesireStatus i st n s = (Inl ErrNotFound, s)"
    by (auto simp: mem_GetDeleteDesire_def mem_UpdateDeleteDesireStatus_def split: option.splits if_splits)
  show "mem_GetDeleteDesire i s = Inr d \<Longrightarrow> dd_Version d \<noteq> n \<Longrightarrow>
      mem_UpdateDeleteDesireStatus i st n s = (Inl ErrVersionConflict, s)"
    by (auto simp: mem_GetDeleteDesire_def mem_UpdateDeleteDesireStatus_def split: option.splits if_splits)
  show "\<exists>d' s'. mem_UpdateDeleteDesireStatus i st n s = (Inr d', s') \<and> mem_GetDeleteDesire i s' = Inr d' \<and>
      mem_inv v s' \<and> dd_Status d' = st \<and> dd_Generation d' = dd_Generation d \<and> dd_Version d' = n + 1 \<and>
      (\<forall>j. j \<noteq> i \<longrightarrow> mem_GetDeleteDesire j s' = mem_GetDeleteDesire j s)"
    if cur: "mem_GetDeleteDesire i s = Inr d" "dd_Version d = n"
  proof -
    obtain r where r: "DesireTypeOf i = TypeDelete" "lookup_item s i = Some r" "d = projectDeleteDesire r"
      using cur by (auto simp: mem_get_delete_iff simp del: map_of_eq_Some_iff)
    let ?r = "r\<lparr>rec_Status := st, rec_Version := rec_Version r + 1\<rparr>"
    have "mem_UpdateDeleteDesireStatus i st n s = (Inr (projectDeleteDesire ?r), put_item i ?r s)"
      using r cur(2) by (simp add: mem_UpdateDeleteDesireStatus_def Let_def)
    then show ?thesis
      using r cur(2) mem_inv_status(2) [OF inv, of i st n]
      by (simp add: mem_GetDeleteDesire_def del: map_of_eq_Some_iff)
  qed
qed (rule mem_list_delete)

lemma lookup_delete_by_prefix:
  assumes "mem_inv v s"
  shows "lookup_item (snd (mem_DeleteByPrefix mc sel s)) i =
     (if ManagementCluster i = mc \<and> Matches sel i then None else lookup_item s i)"
proof -
  have "lookup_item (snd (mem_DeleteByPrefix mc sel s)) i =
      map_of (filter (\<lambda>(i, r). \<not> (ManagementCluster i = mc \<and> Matches sel i)) (items s)) i"
    by (simp add: mem_DeleteByPrefix_def)
  also have "\<dots> = (if \<not> (ManagementCluster i = mc \<and> Matches sel i) then lookup_item s i else None)"
    using assms by (intro lookup_filter_items) (simp add: mem_inv_def)
  finally show ?thesis by simp
qed

section \<open>Runs of the store\<close>

datatype store_op =
    OpCreateApply ApplyDesire
  | OpUpdateSpec Identity ApplySpec string int64
  | OpDeleteApply Identity string int64
  | OpCreateDelete DeleteDesire
  | OpDeleteDelete Identity string int64
  | OpCreateRead ReadDesire
  | OpDeleteRead Identity string int64
  | OpDeleteByPrefix string PrefixSelector
  | OpApplyStatus Identity Status int64
  | OpDeleteStatus Identity Status int64
  | OpReadStatus Identity ReadStatus

fun mem_step :: "dns_api \<Rightarrow> find_fn \<Rightarrow> store_op \<Rightarrow> Store \<Rightarrow> Store" where
  "mem_step v fnd (OpCreateApply d) s = snd (mem_CreateApplyDesire v fnd d s)"
| "mem_step v fnd (OpUpdateSpec i spec owner n) s = snd (mem_UpdateApplyDesireSpec i spec owner n s)"
| "mem_step v fnd (OpDeleteApply i owner n) s = snd (mem_DeleteApplyDesire i owner n s)"
| "mem_step v fnd (OpCreateDelete d) s = snd (mem_CreateDeleteDesire v d s)"
| "mem_step v fnd (OpDeleteDelete i owner n) s = snd (mem_DeleteDeleteDesire i owner n s)"
| "mem_step v fnd (OpCreateRead d) s = snd (mem_CreateReadDesire v d s)"
| "mem_step v fnd (OpDeleteRead i owner n) s = snd (mem_DeleteReadDesire i owner n s)"
| "mem_step v fnd (OpDeleteByPrefix mc sel) s = snd (mem_DeleteByPrefix mc sel s)"
| "mem_step v fnd (OpApplyStatus i st n) s = snd (mem_UpdateApplyDesireStatus i st n s)"
| "mem_step v fnd (OpDeleteStatus i st n) s = snd (mem_UpdateDeleteDesireStatus i st n s)"
| "mem_step v fnd (OpReadStatus i st) s = snd (mem_UpdateReadDesireStatus i st s)"

text \<open>The stores reached from a new one by a number of operations, in any order.\<close>

inductive mem_reach :: "dns_api \<Rightarrow> find_fn \<Rightarrow> nat \<Rightarrow> Store \<Rightarrow> bool" for v fnd where
  start: "mem_reach v fnd 0 (mem_New c)"
| step: "mem_reach v fnd n s \<Longrightarrow> mem_reach v fnd (Suc n) (mem_step v fnd op s)"

lemma mem_inv_New: "mem_inv v (mem_New c)"
  by (simp add: mem_inv_def mem_New_def wf_map_empty)

lemma mem_inv_step: "mem_inv v s \<Longrightarrow> mem_inv v (mem_step v fnd op s)"
  by (cases op) (simp_all add: mem_inv_create_apply mem_inv_create_delete mem_inv_create_read
      mem_inv_update_spec mem_inv_status mem_inv_delete mem_inv_delete_by_prefix)

lemma mem_reach_inv: "mem_reach v fnd n s \<Longrightarrow> mem_inv v s"
  by (induction rule: mem_reach.induct) (simp_all add: mem_inv_New mem_inv_step)

section \<open>How a record changes\<close>

text \<open>
  A record that is there after an operation is new, with generation and version 1, or it is the
  record that was there before with a bumped version, or with another mirrored status; its
  generation moves exactly when the JSON value of its spec does.
\<close>

definition spec_changed :: "resourceRecord \<Rightarrow> resourceRecord \<Rightarrow> bool" where
  "spec_changed r r' \<longleftrightarrow>
     (case (rec_Apply r, rec_Apply r') of
        (Some a, Some b) \<Rightarrow> \<not> speccompare_Equal a b
      | _ \<Rightarrow> False)"

definition evolved :: "resourceRecord option \<Rightarrow> resourceRecord \<Rightarrow> bool" where
  "evolved old r' \<longleftrightarrow>
     (case old of
        None \<Rightarrow> rec_Generation r' = 1 \<and> rec_Version r' = 1 \<and> Conditions (rec_Status r') = []
      | Some r \<Rightarrow>
          rec_Owner r' = rec_Owner r \<and> rec_OriginID r' = rec_OriginID r \<and>
          rec_Generation r' = (if spec_changed r r' then rec_Generation r + 1 else rec_Generation r) \<and>
          (rec_Version r' = rec_Version r + 1 \<or> (\<exists>st. r' = r\<lparr>rec_ReadStatus := st\<rparr>)))"

lemma evolved_same:
  assumes "record_ok v i r" shows "evolved (Some r) r"
proof -
  have "\<exists>st. r = r\<lparr>rec_ReadStatus := st\<rparr>" by (intro exI [of _ "rec_ReadStatus r"]) simp
  moreover have "\<not> spec_changed r r"
    using assms by (auto simp: spec_changed_def record_ok_def speccompare_Equal_def ApplySpec_Validate_def
        split: option.splits if_splits)
  ultimately show ?thesis unfolding evolved_def by auto
qed

lemma evolved_status:
  assumes "record_ok v i r"
  shows "evolved (Some r) (r\<lparr>rec_Status := st, rec_Version := rec_Version r + 1\<rparr>)"
    and "evolved (Some r) (r\<lparr>rec_ReadStatus := rst\<rparr>)"
  using evolved_same [OF assms] by (auto simp: evolved_def spec_changed_def)

lemma evolved_spec:
  assumes "rec_Apply r = Some old"
  shows "evolved (Some r) (r\<lparr>rec_Generation := (if speccompare_Equal old new then rec_Generation r else rec_Generation r + 1),
     rec_Apply := Some new, rec_Version := rec_Version r + 1\<rparr>)"
  using assms by (simp add: evolved_def spec_changed_def)

lemma evolved_new:
  "evolved None (new_apply_record d)" "evolved None (new_delete_record e)" "evolved None (new_read_record g)"
  by (simp_all add: evolved_def zero_Status_def new_read_record_def zero_record_def InitialGeneration_def)

lemma mem_step_evolved:
  assumes inv: "mem_inv v s" and new: "lookup_item (mem_step v fnd op s) i = Some r'"
  shows "evolved (lookup_item s i) r'"
proof -
  note ok = mem_inv_record_ok [OF inv]
  have same: "evolved (lookup_item s i) r'" if "lookup_item s i = Some r'"
    using that evolved_same [OF ok [OF that]] by simp
  note d = mem_checkTargetOwner_state mem_CheckOwner_cases Let_def evolved_new
  note sp = option.splits if_splits
  show ?thesis
  proof (cases op)
    case (OpCreateApply x)
    with new same show ?thesis
      using ApplyDesire_Validate_type [of v x]
      by (auto simp: mem_CreateApplyDesire_def d simp del: map_of_eq_Some_iff split: sp)
  next
    case (OpUpdateSpec k spec owner n)
    with new same show ?thesis
      by (auto simp: mem_UpdateApplyDesireSpec_def d evolved_spec simp del: map_of_eq_Some_iff split: sp)
        (simp_all add: evolved_def spec_changed_def)
  next
    case (OpCreateDelete x)
    with new same show ?thesis
      using DeleteDesire_Validate_type [of v x]
      by (auto simp: mem_CreateDeleteDesire_def d simp del: map_of_eq_Some_iff split: sp)
  next
    case (OpCreateRead x)
    with new same show ?thesis
      by (auto simp: mem_CreateReadDesire_def d simp del: map_of_eq_Some_iff split: sp)
  next
    case (OpDeleteByPrefix mc sel)
    with new same inv show ?thesis
      by (simp add: lookup_delete_by_prefix [OF inv] del: map_of_eq_Some_iff split: if_splits)
  next
    case (OpApplyStatus k st n)
    with new same show ?thesis
      by (auto simp: mem_UpdateApplyDesireStatus_def d intro!: evolved_status(1) ok
          simp del: map_of_eq_Some_iff split: sp)
  next
    case (OpDeleteStatus k st n)
    with new same show ?thesis
      by (auto simp: mem_UpdateDeleteDesireStatus_def d intro!: evolved_status(1) ok
          simp del: map_of_eq_Some_iff split: sp)
  next
    case (OpReadStatus k st)
    with new same show ?thesis
      by (auto simp: mem_UpdateReadDesireStatus_def d intro!: evolved_status(2) ok
          simp del: map_of_eq_Some_iff split: sp)
  qed (use new same in \<open>auto simp: d mem_DeleteApplyDesire_def mem_DeleteDeleteDesire_def
      mem_DeleteReadDesire_def simp del: map_of_eq_Some_iff split: sp\<close>)
qed


section \<open>Bounds\<close>

text \<open>
  The counters of every record stay between 1 and one more than the number of operations, as long
  as that number is below the largest \<open>int64\<close>: no counter wraps.
\<close>

definition counters_within :: "nat \<Rightarrow> record_map \<Rightarrow> bool" where
  "counters_within n m \<longleftrightarrow>
     (\<forall>i r. m i = Some r \<longrightarrow>
        1 \<le> unat (rec_Generation r) \<and> unat (rec_Generation r) \<le> unat (rec_Version r) \<and>
        unat (rec_Version r) \<le> Suc n)"

lemma unat_inc: "unat (w :: int64) < 2 ^ 64 - 1 \<Longrightarrow> unat (w + 1) = unat w + 1"
  by (simp add: unat_word_ariths)

lemma evolved_counters:
  assumes ev: "evolved old r'" and bound: "Suc n < 2 ^ 64 - 1"
    and old: "\<And>r. old = Some r \<Longrightarrow> 1 \<le> unat (rec_Generation r) \<and>
        unat (rec_Generation r) \<le> unat (rec_Version r) \<and> unat (rec_Version r) \<le> Suc n"
  shows "1 \<le> unat (rec_Generation r') \<and> unat (rec_Generation r') \<le> unat (rec_Version r') \<and>
         unat (rec_Version r') \<le> Suc (Suc n)"
proof (cases old)
  case None
  with ev show ?thesis by (simp add: evolved_def)
next
  case (Some r)
  have g: "unat (rec_Generation r + 1) = unat (rec_Generation r) + 1"
    and v: "unat (rec_Version r + 1) = unat (rec_Version r) + 1"
    using old [OF Some] bound by (simp_all add: unat_inc)
  show ?thesis
    using ev old [OF Some] Some g v by (auto simp: evolved_def split: if_splits)
qed

lemma mem_reach_counters:
  "mem_reach v fnd n s \<Longrightarrow> n < 2 ^ 63 \<Longrightarrow> counters_within n (lookup_item s)"
proof (induction rule: mem_reach.induct)
  case (start c)
  then show ?case by (simp add: counters_within_def mem_New_def)
next
  case (step n s op)
  then have "counters_within n (lookup_item s)" "mem_inv v s" "Suc n < 2 ^ 64 - 1"
    by (simp_all add: mem_reach_inv)
  then show ?case
    unfolding counters_within_def using evolved_counters mem_step_evolved by (meson)
qed

end
