(* ===== verification/Samples.thy ===== *)
theory Samples
  imports StoreRecord
begin

text \<open>
  Concrete inputs for the witnesses: a DNS name check that follows the rules the validation package
  documents, and small desires that pass validation.
\<close>

definition lower_alnum :: "char \<Rightarrow> bool" where
  "lower_alnum c \<longleftrightarrow> is_digit c \<or> (97 \<le> (of_char c :: nat) \<and> (of_char c :: nat) \<le> 122)"

definition dns_label :: "string \<Rightarrow> bool" where
  "dns_label s \<longleftrightarrow> s \<noteq> [] \<and> length s \<le> 63 \<and> list_all (\<lambda>c. lower_alnum c \<or> c = CHR ''-'') s \<and>
     lower_alnum (hd s) \<and> lower_alnum (last s)"

fun split_dots :: "string \<Rightarrow> string list" where
  "split_dots [] = [[]]"
| "split_dots (c # cs) =
     (case split_dots cs of
        [] \<Rightarrow> [[c]]
      | p # ps \<Rightarrow> if c = CHR ''.'' then [] # p # ps else (c # p) # ps)"

definition sample_dns :: dns_api where
  "sample_dns = \<lparr>
     IsDNS1035Label = (\<lambda>s. if dns_label s \<and> \<not> is_digit (hd s) then [] else [''not a label'']),
     IsDNS1123Label = (\<lambda>s. if dns_label s then [] else [''not a label'']),
     IsDNS1123Subdomain =
       (\<lambda>s. if length s \<le> 253 \<and> list_all dns_label (split_dots s) then [] else [''not a subdomain''])\<rparr>"

definition sample_id :: "DesireType \<Rightarrow> Identity" where
  "sample_id t = \<lparr>ManagementCluster = ''mc1'', DesireTypeOf = t, Group = ''apps'',
     Resource = ''deployments'', Namespace = ''ns'', Name = ''web''\<rparr>"

definition sample_apply :: ApplyDesire where
  "sample_apply = zero_ApplyDesire\<lparr>ad_Identity := sample_id TypeApply, ad_Owner := ''adapter'',
     ad_Spec := \<lparr>KubeContent = ''{}''\<rparr>\<rparr>"

definition sample_delete :: DeleteDesire where
  "sample_delete = \<lparr>dd_Identity = sample_id TypeDelete, dd_Owner = ''adapter'', dd_OriginID = [],
     dd_Status = zero_Status, dd_Generation = 0, dd_Version = 0\<rparr>"

definition sample_read :: ReadDesire where
  "sample_read = \<lparr>rd_Identity = sample_id TypeRead, rd_Owner = ''adapter'', rd_OriginID = [],
     rd_TargetVersion = ''v1'', rd_Status = zero_ReadStatus, rd_Generation = 0, rd_Version = 0\<rparr>"

lemma sample_valid:
  "ApplyDesire_Validate sample_dns sample_apply = None"
  "DeleteDesire_Validate sample_dns sample_delete = None"
  "ReadDesire_Validate sample_dns sample_read = None"
  by code_simp+

lemma sample_identities [simp]:
  "ad_Identity sample_apply = sample_id TypeApply"
  "dd_Identity sample_delete = sample_id TypeDelete"
  "rd_Identity sample_read = sample_id TypeRead"
  "DesireTypeOf (sample_id t) = t"
  "ManagementCluster (sample_id t) = ''mc1''"
  by (simp_all add: sample_apply_def sample_delete_def sample_read_def sample_id_def)

end
