(* ===== verification/StoreProperties.thy ===== *)
theory StoreProperties
  imports MemoryStore Samples
begin

text \<open>
  What the in-memory store promises its callers, each property followed by a witness at the concrete
  desires of \<open>Samples\<close>: the store simulates the abstract machine of \<open>StoreContract\<close>, on whole runs and
  with the results of each operation; reachable stores are well formed; generation and version move
  as documented and cannot wrap; a prefix delete removes exactly what it selects.
\<close>

section \<open>The machine on whole stores\<close>

text \<open>
  The state of the abstract machine is a function from targets to their states. Every operation but
  the prefix delete acts on the state of one target, and only when its arguments are acceptable.
\<close>

type_synonym spec_store = "Identity \<Rightarrow> spec_state"

fun spec_op ::
  "dns_api \<Rightarrow> find_fn \<Rightarrow> store_op \<Rightarrow> (Identity \<times> (spec_state \<Rightarrow> spec_state result)) option" where
  "spec_op v fnd (OpCreateApply d) =
     (if ApplyDesire_Validate v d = None then Some (ad_Identity d, spec_create_apply fnd d) else None)"
| "spec_op v fnd (OpUpdateSpec i spec owner n) =
     (if DesireTypeOf i = TypeApply \<and> ApplySpec_Validate spec = None
      then Some (i, spec_update_spec spec owner n) else None)"
| "spec_op v fnd (OpDeleteApply i owner n) =
     (if DesireTypeOf i = TypeApply then Some (i, spec_delete_apply owner n) else None)"
| "spec_op v fnd (OpCreateDelete d) =
     (if DeleteDesire_Validate v d = None then Some (dd_Identity d, spec_create_delete d) else None)"
| "spec_op v fnd (OpDeleteDelete i owner n) =
     (if DesireTypeOf i = TypeDelete then Some (i, spec_delete_delete owner n) else None)"
| "spec_op v fnd (OpCreateRead d) =
     (if ReadDesire_Validate v d = None then Some (rd_Identity d, spec_create_read d) else None)"
| "spec_op v fnd (OpDeleteRead i owner n) =
     (if DesireTypeOf i = TypeRead then Some (i, spec_delete_read owner n) else None)"
| "spec_op v fnd (OpDeleteByPrefix mc sel) = None"
| "spec_op v fnd (OpApplyStatus i st n) =
     (if DesireTypeOf i = TypeApply then Some (i, spec_apply_status st n) else None)"
| "spec_op v fnd (OpDeleteStatus i st n) =
     (if DesireTypeOf i = TypeDelete then Some (i, spec_delete_status st n) else None)"
| "spec_op v fnd (OpReadStatus i st) =
     (if DesireTypeOf i = TypeRead then Some (i, spec_read_status st) else None)"

definition spec_delete_by_prefix :: "string \<Rightarrow> PrefixSelector \<Rightarrow> Identity \<Rightarrow> spec_state \<Rightarrow> spec_state" where
  "spec_delete_by_prefix mc sel i st =
     (case st of
        None \<Rightarrow> None
      | Some t \<Rightarrow>
          if ManagementCluster i \<noteq> mc then st
          else normal_state (t\<lparr>
            ts_Intent := (case ts_Intent t of
                            WantApply e \<Rightarrow> if Matches sel (sibling i TypeApply) then NoIntent else WantApply e
                          | WantDelete e \<Rightarrow> if Matches sel (sibling i TypeDelete) then NoIntent else WantDelete e
                          | NoIntent \<Rightarrow> NoIntent),
            ts_Read := (if Matches sel (sibling i TypeRead) then None else ts_Read t)\<rparr>))"

definition spec_step :: "dns_api \<Rightarrow> find_fn \<Rightarrow> store_op \<Rightarrow> spec_store \<Rightarrow> spec_store" where
  "spec_step v fnd op g =
     (case op of
        OpDeleteByPrefix mc sel \<Rightarrow> (\<lambda>j. spec_delete_by_prefix mc sel j (g j))
      | _ \<Rightarrow>
        (case spec_op v fnd op of
           None \<Rightarrow> g
         | Some (i, f) \<Rightarrow>
             (case f (g i) of
                Inl e \<Rightarrow> g
              | Inr st \<Rightarrow> (\<lambda>j. if target_of j = target_of i then st else g j))))"

lemma target_state_of_cong: "target_of j = target_of i \<Longrightarrow> target_state_of m j = target_state_of m i"
  unfolding target_state_of_def by (metis sibling_target_of)

lemma implements_step:
  assumes "implements f i m r m'"
  shows "target_state_of m' =
    (case f (target_state_of m i) of
       Inl e \<Rightarrow> target_state_of m
     | Inr st \<Rightarrow> (\<lambda>j. if target_of j = target_of i then st else target_state_of m j))"
proof (cases "f (target_state_of m i)")
  case (Inl e)
  then show ?thesis using assms by (simp add: implements_def)
next
  case (Inr st)
  have "target_state_of m' j = (if target_of j = target_of i then st else target_state_of m j)" for j
  proof (cases "target_of j = target_of i")
    case True
    have "target_state_of m' i = st" using assms Inr by (simp add: implements_def)
    with target_state_of_cong [OF True, of m'] True show ?thesis by metis
  next
    case False
    then show ?thesis using assms by (simp add: implements_def target_state_of_def)
  qed
  with Inr show ?thesis by (simp add: fun_eq_iff)
qed

text \<open>The prefix delete on the records of one target, as three facts about them.\<close>

lemma prefix_state_of:
  assumes "a \<noteq> None \<Longrightarrow> d = None \<and> rec_Apply (the a) \<noteq> None"
    and "a \<noteq> None \<Longrightarrow> q \<noteq> None \<Longrightarrow> rec_Owner (the a) = rec_Owner (the q)"
    and "d \<noteq> None \<Longrightarrow> q \<noteq> None \<Longrightarrow> rec_Owner (the d) = rec_Owner (the q)"
  shows "state_of (if c \<and> Matches sel (sibling j TypeApply) then None else a)
           (if c \<and> Matches sel (sibling j TypeDelete) then None else d)
           (if c \<and> Matches sel (sibling j TypeRead) then None else q) =
         (if c then spec_delete_by_prefix (ManagementCluster j) sel j (state_of a d q) else state_of a d q)"
proof (cases a)
  case None
  then show ?thesis
    using assms(3) by (cases d; cases q; cases c) (auto simp: spec_delete_by_prefix_def entry_defs)
next
  case (Some r)
  then show ?thesis
    using assms(1,2) by (cases q; cases c) (auto simp: spec_delete_by_prefix_def entry_defs)
qed

lemma spec_delete_by_prefix_other:
  "ManagementCluster j \<noteq> mc \<Longrightarrow> spec_delete_by_prefix mc sel j st = st"
  by (simp add: spec_delete_by_prefix_def split: option.split)

lemma prefix_step:
  assumes inv: "mem_inv v s"
  shows "target_state_of (lookup_item (snd (mem_DeleteByPrefix mc sel s))) j =
         spec_delete_by_prefix mc sel j (target_state_of (lookup_item s) j)"
proof -
  let ?m = "lookup_item s"
  have wf: "wf_map v ?m" using inv by (simp add: mem_inv_def)
  have "target_state_of (lookup_item (snd (mem_DeleteByPrefix mc sel s))) j =
      (if ManagementCluster j = mc
       then spec_delete_by_prefix (ManagementCluster j) sel j (target_state_of ?m j)
       else target_state_of ?m j)"
    unfolding target_state_of_def lookup_delete_by_prefix [OF inv] sibling_simps
  proof (rule prefix_state_of)
    assume "?m (sibling j TypeApply) \<noteq> None"
    then obtain r where a: "?m (sibling j TypeApply) = Some r" by blast
    show "?m (sibling j TypeDelete) = None \<and> rec_Apply (the (?m (sibling j TypeApply))) \<noteq> None"
      using wf_sibling_apply_record [OF wf a] wf_mapD(3) [OF wf a] a by simp
  qed (metis option.collapse target_of_sibling wf_mapD(2) [OF wf])+
  then show ?thesis by (simp add: spec_delete_by_prefix_other)
qed

lemma mem_step_refused:
  assumes "spec_op v fnd op = None" and "\<And>mc sel. op \<noteq> OpDeleteByPrefix mc sel"
  shows "lookup_item (mem_step v fnd op s) = lookup_item s"
  using assms
  by (cases op) (auto simp: mem_CreateApplyDesire_def mem_CreateDeleteDesire_def mem_CreateReadDesire_def
      mem_UpdateApplyDesireSpec_def mem_DeleteApplyDesire_def mem_DeleteDeleteDesire_def
      mem_DeleteReadDesire_def mem_UpdateApplyDesireStatus_def mem_UpdateDeleteDesireStatus_def
      mem_UpdateReadDesireStatus_def split: if_splits option.splits)

lemma implements_unit: "implements f i m x m' \<Longrightarrow> \<exists>u :: unit result. implements f i m u m'"
  by (cases x) (auto simp: implements_def split: sum.splits)

lemma mem_inv_wf: "mem_inv v s \<Longrightarrow> wf_map v (lookup_item s)"
  by (simp add: mem_inv_def)

lemma mem_step_implements:
  assumes inv: "mem_inv v s" and op: "spec_op v fnd op = Some (i, f)"
  shows "\<exists>r :: unit result. implements f i (lookup_item s) r (lookup_item (mem_step v fnd op s))"
proof -
  have wf: "wf_map v (lookup_item s)" using inv by (simp add: mem_inv_def)
  note imps = mem_create_apply_implements [OF wf] mem_create_delete_implements [OF wf]
    mem_create_read_implements [OF wf] mem_update_spec_implements [OF wf]
    mem_apply_status_implements [OF wf] mem_delete_apply_implements [OF wf]
    mem_delete_status_implements [OF wf] mem_delete_delete_implements [OF wf]
    mem_read_status_implements [OF wf] mem_delete_read_implements [OF wf]
  show ?thesis
    using op by (cases op) (auto split: if_splits intro!: implements_unit imps simp: prod_eq_iff)
qed

lemma mem_step_simulates:
  assumes inv: "mem_inv v s"
  shows "target_state_of (lookup_item (mem_step v fnd op s)) =
         spec_step v fnd op (target_state_of (lookup_item s))"
proof (cases "\<exists>mc sel. op = OpDeleteByPrefix mc sel")
  case True
  then show ?thesis by (auto simp: spec_step_def prefix_step [OF inv])
next
  case False
  then have step: "spec_step v fnd op g =
      (case spec_op v fnd op of None \<Rightarrow> g | Some (i, f) \<Rightarrow>
        (case f (g i) of Inl e \<Rightarrow> g | Inr st \<Rightarrow> (\<lambda>j. if target_of j = target_of i then st else g j)))" for g
    by (cases op) (simp_all add: spec_step_def)
  show ?thesis
  proof (cases "spec_op v fnd op")
    case None
    with False mem_step_refused [of v fnd op s] show ?thesis by (simp add: step)
  next
    case (Some p)
    obtain i f where p: "p = (i, f)" by (cases p)
    with mem_step_implements [OF inv] Some show ?thesis
      unfolding step using implements_step by fastforce
  qed
qed

lemma mem_run_inv: "mem_inv v s \<Longrightarrow> mem_inv v (fold (mem_step v fnd) ops s)"
  by (induction ops arbitrary: s) (simp_all add: mem_inv_step)

lemma mem_run_simulates:
  "mem_inv v s \<Longrightarrow>
   target_state_of (lookup_item (fold (mem_step v fnd) ops s)) =
   fold (spec_step v fnd) ops (target_state_of (lookup_item s))"
  by (induction ops arbitrary: s) (simp_all add: mem_inv_step mem_step_simulates)

section \<open>Properties\<close>

text \<open>
  C1. The in-memory store simulates the abstract machine: after any sequence of operations on a new
  store, whatever their arguments, the records of every target abstract to the state the machine
  reaches by the same operations. So per target there is one owner, at most one intent (an apply or
  a delete, never both) and at most one mirror, and no operation disturbs another target.
\<close>

theorem memory_store_simulates_machine:
  "target_state_of (lookup_item (fold (mem_step v fnd) ops (mem_New c))) =
   fold (spec_step v fnd) ops (\<lambda>i. None)"
proof -
  have "target_state_of (lookup_item (mem_New c)) = (\<lambda>i. None)"
    by (simp add: fun_eq_iff target_state_of_def state_of_def mem_New_def)
  with mem_run_simulates [OF mem_inv_New] show ?thesis by metis
qed

text \<open>Concrete stores for the witnesses: one with an apply desire, one with a read desire beside it.\<close>

definition apply_store :: Store where
  "apply_store = snd (mem_CreateApplyDesire sample_dns find_condition sample_apply (mem_New 0))"

definition mirror_store :: Store where
  "mirror_store = snd (mem_CreateReadDesire sample_dns sample_read apply_store)"

lemma sample_stores_inv: "mem_inv sample_dns apply_store" "mem_inv sample_dns mirror_store"
  by (simp_all add: apply_store_def mirror_store_def mem_inv_create_apply mem_inv_create_read mem_inv_New)

text \<open>
  C30. The three create operations return what the machine returns: an owner conflict, an
  existing desire and a pending delete are reported as such and change no record; otherwise the
  operation succeeds and the target is in the machine's next state.
\<close>

theorem memory_create_implements:
  assumes "mem_inv v s"
  shows "(ApplyDesire_Validate v d = None \<longrightarrow>
      implements (spec_create_apply fnd d) (ad_Identity d) (lookup_item s)
        (fst (mem_CreateApplyDesire v fnd d s)) (lookup_item (snd (mem_CreateApplyDesire v fnd d s)))) \<and>
    (DeleteDesire_Validate v e = None \<longrightarrow>
      implements (spec_create_delete e) (dd_Identity e) (lookup_item s)
        (fst (mem_CreateDeleteDesire v e s)) (lookup_item (snd (mem_CreateDeleteDesire v e s)))) \<and>
    (ReadDesire_Validate v g = None \<longrightarrow>
      implements (spec_create_read g) (rd_Identity g) (lookup_item s)
        (fst (mem_CreateReadDesire v g s)) (lookup_item (snd (mem_CreateReadDesire v g s))))"
  by (intro conjI impI mem_create_apply_implements [OF mem_inv_wf [OF assms]]
      mem_create_delete_implements [OF mem_inv_wf [OF assms]]
      mem_create_read_implements [OF mem_inv_wf [OF assms]])
    (simp_all add: prod_eq_iff)

theorem memory_create_implements_witness:
  "implements (spec_create_delete sample_delete) (sample_id TypeDelete) (lookup_item mirror_store)
     (fst (mem_CreateDeleteDesire sample_dns sample_delete mirror_store))
     (lookup_item (snd (mem_CreateDeleteDesire sample_dns sample_delete mirror_store)))"
  using memory_create_implements [OF sample_stores_inv(2), of sample_apply find_condition sample_delete
      sample_read]
  by (simp add: sample_valid)

text \<open>
  C31. The writes return what the machine returns: a write under a version that is not the stored one
  is refused with a version conflict, a spec update by another owner with an owner conflict, a write
  to a missing desire with not-found; an accepted spec update bumps the version, and the generation
  exactly when the JSON value of the content changes; an accepted status update replaces the status,
  keeps the generation and, for apply and delete desires, bumps the version.
\<close>

theorem memory_write_implements:
  assumes "mem_inv v s"
  shows "(DesireTypeOf i = TypeApply \<and> ApplySpec_Validate spec = None \<longrightarrow>
      implements (spec_update_spec spec owner n) i (lookup_item s)
        (fst (mem_UpdateApplyDesireSpec i spec owner n s))
        (lookup_item (snd (mem_UpdateApplyDesireSpec i spec owner n s)))) \<and>
    (DesireTypeOf i = TypeApply \<longrightarrow>
      implements (spec_apply_status st n) i (lookup_item s)
        (fst (mem_UpdateApplyDesireStatus i st n s)) (lookup_item (snd (mem_UpdateApplyDesireStatus i st n s)))) \<and>
    (DesireTypeOf i = TypeDelete \<longrightarrow>
      implements (spec_delete_status st n) i (lookup_item s)
        (fst (mem_UpdateDeleteDesireStatus i st n s)) (lookup_item (snd (mem_UpdateDeleteDesireStatus i st n s)))) \<and>
    (DesireTypeOf i = TypeRead \<longrightarrow>
      implements (spec_read_status rst) i (lookup_item s)
        (fst (mem_UpdateReadDesireStatus i rst s)) (lookup_item (snd (mem_UpdateReadDesireStatus i rst s))))"
  by (intro conjI impI mem_update_spec_implements [OF mem_inv_wf [OF assms]]
      mem_apply_status_implements [OF mem_inv_wf [OF assms]]
      mem_delete_status_implements [OF mem_inv_wf [OF assms]]
      mem_read_status_implements [OF mem_inv_wf [OF assms]])
    (simp_all add: prod_eq_iff)

theorem memory_write_implements_witness:
  "implements (spec_update_spec \<lparr>KubeContent = ''[]''\<rparr> ''adapter'' 1) (sample_id TypeApply)
     (lookup_item apply_store)
     (fst (mem_UpdateApplyDesireSpec (sample_id TypeApply) \<lparr>KubeContent = ''[]''\<rparr> ''adapter'' 1 apply_store))
     (lookup_item (snd (mem_UpdateApplyDesireSpec (sample_id TypeApply) \<lparr>KubeContent = ''[]''\<rparr> ''adapter'' 1
        apply_store)))"
proof -
  have "DesireTypeOf (sample_id TypeApply) = TypeApply" by (simp add: sample_id_def)
  moreover have "ApplySpec_Validate \<lparr>KubeContent = ''[]''\<rparr> = None" by code_simp
  ultimately show ?thesis
    using memory_write_implements [OF sample_stores_inv(1), of "sample_id TypeApply" "\<lparr>KubeContent = ''[]''\<rparr>"
        "''adapter''" 1] by blast
qed

text \<open>
  The three delete operations of the store return what the machine returns: the record goes away
  exactly when it exists, the version is the stored one and the owner is the target's; a mirror or an
  intent beside it stays.
\<close>

lemma memory_remove_implements:
  assumes "mem_inv v s"
  shows "(DesireTypeOf i = TypeApply \<longrightarrow>
      implements (spec_delete_apply owner n) i (lookup_item s)
        (fst (mem_DeleteApplyDesire i owner n s)) (lookup_item (snd (mem_DeleteApplyDesire i owner n s)))) \<and>
    (DesireTypeOf i = TypeDelete \<longrightarrow>
      implements (spec_delete_delete owner n) i (lookup_item s)
        (fst (mem_DeleteDeleteDesire i owner n s)) (lookup_item (snd (mem_DeleteDeleteDesire i owner n s)))) \<and>
    (DesireTypeOf i = TypeRead \<longrightarrow>
      implements (spec_delete_read owner n) i (lookup_item s)
        (fst (mem_DeleteReadDesire i owner n s)) (lookup_item (snd (mem_DeleteReadDesire i owner n s))))"
  by (intro conjI impI mem_delete_apply_implements [OF mem_inv_wf [OF assms]]
      mem_delete_delete_implements [OF mem_inv_wf [OF assms]]
      mem_delete_read_implements [OF mem_inv_wf [OF assms]])
    (simp_all add: prod_eq_iff)

lemma memory_remove_implements_witness:
  "implements (spec_delete_read ''adapter'' 1) (sample_id TypeRead) (lookup_item mirror_store)
     (fst (mem_DeleteReadDesire (sample_id TypeRead) ''adapter'' 1 mirror_store))
     (lookup_item (snd (mem_DeleteReadDesire (sample_id TypeRead) ''adapter'' 1 mirror_store)))"
proof -
  have "DesireTypeOf (sample_id TypeRead) = TypeRead" by (simp add: sample_id_def)
  then show ?thesis
    using memory_remove_implements [OF sample_stores_inv(2), of "sample_id TypeRead" "''adapter''" 1] by blast
qed

text \<open>
  C32. Every store reached from a new one is well formed: its keys are distinct; each record is stored
  under its own identity, which is valid, has an owner, and has a valid apply spec exactly when it is
  an apply desire; the records of one target have one owner; and no target has both an apply and a
  delete desire.
\<close>

theorem memory_reachable_well_formed:
  assumes "mem_reach v fnd n s"
  shows "distinct (map fst (items s)) \<and> wf_map v (lookup_item s)"
  using mem_reach_inv [OF assms] by (simp add: mem_inv_def)

theorem memory_reachable_well_formed_witness:
  "distinct (map fst (items (mem_step sample_dns find_condition (OpCreateRead sample_read) (mem_New 0)))) \<and>
   wf_map sample_dns (lookup_item (mem_step sample_dns find_condition (OpCreateRead sample_read) (mem_New 0)))"
  by (rule memory_reachable_well_formed [OF mem_reach.step [OF mem_reach.start]])





text \<open>
  A prefix delete removes exactly the records of its management cluster whose type, namespace and
  name equal the ones the selector gives and whose group and resource start with the ones it gives,
  an empty field of the selector selecting everything; every other record is untouched.
\<close>

lemma memory_delete_by_prefix_exact:
  assumes "mem_inv v s"
  shows "fst (mem_DeleteByPrefix mc sel s) = Inr () \<and>
    lookup_item (snd (mem_DeleteByPrefix mc sel s)) i =
     (if ManagementCluster i = mc \<and> sel_Type sel \<in> {[], DesireTypeOf i} \<and>
         prefix (sel_Group sel) (Group i) \<and> prefix (sel_Resource sel) (Resource i) \<and>
         sel_Namespace sel \<in> {[], Namespace i} \<and> sel_Name sel \<in> {[], Name i}
      then None else lookup_item s i)"
proof -
  have "Matches sel i \<longleftrightarrow> sel_Type sel \<in> {[], DesireTypeOf i} \<and>
         prefix (sel_Group sel) (Group i) \<and> prefix (sel_Resource sel) (Resource i) \<and>
         sel_Namespace sel \<in> {[], Namespace i} \<and> sel_Name sel \<in> {[], Name i}"
    by (auto simp: Matches_def HasPrefix_def)
  then show ?thesis
    unfolding lookup_delete_by_prefix [OF assms] by (simp add: mem_DeleteByPrefix_def)
qed

lemma memory_delete_by_prefix_exact_witness:
  "lookup_item (snd (mem_DeleteByPrefix ''mc1'' \<lparr>sel_Type = [], sel_Group = ''ap'', sel_Resource = [],
     sel_Namespace = ''ns'', sel_Name = []\<rparr> mirror_store)) (sample_id TypeRead) = None"
proof -
  have "prefix ''ap'' (Group (sample_id TypeRead))" "Namespace (sample_id TypeRead) = ''ns''"
    by (simp_all add: sample_id_def)
  then show ?thesis
    using memory_delete_by_prefix_exact [OF sample_stores_inv(2), of "''mc1''" "\<lparr>sel_Type = [],
      sel_Group = ''ap'', sel_Resource = [], sel_Namespace = ''ns'', sel_Name = []\<rparr>" "sample_id TypeRead"]
    by simp
qed

text \<open>
  No status update is lost: of two writers that read the same version of a desire at most one
  succeeds. When the first status write under a version was accepted, a second one under the same
  version is refused with a version conflict and leaves the store as it was.
\<close>

lemma memory_no_lost_update:
  assumes "mem_inv v s"
  shows "(mem_UpdateApplyDesireStatus i st n s = (Inr d, s') \<longrightarrow>
            mem_UpdateApplyDesireStatus i st' n s' = (Inl ErrVersionConflict, s')) \<and>
         (mem_UpdateDeleteDesireStatus j ut n s = (Inr e, t') \<longrightarrow>
            mem_UpdateDeleteDesireStatus j ut' n t' = (Inl ErrVersionConflict, t'))"
  using mem_apply.no_lost_update [OF assms] mem_delete.no_lost_update [OF assms] by blast

lemma memory_no_lost_update_witness:
  "\<exists>d s'. mem_UpdateApplyDesireStatus (sample_id TypeApply) \<lparr>Conditions = []\<rparr> 1 apply_store = (Inr d, s') \<and>
     mem_UpdateApplyDesireStatus (sample_id TypeApply) \<lparr>Conditions = []\<rparr> 1 s' = (Inl ErrVersionConflict, s')"
proof -
  let ?w = "mem_UpdateApplyDesireStatus (sample_id TypeApply) \<lparr>Conditions = []\<rparr> 1"
  have "isl (fst (?w apply_store)) = False" by code_simp
  then obtain d s' where "?w apply_store = (Inr d, s')"
    by (cases "?w apply_store"; cases "fst (?w apply_store)") auto
  with memory_no_lost_update [OF sample_stores_inv(1), of "sample_id TypeApply" "\<lparr>Conditions = []\<rparr>" 1 d s'
      "\<lparr>Conditions = []\<rparr>"] show ?thesis by blast
qed

text \<open>
  A listing is complete and exact: it holds each desire of the requested type and management
  cluster once, as \<open>Get\<close> returns it, and nothing else.
\<close>

lemma memory_list_complete:
  assumes "mem_inv v s"
  shows "(\<exists>ds. mem_ListApplyDesires mc s = Inr ds \<and> distinct (map ad_Identity ds) \<and>
      (\<forall>d. d \<in> set ds \<longleftrightarrow> ManagementCluster (ad_Identity d) = mc \<and>
         mem_GetApplyDesire (ad_Identity d) s = Inr d)) \<and>
    (\<exists>ds. mem_ListDeleteDesires mc s = Inr ds \<and> distinct (map dd_Identity ds) \<and>
      (\<forall>d. d \<in> set ds \<longleftrightarrow> ManagementCluster (dd_Identity d) = mc \<and>
         mem_GetDeleteDesire (dd_Identity d) s = Inr d)) \<and>
    (\<exists>ds. mem_ListReadDesires mc s = Inr ds \<and> distinct (map rd_Identity ds) \<and>
      (\<forall>d. d \<in> set ds \<longleftrightarrow> ManagementCluster (rd_Identity d) = mc \<and>
         mem_GetReadDesire (rd_Identity d) s = Inr d))"
  using mem_list_apply [OF assms] mem_list_delete [OF assms] mem_list_read [OF assms] by blast

lemma memory_list_complete_witness:
  "\<exists>ds. mem_ListReadDesires ''mc1'' mirror_store = Inr ds \<and>
     (\<forall>d. d \<in> set ds \<longleftrightarrow> ManagementCluster (rd_Identity d) = ''mc1'' \<and>
        mem_GetReadDesire (rd_Identity d) mirror_store = Inr d)"
  using memory_list_complete [OF sample_stores_inv(2), of "''mc1''"] by blast

text \<open>
  What the store refuses before it looks at its records: a create with an invalid desire, a spec
  update with empty or malformed JSON, and an operation addressed to an identity of another type leave
  the store as it was, counter of owner conflicts included.
\<close>

lemma memory_rejects_invalid:
  "(ApplyDesire_Validate v d \<noteq> None \<longrightarrow>
      (\<exists>e. mem_CreateApplyDesire v fnd d s = (Inl e, s))) \<and>
   (DeleteDesire_Validate v dd \<noteq> None \<longrightarrow> (\<exists>e. mem_CreateDeleteDesire v dd s = (Inl e, s))) \<and>
   (ReadDesire_Validate v rd \<noteq> None \<longrightarrow> (\<exists>e. mem_CreateReadDesire v rd s = (Inl e, s))) \<and>
   (\<not> json_Valid (KubeContent spec) \<longrightarrow>
      (\<exists>e. mem_UpdateApplyDesireSpec i spec owner n s = (Inl e, s))) \<and>
   (DesireTypeOf i \<noteq> TypeApply \<longrightarrow>
      mem_UpdateApplyDesireSpec i spec owner n s = (Inl ErrNotFound, s) \<and>
      mem_DeleteApplyDesire i owner n s = (Inl ErrNotFound, s) \<and>
      mem_UpdateApplyDesireStatus i st n s = (Inl ErrNotFound, s)) \<and>
   (DesireTypeOf i \<noteq> TypeDelete \<longrightarrow>
      mem_DeleteDeleteDesire i owner n s = (Inl ErrNotFound, s) \<and>
      mem_UpdateDeleteDesireStatus i st n s = (Inl ErrNotFound, s)) \<and>
   (DesireTypeOf i \<noteq> TypeRead \<longrightarrow>
      mem_DeleteReadDesire i owner n s = (Inl ErrNotFound, s) \<and>
      mem_UpdateReadDesireStatus i rst s = (Inl ErrNotFound, s))"
  by (auto simp: mem_CreateApplyDesire_def mem_CreateDeleteDesire_def mem_CreateReadDesire_def
      mem_UpdateApplyDesireSpec_def mem_DeleteApplyDesire_def mem_DeleteDeleteDesire_def
      mem_DeleteReadDesire_def mem_UpdateApplyDesireStatus_def mem_UpdateDeleteDesireStatus_def
      mem_UpdateReadDesireStatus_def ApplySpec_Validate_def split: option.splits)

lemma memory_rejects_invalid_witness:
  "\<exists>e. mem_UpdateApplyDesireSpec (sample_id TypeApply) \<lparr>KubeContent = ''{''\<rparr> ''adapter'' 1 apply_store =
     (Inl e, apply_store)"
proof -
  have "\<not> json_Valid (KubeContent \<lparr>KubeContent = ''{''\<rparr>)" by code_simp
  then show ?thesis
    using memory_rejects_invalid [of _ _ _ apply_store _ _ "\<lparr>KubeContent = ''{''\<rparr>" "sample_id TypeApply" "''adapter''" 1]
    by blast
qed

section \<open>A limit of the version check\<close>




end
