(* ===== verification/RedisKey.thy ===== *)
theory RedisKey
  imports StoreRecord
begin

text \<open>
  The keys of \<open>pkg/desire/store/redis\<close>: an identity becomes \<open>desire/{mc/group/resource/ns/name}/type\<close>
  with every coordinate escaped by \<open>url.PathEscape\<close>, and the keys of a management cluster are found
  by a glob pattern built from the same prefix. The lemmas: the escaping is injective and never
  writes a separator, so a key determines its identity and the scan prefix its management cluster.
\<close>

section \<open>Path escaping\<close>

text \<open>\<open>shouldEscape\<close> of \<open>net/url\<close> for a path segment.\<close>

definition should_escape :: "char \<Rightarrow> bool" where
  "should_escape c \<longleftrightarrow>
     \<not> (c \<in> set ''abcdefghijklmnopqrstuvwxyzABCDEFGHIJKLMNOPQRSTUVWXYZ0123456789-_.~$&+:=@'')"

definition upperhex :: "nat \<Rightarrow> char" where
  "upperhex n = ''0123456789ABCDEF'' ! (n mod 16)"

definition escape_char :: "char \<Rightarrow> string" where
  "escape_char c =
     (if should_escape c then [CHR ''%'', upperhex (of_char c div 16), upperhex (of_char c)] else [c])"

definition PathEscape :: "string \<Rightarrow> string" where
  "PathEscape s = concat (map escape_char s)"

definition keyPrefix :: string where "keyPrefix = ''desire/{''"

definition redisKey :: "Identity \<Rightarrow> string" where
  "redisKey i =
     keyPrefix @ join_with ''/'' [PathEscape (ManagementCluster i), PathEscape (Group i),
       PathEscape (Resource i), PathEscape (Namespace i), PathEscape (Name i)] @ ''}/'' @ DesireTypeOf i"

text \<open>\<open>globEscaper\<close>, a replacer of single bytes.\<close>

definition glob_escape_char :: "char \<Rightarrow> string" where
  "glob_escape_char c =
     (if c \<in> {CHR 0x5C, CHR ''*'', CHR ''?'', CHR ''['', CHR '']''} then [CHR 0x5C, c] else [c])"

definition globEscaper_Replace :: "string \<Rightarrow> string" where
  "globEscaper_Replace s = concat (map glob_escape_char s)"

definition mcScanPrefix :: "string \<Rightarrow> string" where
  "mcScanPrefix mc = globEscaper_Replace (keyPrefix @ PathEscape mc) @ ''/''"

section \<open>Escaping is injective\<close>

lemma upperhex_val: "n < 16 \<Longrightarrow> m < 16 \<Longrightarrow> upperhex n = upperhex m \<longleftrightarrow> n = m"
proof -
  have "distinct ''0123456789ABCDEF''" by simp
  then show "n < 16 \<Longrightarrow> m < 16 \<Longrightarrow> ?thesis" by (simp add: upperhex_def nth_eq_iff_index_eq)
qed

lemma upperhex_mod: "upperhex (n mod 16) = upperhex n"
  by (simp add: upperhex_def)

lemma upperhex_safe: "upperhex n \<in> set ''0123456789ABCDEF''"
  unfolding upperhex_def by (rule nth_mem) simp

lemma escape_char_nonempty: "escape_char c \<noteq> []"
  by (simp add: escape_char_def)

lemma escape_char_prefix:
  "escape_char c @ xs = escape_char d @ ys \<Longrightarrow> c = d \<and> xs = ys"
proof -
  assume eq: "escape_char c @ xs = escape_char d @ ys"
  have pct: "should_escape (CHR ''%'')" by (simp add: should_escape_def)
  show ?thesis
  proof (cases "should_escape c \<and> should_escape d")
    case True
    let ?c = "of_char c :: nat" and ?d = "of_char d :: nat"
    have b: "?c < 256" "?d < 256" by (simp_all add: of_char_def) 
    have "upperhex (?c div 16) = upperhex (?d div 16)" "upperhex (?c mod 16) = upperhex (?d mod 16)" "xs = ys"
      using eq True by (simp_all add: escape_char_def upperhex_mod)
    then have "?c div 16 = ?d div 16" "?c mod 16 = ?d mod 16" "xs = ys"
      using b by (simp_all add: upperhex_val less_mult_imp_div_less)
    then have "?c = ?d" "xs = ys" by (metis div_mult_mod_eq)+
    then show ?thesis by simp
  next
    case False
    then show ?thesis using eq pct by (auto simp: escape_char_def split: if_splits)
  qed
qed

lemma PathEscape_inject [simp]: "PathEscape s = PathEscape t \<longleftrightarrow> s = t"
proof
  show "PathEscape s = PathEscape t \<Longrightarrow> s = t"
  proof (induction s arbitrary: t)
    case Nil
    then show ?case by (cases t) (simp_all add: PathEscape_def escape_char_nonempty)
  next
    case (Cons c s)
    then obtain d t' where t: "t = d # t'"
      by (cases t) (simp_all add: PathEscape_def escape_char_nonempty)
    with Cons.prems have "escape_char c @ PathEscape s = escape_char d @ PathEscape t'"
      by (simp add: PathEscape_def)
    from escape_char_prefix [OF this] Cons.IH show ?case by (simp add: t)
  qed
qed simp

text \<open>No escaped text holds one of the characters the keys are put together with.\<close>

lemma escape_char_chars:
  "x \<in> set (escape_char c) \<Longrightarrow> x \<in> set ''%0123456789ABCDEF'' \<or> \<not> should_escape x"
  using upperhex_safe by (auto simp: escape_char_def split: if_splits)

lemma PathEscape_safe:
  assumes "x \<in> {CHR ''/'', CHR ''{'', CHR ''}'', CHR 0x5C, CHR ''*'', CHR ''?'', CHR ''['', CHR '']''}"
  shows "x \<notin> set (PathEscape s)"
proof
  assume "x \<in> set (PathEscape s)"
  then obtain c where "x \<in> set (escape_char c)" by (auto simp: PathEscape_def)
  with assms show False using escape_char_chars [of x c] by (auto simp: should_escape_def)
qed

section \<open>Keys\<close>

text \<open>Two joins of separator-free texts at the same separator are equal part by part.\<close>

lemma split_unique:
  assumes "sep \<notin> set a" "sep \<notin> set b"
  shows "a @ sep # x = b @ sep # y \<longleftrightarrow> a = b \<and> x = y"
proof
  assume eq: "a @ sep # x = b @ sep # y"
  have tw: "takeWhile ((\<noteq>) sep) (p @ sep # q) = p" if "sep \<notin> set p" for p q
    using that by (induction p) auto
  from arg_cong [OF eq, of "takeWhile ((\<noteq>) sep)"] have "a = b" using assms by (simp add: tw)
  with eq show "a = b \<and> x = y" by simp
qed simp

lemma redisKey_inject [simp]: "redisKey i = redisKey j \<longleftrightarrow> i = j"
proof -
  have e: "redisKey k = keyPrefix @ PathEscape (ManagementCluster k) @ CHR ''/'' # PathEscape (Group k) @
      CHR ''/'' # PathEscape (Resource k) @ CHR ''/'' # PathEscape (Namespace k) @ CHR ''/'' #
      PathEscape (Name k) @ CHR ''}'' # CHR ''/'' # DesireTypeOf k" for k
    by (simp add: redisKey_def)
  show ?thesis
    unfolding e by (cases i; cases j) (simp add: split_unique PathEscape_safe, blast)
qed

lemma globEscaper_PathEscape:
  "globEscaper_Replace (keyPrefix @ PathEscape mc) = keyPrefix @ PathEscape mc"
proof -
  have "globEscaper_Replace s = s" if "\<forall>x\<in>set s. x \<notin> {CHR 0x5C, CHR ''*'', CHR ''?'', CHR ''['', CHR '']''}" for s
    using that by (induction s) (auto simp: globEscaper_Replace_def glob_escape_char_def)
  moreover have "\<forall>x\<in>set (keyPrefix @ PathEscape mc). x \<notin> {CHR 0x5C, CHR ''*'', CHR ''?'', CHR ''['', CHR '']''}"
    using PathEscape_safe by (auto simp: keyPrefix_def)
  ultimately show ?thesis by blast
qed

lemma redisKey_prefix:
  "prefix (mcScanPrefix mc) (redisKey i) \<longleftrightarrow> ManagementCluster i = mc"
proof -
  have "redisKey i = keyPrefix @ PathEscape (ManagementCluster i) @ CHR ''/'' # tl (drop (length (keyPrefix @ PathEscape (ManagementCluster i))) (redisKey i))"
    by (simp add: redisKey_def)
  then obtain rest where "redisKey i = keyPrefix @ PathEscape (ManagementCluster i) @ CHR ''/'' # rest" by blast
  then show ?thesis
    using split_unique [of "CHR ''/''" "PathEscape (ManagementCluster i)" "PathEscape mc"]
    by (auto simp: mcScanPrefix_def globEscaper_PathEscape prefix_def PathEscape_safe)
qed

text \<open>
  The hash tag of a key, by which Redis Cluster chooses the slot: what stands between the first
  opening brace and the closing brace after it.
\<close>

definition hash_tag :: "string \<Rightarrow> string" where
  "hash_tag k = takeWhile ((\<noteq>) CHR ''}'') (tl (dropWhile ((\<noteq>) CHR ''{'') k))"

definition tag_text :: "Identity \<Rightarrow> string" where
  "tag_text i = PathEscape (ManagementCluster i) @ CHR ''/'' # PathEscape (Group i) @ CHR ''/'' #
     PathEscape (Resource i) @ CHR ''/'' # PathEscape (Namespace i) @ CHR ''/'' # PathEscape (Name i)"

lemma tag_text_no_brace: "CHR ''}'' \<notin> set (tag_text i)"
  by (simp add: tag_text_def PathEscape_safe)

lemma redisKey_tag: "hash_tag (redisKey i) = tag_text i"
proof -
  have "redisKey i = ''desire/{'' @ tag_text i @ ''}/'' @ DesireTypeOf i"
    by (simp add: redisKey_def tag_text_def keyPrefix_def)
  moreover have "takeWhile ((\<noteq>) x) (p @ x # q) = p" if "x \<notin> set p" for x :: char and p q
    using that by (induction p) auto
  ultimately show ?thesis using tag_text_no_brace by (simp add: hash_tag_def)
qed

lemma tag_text_inject:
  "tag_text i = tag_text j \<longleftrightarrow> ManagementCluster i = ManagementCluster j \<and> Group i = Group j \<and>
     Resource i = Resource j \<and> Namespace i = Namespace j \<and> Name i = Name j"
  by (simp add: tag_text_def split_unique PathEscape_safe)

end
