(* ===== verification/Redis.thy ===== *)
theory Redis
  imports RedisKey
begin

text \<open>
  Package \<open>pkg/desire/store/redis\<close>: the operations of the Redis-backed store, in the order of
  \<open>redis.go\<close>. The Redis client and the JSON encoding of a record are arguments. The client is a
  record of the commands the store issues, each a function on the world \<open>'w\<close> behind it (the server
  and everything other clients do to it); \<open>client.Watch\<close> is the bracket of \<open>cl_Watch\<close>, the callback and
  \<open>cl_Close\<close>, and \<open>tx.TxPipelined\<close> is \<open>cl_Exec\<close> of the queued commands. The encoding is an argument
  because it runs the marshaller \<open>metav1.Condition\<close> brings along.
\<close>

section \<open>Client, codec and state\<close>

datatype redis_cmd = SetCmd string bytes | DelCmd string

datatype redis_value = NilValue | StringValue string | OtherValue string

record 'w redis_client =
  cl_Get :: "string \<Rightarrow> 'w \<Rightarrow> bytes result \<times> 'w"
  cl_Watch :: "string list \<Rightarrow> 'w \<Rightarrow> goerror option \<times> 'w"
  cl_TxGet :: "string \<Rightarrow> 'w \<Rightarrow> bytes result \<times> 'w"
  cl_Exec :: "redis_cmd list \<Rightarrow> 'w \<Rightarrow> goerror option \<times> 'w"
  cl_Close :: "'w \<Rightarrow> 'w"
  cl_MGet :: "string list \<Rightarrow> 'w \<Rightarrow> redis_value list result \<times> 'w"
  cl_Scan :: "uint64 \<Rightarrow> string \<Rightarrow> int64 \<Rightarrow> 'w \<Rightarrow> (string list \<times> uint64) result \<times> 'w"
  cl_Backoff :: "int64 \<Rightarrow> 'w \<Rightarrow> goerror option \<times> 'w"

text \<open>
  \<open>cl_Backoff ceil\<close> is the \<open>select\<close> of \<open>watchRetry\<close>: it draws a delay below \<open>ceil\<close> nanoseconds and
  waits for it, or returns the error of the context that ended first.
\<close>

record codec =
  json_Marshal :: "resourceRecord \<Rightarrow> bytes result"
  json_Unmarshal :: "bytes \<Rightarrow> resourceRecord result"

record 'w rworld =
  rw_server :: 'w
  rw_conflicts :: uint64

definition on_server :: "('w \<Rightarrow> 'a \<times> 'w) \<Rightarrow> ('w rworld, 'a) state" where
  "on_server f = State (\<lambda>s. case f (rw_server s) of (a, w) \<Rightarrow> (a, s\<lparr>rw_server := w\<rparr>))"

definition red_CheckOwner :: "string \<Rightarrow> string \<Rightarrow> ('w rworld, goerror option) state" where
  "red_CheckOwner existing attempted =
     State (\<lambda>s. case CheckOwner existing attempted (rw_conflicts s) of
        (e, n) \<Rightarrow> (e, s\<lparr>rw_conflicts := n\<rparr>))"

definition maxCASRetries :: nat where "maxCASRetries = 16"
definition scanCount :: int64 where "scanCount = 100"
definition casBaseDelay :: int64 where "casBaseDelay = 5000000"
definition mgetBatch :: nat where "mgetBatch = 1000"

section \<open>Reading a record\<close>

definition loadRecord ::
  "'w redis_client \<Rightarrow> codec \<Rightarrow> string \<Rightarrow> ('w rworld, resourceRecord result) state" where
  "loadRecord c cd key = do {
     r \<leftarrow> on_server (cl_Get c key);
     State_Monad.return
       (case r of
          Inl err \<Rightarrow> if errors_Is err RedisNil then Inl ErrNotFound
                     else Inl (wrap (''desire: get '' @ key) err)
        | Inr data \<Rightarrow>
            (case json_Unmarshal cd data of
               Inl err \<Rightarrow> Inl (wrap (''desire: unmarshal '' @ key) err)
             | Inr record \<Rightarrow> Inr record))
   }"

definition getRecordTx ::
  "'w redis_client \<Rightarrow> codec \<Rightarrow> string \<Rightarrow> ('w rworld, resourceRecord option result) state" where
  "getRecordTx c cd key = do {
     r \<leftarrow> on_server (cl_TxGet c key);
     State_Monad.return
       (case r of
          Inl err \<Rightarrow> if errors_Is err RedisNil then Inr None
                     else Inl (wrap (''desire: get '' @ key) err)
        | Inr data \<Rightarrow>
            (case json_Unmarshal cd data of
               Inl err \<Rightarrow> Inl (wrap (''desire: unmarshal '' @ key) err)
             | Inr record \<Rightarrow> Inr (Some record)))
   }"

section \<open>Optimistic transactions\<close>

definition client_Watch ::
  "'w redis_client \<Rightarrow> string list \<Rightarrow> ('w rworld, 'a result) state \<Rightarrow> ('w rworld, 'a result) state" where
  "client_Watch c keys fn = do {
     opened \<leftarrow> on_server (cl_Watch c keys);
     r \<leftarrow> (case opened of Some err \<Rightarrow> State_Monad.return (Inl err) | None \<Rightarrow> fn);
     _ \<leftarrow> on_server (\<lambda>w. ((), cl_Close c w));
     State_Monad.return r
   }"

text \<open>
  \<open>watchRetry\<close>: the callback's assignment to the captured \<open>out\<close>, made only when it returns nil, is
  its value here; \<open>None\<close> stands for \<open>out\<close> still nil after \<open>errCASNoop\<close>. The second number counts
  the attempts that are left, so the loop ends.
\<close>

primrec watchRetry_loop ::
  "nat \<Rightarrow> nat \<Rightarrow> 'w redis_client \<Rightarrow> ('w rworld, 'a result) state \<Rightarrow> string list \<Rightarrow>
   ('w rworld, 'a option result) state" where
  "watchRetry_loop 0 attempt c fn keys = State_Monad.return (Inl ErrAborted)"
| "watchRetry_loop (Suc left) attempt c fn keys = do {
     r \<leftarrow> client_Watch c keys fn;
     (case r of
        Inr x \<Rightarrow> State_Monad.return (Inr (Some x))
      | Inl err \<Rightarrow>
          if errors_Is err ErrCASNoop then State_Monad.return (Inr None)
          else if errors_Is err TxFailedErr then do {
            stop \<leftarrow> on_server (cl_Backoff c (casBaseDelay * of_nat attempt));
            (case stop of
               Some ctxErr \<Rightarrow> State_Monad.return (Inl ctxErr)
             | None \<Rightarrow> watchRetry_loop left (Suc attempt) c fn keys)
          }
          else State_Monad.return (Inl err))
   }"

definition watchRetry ::
  "'w redis_client \<Rightarrow> ('w rworld, 'a result) state \<Rightarrow> string list \<Rightarrow> ('w rworld, 'a option result) state" where
  "watchRetry c fn keys = watchRetry_loop maxCASRetries 1 c fn keys"

text \<open>
  The two pipelines: \<open>TxPipelined\<close> runs the function that queues the commands, returns its error when
  it has one (the record could not be encoded), and commits the queue otherwise.
\<close>

definition put_tx ::
  "'w redis_client \<Rightarrow> codec \<Rightarrow> string \<Rightarrow> resourceRecord \<Rightarrow> string list \<Rightarrow>
   ('w rworld, resourceRecord result) state" where
  "put_tx c cd key r delKeys =
     (case json_Marshal cd r of
        Inl mErr \<Rightarrow> State_Monad.return (Inl (wrap (''desire: marshal '' @ key) mErr))
      | Inr b \<Rightarrow> do {
          pErr \<leftarrow> on_server (cl_Exec c (SetCmd key b # map DelCmd delKeys));
          State_Monad.return (case pErr of Some e \<Rightarrow> Inl e | None \<Rightarrow> Inr r)
        })"

definition del_tx :: "'w redis_client \<Rightarrow> string \<Rightarrow> ('w rworld, unit result) state" where
  "del_tx c key = do {
     pErr \<leftarrow> on_server (cl_Exec c [DelCmd key]);
     State_Monad.return (case pErr of Some e \<Rightarrow> Inl e | None \<Rightarrow> Inr ())
   }"

definition casMutate_body ::
  "'w redis_client \<Rightarrow> codec \<Rightarrow> string \<Rightarrow>
   (resourceRecord \<Rightarrow> bool \<Rightarrow> ('w rworld, resourceRecord result) state) \<Rightarrow>
   ('w rworld, resourceRecord result) state" where
  "casMutate_body c cd key mutate = do {
     got \<leftarrow> getRecordTx c cd key;
     (case got of
        Inl getErr \<Rightarrow> State_Monad.return (Inl getErr)
      | Inr found \<Rightarrow> do {
          m \<leftarrow> mutate (case found of None \<Rightarrow> zero_record | Some r \<Rightarrow> r) (found \<noteq> None);
          (case m of
             Inl mErr \<Rightarrow> State_Monad.return (Inl mErr)
           | Inr r \<Rightarrow> put_tx c cd key r [])
        })
   }"

definition casMutate ::
  "'w redis_client \<Rightarrow> codec \<Rightarrow> string \<Rightarrow>
   (resourceRecord \<Rightarrow> bool \<Rightarrow> ('w rworld, resourceRecord result) state) \<Rightarrow>
   ('w rworld, resourceRecord option result) state" where
  "casMutate c cd key mutate = watchRetry c (casMutate_body c cd key mutate) [key]"

definition casDelete_body ::
  "'w redis_client \<Rightarrow> codec \<Rightarrow> string \<Rightarrow>
   (resourceRecord \<Rightarrow> bool \<Rightarrow> ('w rworld, goerror option) state) \<Rightarrow> ('w rworld, unit result) state" where
  "casDelete_body c cd key precheck = do {
     got \<leftarrow> getRecordTx c cd key;
     (case got of
        Inl getErr \<Rightarrow> State_Monad.return (Inl getErr)
      | Inr found \<Rightarrow> do {
          p \<leftarrow> precheck (case found of None \<Rightarrow> zero_record | Some r \<Rightarrow> r) (found \<noteq> None);
          (case p of
             Some pErr \<Rightarrow> State_Monad.return (Inl pErr)
           | None \<Rightarrow> del_tx c key)
        })
   }"

text \<open>The store's callers see only the error of \<open>casDelete\<close>.\<close>

definition casDelete ::
  "'w redis_client \<Rightarrow> codec \<Rightarrow> string \<Rightarrow>
   (resourceRecord \<Rightarrow> bool \<Rightarrow> ('w rworld, goerror option) state) \<Rightarrow> ('w rworld, unit result) state" where
  "casDelete c cd key precheck = do {
     r \<leftarrow> watchRetry c (casDelete_body c cd key precheck) [key];
     State_Monad.return (case r of Inl e \<Rightarrow> Inl e | Inr _ \<Rightarrow> Inr ())
   }"

type_synonym targetSiblings = "DesireType \<rightharpoonup> resourceRecord"

text \<open>The loop of \<open>casCreate\<close> that reads the siblings.\<close>

primrec load_siblings ::
  "'w redis_client \<Rightarrow> codec \<Rightarrow> Identity \<Rightarrow> DesireType list \<Rightarrow> targetSiblings \<Rightarrow>
   ('w rworld, targetSiblings result) state" where
  "load_siblings c cd i [] sibs = State_Monad.return (Inr sibs)"
| "load_siblings c cd i (t # ts) sibs = do {
     got \<leftarrow> getRecordTx c cd (redisKey (sibling i t));
     (case got of
        Inl getErr \<Rightarrow> State_Monad.return (Inl getErr)
      | Inr None \<Rightarrow> load_siblings c cd i ts sibs
      | Inr (Some r) \<Rightarrow> load_siblings c cd i ts (sibs(t \<mapsto> r)))
   }"

definition casCreate_body ::
  "'w redis_client \<Rightarrow> codec \<Rightarrow> Identity \<Rightarrow>
   (targetSiblings \<Rightarrow> ('w rworld, (resourceRecord \<times> string list) result) state) \<Rightarrow>
   ('w rworld, resourceRecord result) state" where
  "casCreate_body c cd i build = do {
     got \<leftarrow> load_siblings c cd i AllTypes Map.empty;
     (case got of
        Inl getErr \<Rightarrow> State_Monad.return (Inl getErr)
      | Inr sibs \<Rightarrow> do {
          b \<leftarrow> build sibs;
          (case b of
             Inl bErr \<Rightarrow> State_Monad.return (Inl bErr)
           | Inr (newRec, delKeys) \<Rightarrow> put_tx c cd (redisKey (rec_Identity newRec)) newRec delKeys)
        })
   }"

definition casCreate ::
  "'w redis_client \<Rightarrow> codec \<Rightarrow> Identity \<Rightarrow>
   (targetSiblings \<Rightarrow> ('w rworld, (resourceRecord \<times> string list) result) state) \<Rightarrow>
   ('w rworld, resourceRecord option result) state" where
  "casCreate c cd i build =
     watchRetry c (casCreate_body c cd i build) (map (\<lambda>t. redisKey (sibling i t)) AllTypes)"

section \<open>Creating, reading, updating and deleting\<close>

fun first_owner :: "targetSiblings \<Rightarrow> DesireType list \<Rightarrow> string option" where
  "first_owner sibs [] = None"
| "first_owner sibs (t # ts) =
     (case sibs t of Some r \<Rightarrow> Some (rec_Owner r) | None \<Rightarrow> first_owner sibs ts)"

definition red_checkTargetOwner ::
  "string \<Rightarrow> targetSiblings \<Rightarrow> ('w rworld, goerror option) state" where
  "red_checkTargetOwner attempted sibs =
     (case first_owner sibs AllTypes of
        Some owner \<Rightarrow> red_CheckOwner owner attempted
      | None \<Rightarrow> State_Monad.return None)"

text \<open>\<open>projectApplyDesire\<close> of a nil record is the zero desire.\<close>

definition red_projectApply :: "resourceRecord option \<Rightarrow> ApplyDesire" where
  "red_projectApply r = (case r of None \<Rightarrow> zero_ApplyDesire | Some x \<Rightarrow> projectApplyDesire x)"

definition red_projectDelete :: "resourceRecord option \<Rightarrow> DeleteDesire" where
  "red_projectDelete r = projectDeleteDesire (case r of None \<Rightarrow> zero_record | Some x \<Rightarrow> x)"

definition red_projectRead :: "resourceRecord option \<Rightarrow> ReadDesire" where
  "red_projectRead r = projectReadDesire (case r of None \<Rightarrow> zero_record | Some x \<Rightarrow> x)"

definition map_result :: "('a \<Rightarrow> 'b) \<Rightarrow> 'a result \<Rightarrow> 'b result" where
  "map_result f r = (case r of Inl e \<Rightarrow> Inl e | Inr x \<Rightarrow> Inr (f x))"

definition build_apply ::
  "find_fn \<Rightarrow> ApplyDesire \<Rightarrow> targetSiblings \<Rightarrow>
   ('w rworld, (resourceRecord \<times> string list) result) state" where
  "build_apply fnd d sibs = do {
     owner \<leftarrow> red_checkTargetOwner (ad_Owner d) sibs;
     State_Monad.return
       (case owner of
          Some err \<Rightarrow> Inl (wrap (''desire: create apply desire '' @ fmt_identity (ad_Identity d)) err)
        | None \<Rightarrow>
            (case sibs TypeDelete of
               Some deleted \<Rightarrow>
                 if \<not> IsDeleted fnd (rec_Status deleted) then Inl ErrDeletePending
                 else Inr (new_apply_record d, [redisKey (rec_Identity deleted)])
             | None \<Rightarrow>
                 if sibs TypeApply \<noteq> None then Inl ErrAlreadyExists
                 else Inr (new_apply_record d, [])))
   }"

definition red_CreateApplyDesire ::
  "dns_api \<Rightarrow> find_fn \<Rightarrow> 'w redis_client \<Rightarrow> codec \<Rightarrow> ApplyDesire \<Rightarrow>
   ('w rworld, ApplyDesire result) state" where
  "red_CreateApplyDesire v fnd c cd d =
     (case ApplyDesire_Validate v d of
        Some err \<Rightarrow> State_Monad.return (Inl (wrap ''desire: validate apply desire'' err))
      | None \<Rightarrow> do {
          r \<leftarrow> casCreate c cd (ad_Identity d) (build_apply fnd d);
          State_Monad.return (map_result red_projectApply r)
        })"

definition red_GetApplyDesire ::
  "'w redis_client \<Rightarrow> codec \<Rightarrow> Identity \<Rightarrow> ('w rworld, ApplyDesire result) state" where
  "red_GetApplyDesire c cd i = do {
     r \<leftarrow> loadRecord c cd (redisKey i);
     State_Monad.return
       (case r of
          Inl err \<Rightarrow> Inl err
        | Inr x \<Rightarrow> if rec_Apply x = None then Inl ErrNotFound else Inr (projectApplyDesire x))
   }"

definition mutate_spec ::
  "Identity \<Rightarrow> ApplySpec \<Rightarrow> string \<Rightarrow> int64 \<Rightarrow> resourceRecord \<Rightarrow> bool \<Rightarrow>
   ('w rworld, resourceRecord result) state" where
  "mutate_spec i spec owner version r exists =
     (case rec_Apply r of
        None \<Rightarrow> State_Monad.return (Inl ErrNotFound)
      | Some old \<Rightarrow>
          if \<not> exists then State_Monad.return (Inl ErrNotFound)
          else if rec_Version r \<noteq> version then State_Monad.return (Inl ErrVersionConflict)
          else do {
            own \<leftarrow> red_CheckOwner (rec_Owner r) owner;
            State_Monad.return
              (case own of
                 Some err \<Rightarrow> Inl (wrap (''desire: update apply desire spec '' @ fmt_identity i) err)
               | None \<Rightarrow>
                   let cloned = CloneApplySpec spec;
                       r1 = (if \<not> speccompare_Equal old cloned
                             then r\<lparr>rec_Generation := rec_Generation r + 1\<rparr> else r)
                   in Inr (r1\<lparr>rec_Apply := Some cloned, rec_Version := rec_Version r1 + 1\<rparr>))
          })"

definition red_UpdateApplyDesireSpec ::
  "'w redis_client \<Rightarrow> codec \<Rightarrow> Identity \<Rightarrow> ApplySpec \<Rightarrow> string \<Rightarrow> int64 \<Rightarrow>
   ('w rworld, ApplyDesire result) state" where
  "red_UpdateApplyDesireSpec c cd i spec owner version =
     (case ApplySpec_Validate spec of
        Some err \<Rightarrow> State_Monad.return (Inl (wrap ''desire: validate apply spec'' err))
      | None \<Rightarrow> do {
          r \<leftarrow> casMutate c cd (redisKey i) (mutate_spec i spec owner version);
          State_Monad.return (map_result red_projectApply r)
        })"

text \<open>The prechecks of the three deletes; an apply desire must carry a spec.\<close>

definition precheck_delete ::
  "string \<Rightarrow> Identity \<Rightarrow> string \<Rightarrow> int64 \<Rightarrow> resourceRecord \<Rightarrow> bool \<Rightarrow> ('w rworld, goerror option) state" where
  "precheck_delete what i owner version r exists =
     (if \<not> exists then State_Monad.return (Some ErrNotFound)
      else if rec_Version r \<noteq> version then State_Monad.return (Some ErrVersionConflict)
      else do {
        own \<leftarrow> red_CheckOwner (rec_Owner r) owner;
        State_Monad.return
          (case own of
             Some err \<Rightarrow> Some (wrap (''desire: delete '' @ what @ '' desire '' @ fmt_identity i) err)
           | None \<Rightarrow> None)
      })"

definition red_DeleteApplyDesire ::
  "'w redis_client \<Rightarrow> codec \<Rightarrow> Identity \<Rightarrow> string \<Rightarrow> int64 \<Rightarrow> ('w rworld, unit result) state" where
  "red_DeleteApplyDesire c cd i owner version =
     casDelete c cd (redisKey i) (\<lambda>r exists.
       precheck_delete ''apply'' i owner version r (exists \<and> rec_Apply r \<noteq> None))"

definition build_delete ::
  "DeleteDesire \<Rightarrow> targetSiblings \<Rightarrow> ('w rworld, (resourceRecord \<times> string list) result) state" where
  "build_delete d sibs = do {
     owner \<leftarrow> red_checkTargetOwner (dd_Owner d) sibs;
     State_Monad.return
       (case owner of
          Some err \<Rightarrow> Inl (wrap (''desire: create delete desire '' @ fmt_identity (dd_Identity d)) err)
        | None \<Rightarrow>
            if sibs TypeDelete \<noteq> None then Inl ErrAlreadyExists
            else Inr (new_delete_record d,
              (case sibs TypeApply of Some a \<Rightarrow> [redisKey (rec_Identity a)] | None \<Rightarrow> [])))
   }"

definition red_CreateDeleteDesire ::
  "dns_api \<Rightarrow> 'w redis_client \<Rightarrow> codec \<Rightarrow> DeleteDesire \<Rightarrow> ('w rworld, DeleteDesire result) state" where
  "red_CreateDeleteDesire v c cd d =
     (case DeleteDesire_Validate v d of
        Some err \<Rightarrow> State_Monad.return (Inl (wrap ''desire: validate delete desire'' err))
      | None \<Rightarrow> do {
          r \<leftarrow> casCreate c cd (dd_Identity d) (build_delete d);
          State_Monad.return (map_result red_projectDelete r)
        })"

definition red_GetDeleteDesire ::
  "'w redis_client \<Rightarrow> codec \<Rightarrow> Identity \<Rightarrow> ('w rworld, DeleteDesire result) state" where
  "red_GetDeleteDesire c cd i =
     (if DesireTypeOf i \<noteq> TypeDelete then State_Monad.return (Inl ErrNotFound)
      else do {
        r \<leftarrow> loadRecord c cd (redisKey i);
        State_Monad.return (map_result projectDeleteDesire r)
      })"

definition red_DeleteDeleteDesire ::
  "'w redis_client \<Rightarrow> codec \<Rightarrow> Identity \<Rightarrow> string \<Rightarrow> int64 \<Rightarrow> ('w rworld, unit result) state" where
  "red_DeleteDeleteDesire c cd i owner version =
     (if DesireTypeOf i \<noteq> TypeDelete then State_Monad.return (Inl ErrNotFound)
      else casDelete c cd (redisKey i) (precheck_delete ''delete'' i owner version))"

definition build_read ::
  "ReadDesire \<Rightarrow> targetSiblings \<Rightarrow> ('w rworld, (resourceRecord \<times> string list) result) state" where
  "build_read d sibs = do {
     owner \<leftarrow> red_checkTargetOwner (rd_Owner d) sibs;
     State_Monad.return
       (case owner of
          Some err \<Rightarrow> Inl (wrap (''desire: create read desire '' @ fmt_identity (rd_Identity d)) err)
        | None \<Rightarrow>
            if sibs TypeRead \<noteq> None then Inl ErrAlreadyExists else Inr (new_read_record d, []))
   }"

definition red_CreateReadDesire ::
  "dns_api \<Rightarrow> 'w redis_client \<Rightarrow> codec \<Rightarrow> ReadDesire \<Rightarrow> ('w rworld, ReadDesire result) state" where
  "red_CreateReadDesire v c cd d =
     (case ReadDesire_Validate v d of
        Some err \<Rightarrow> State_Monad.return (Inl (wrap ''desire: validate read desire'' err))
      | None \<Rightarrow> do {
          r \<leftarrow> casCreate c cd (rd_Identity d) (build_read d);
          State_Monad.return (map_result red_projectRead r)
        })"

definition red_GetReadDesire ::
  "'w redis_client \<Rightarrow> codec \<Rightarrow> Identity \<Rightarrow> ('w rworld, ReadDesire result) state" where
  "red_GetReadDesire c cd i =
     (if DesireTypeOf i \<noteq> TypeRead then State_Monad.return (Inl ErrNotFound)
      else do {
        r \<leftarrow> loadRecord c cd (redisKey i);
        State_Monad.return (map_result projectReadDesire r)
      })"

definition red_DeleteReadDesire ::
  "'w redis_client \<Rightarrow> codec \<Rightarrow> Identity \<Rightarrow> string \<Rightarrow> int64 \<Rightarrow> ('w rworld, unit result) state" where
  "red_DeleteReadDesire c cd i owner version =
     (if DesireTypeOf i \<noteq> TypeRead then State_Monad.return (Inl ErrNotFound)
      else casDelete c cd (redisKey i) (precheck_delete ''read'' i owner version))"

section \<open>Listing and prefix delete\<close>

text \<open>
  The batch loop of \<open>scanKeys\<close> keeps the keys not seen before, in order. SCAN need not end, so the
  loop has fuel and running out of it is \<^term>\<open>None\<close>.
\<close>

primrec collect_keys :: "string list \<Rightarrow> string list \<Rightarrow> string list" where
  "collect_keys keys [] = keys"
| "collect_keys keys (k # ks) = collect_keys (if k \<in> set keys then keys else keys @ [k]) ks"

primrec scan_loop ::
  "nat \<Rightarrow> 'w redis_client \<Rightarrow> string \<Rightarrow> uint64 \<Rightarrow> string list \<Rightarrow>
   ('w rworld, string list result option) state" where
  "scan_loop 0 c pattern cursor keys = State_Monad.return None"
| "scan_loop (Suc fuel) c pattern cursor keys = do {
     r \<leftarrow> on_server (cl_Scan c cursor pattern scanCount);
     (case r of
        Inl err \<Rightarrow> State_Monad.return (Some (Inl (wrap (''desire: scan '' @ pattern) err)))
      | Inr (batch, nxt) \<Rightarrow>
          (let keys' = collect_keys keys batch in
           if nxt = 0 then State_Monad.return (Some (Inr keys'))
           else scan_loop fuel c pattern nxt keys'))
   }"

definition scanKeys ::
  "nat \<Rightarrow> 'w redis_client \<Rightarrow> string \<Rightarrow> ('w rworld, string list result option) state" where
  "scanKeys fuel c pattern = scan_loop fuel c pattern 0 []"

text \<open>\<open>copy(values[start:end], batch)\<close> into a slice of nils.\<close>

definition copy_batch :: "nat \<Rightarrow> redis_value list \<Rightarrow> redis_value list" where
  "copy_batch n batch = take n (batch @ replicate n NilValue)"

function mget_loop ::
  "'w redis_client \<Rightarrow> string list \<Rightarrow> ('w rworld, redis_value list result) state" where
  "mget_loop c keys =
     (if keys = [] then State_Monad.return (Inr [])
      else do {
        r \<leftarrow> on_server (cl_MGet c (take mgetBatch keys));
        (case r of
           Inl err \<Rightarrow> State_Monad.return (Inl (wrap ''desire: mget'' err))
         | Inr batch \<Rightarrow> do {
             rest \<leftarrow> mget_loop c (drop mgetBatch keys);
             State_Monad.return
               (map_result (\<lambda>vs. copy_batch (length (take mgetBatch keys)) batch @ vs) rest)
           })
      })"
  by pat_completeness auto
termination
  by (relation "measure (\<lambda>(c, keys). length keys)") (auto simp: mgetBatch_def)

declare mget_loop.simps [simp del]

primrec decode_values ::
  "codec \<Rightarrow> (string \<times> redis_value) list \<Rightarrow> (string \<times> resourceRecord) list result" where
  "decode_values cd [] = Inr []"
| "decode_values cd (kv # kvs) =
     (case snd kv of
        NilValue \<Rightarrow> decode_values cd kvs
      | OtherValue T \<Rightarrow>
          Inl (ErrorString (''desire: unexpected value type for key '' @ quote (fst kv) @ '': '' @ T))
      | StringValue str \<Rightarrow>
          (case json_Unmarshal cd str of
             Inl err \<Rightarrow> Inl (wrap (''desire: decoding record '' @ quote (fst kv)) err)
           | Inr r \<Rightarrow> map_result (\<lambda>rs. (fst kv, r) # rs) (decode_values cd kvs)))"

definition loadClusterRecords ::
  "nat \<Rightarrow> 'w redis_client \<Rightarrow> codec \<Rightarrow> string \<Rightarrow>
   ('w rworld, (string \<times> resourceRecord) list result option) state" where
  "loadClusterRecords fuel c cd mc = do {
     scanned \<leftarrow> scanKeys fuel c (mcScanPrefix mc @ ''*'');
     (case scanned of
        None \<Rightarrow> State_Monad.return None
      | Some (Inl err) \<Rightarrow> State_Monad.return (Some (Inl err))
      | Some (Inr keys) \<Rightarrow>
          if length keys = 0 then State_Monad.return (Some (Inr []))
          else do {
            got \<leftarrow> mget_loop c keys;
            State_Monad.return (Some
              (case got of Inl err \<Rightarrow> Inl err | Inr values \<Rightarrow> decode_values cd (zip keys values)))
          })
   }"

definition list_type ::
  "DesireType \<Rightarrow> (resourceRecord \<Rightarrow> 'd) \<Rightarrow> (string \<times> resourceRecord) list \<Rightarrow> 'd list" where
  "list_type t project records =
     map (\<lambda>(k, r). project r) (filter (\<lambda>(k, r). DesireTypeOf (rec_Identity r) = t) records)"

definition red_ListApplyDesires ::
  "nat \<Rightarrow> 'w redis_client \<Rightarrow> codec \<Rightarrow> string \<Rightarrow> ('w rworld, ApplyDesire list result option) state" where
  "red_ListApplyDesires fuel c cd mc = do {
     r \<leftarrow> loadClusterRecords fuel c cd mc;
     State_Monad.return (map_option (map_result (list_type TypeApply projectApplyDesire)) r)
   }"

definition red_ListDeleteDesires ::
  "nat \<Rightarrow> 'w redis_client \<Rightarrow> codec \<Rightarrow> string \<Rightarrow> ('w rworld, DeleteDesire list result option) state" where
  "red_ListDeleteDesires fuel c cd mc = do {
     r \<leftarrow> loadClusterRecords fuel c cd mc;
     State_Monad.return (map_option (map_result (list_type TypeDelete projectDeleteDesire)) r)
   }"

definition red_ListReadDesires ::
  "nat \<Rightarrow> 'w redis_client \<Rightarrow> codec \<Rightarrow> string \<Rightarrow> ('w rworld, ReadDesire list result option) state" where
  "red_ListReadDesires fuel c cd mc = do {
     r \<leftarrow> loadClusterRecords fuel c cd mc;
     State_Monad.return (map_option (map_result (list_type TypeRead projectReadDesire)) r)
   }"

definition precheck_prefix ::
  "PrefixSelector \<Rightarrow> resourceRecord \<Rightarrow> bool \<Rightarrow> ('w rworld, goerror option) state" where
  "precheck_prefix sel r exists =
     State_Monad.return (if \<not> exists \<or> \<not> Matches sel (rec_Identity r) then Some ErrCASNoop else None)"

primrec delete_records ::
  "'w redis_client \<Rightarrow> codec \<Rightarrow> PrefixSelector \<Rightarrow> (string \<times> resourceRecord) list \<Rightarrow>
   ('w rworld, unit result) state" where
  "delete_records c cd sel [] = State_Monad.return (Inr ())"
| "delete_records c cd sel (cr # crs) =
     (if \<not> Matches sel (rec_Identity (snd cr)) then delete_records c cd sel crs
      else do {
        r \<leftarrow> casDelete c cd (fst cr) (precheck_prefix sel);
        (case r of
           Inl err \<Rightarrow> State_Monad.return (Inl err)
         | Inr u \<Rightarrow> delete_records c cd sel crs)
      })"

definition red_DeleteByPrefix ::
  "nat \<Rightarrow> 'w redis_client \<Rightarrow> codec \<Rightarrow> string \<Rightarrow> PrefixSelector \<Rightarrow>
   ('w rworld, unit result option) state" where
  "red_DeleteByPrefix fuel c cd mc sel = do {
     r \<leftarrow> loadClusterRecords fuel c cd mc;
     (case r of
        None \<Rightarrow> State_Monad.return None
      | Some (Inl err) \<Rightarrow> State_Monad.return (Some (Inl err))
      | Some (Inr records) \<Rightarrow> do {
          d \<leftarrow> delete_records c cd sel records;
          State_Monad.return (Some d)
        })
   }"

section \<open>Status updates\<close>

definition mutate_apply_status ::
  "Status \<Rightarrow> int64 \<Rightarrow> resourceRecord \<Rightarrow> bool \<Rightarrow> ('w rworld, resourceRecord result) state" where
  "mutate_apply_status status version r exists =
     State_Monad.return
       (if \<not> exists \<or> rec_Apply r = None then Inl ErrNotFound
        else if rec_Version r \<noteq> version then Inl ErrVersionConflict
        else Inr (r\<lparr>rec_Status := CloneStatus status, rec_Version := rec_Version r + 1\<rparr>))"

definition red_UpdateApplyDesireStatus ::
  "'w redis_client \<Rightarrow> codec \<Rightarrow> Identity \<Rightarrow> Status \<Rightarrow> int64 \<Rightarrow> ('w rworld, ApplyDesire result) state" where
  "red_UpdateApplyDesireStatus c cd i status version = do {
     r \<leftarrow> casMutate c cd (redisKey i) (mutate_apply_status status version);
     State_Monad.return (map_result red_projectApply r)
   }"

definition mutate_delete_status ::
  "Status \<Rightarrow> int64 \<Rightarrow> resourceRecord \<Rightarrow> bool \<Rightarrow> ('w rworld, resourceRecord result) state" where
  "mutate_delete_status status version r exists =
     State_Monad.return
       (if \<not> exists then Inl ErrNotFound
        else if rec_Version r \<noteq> version then Inl ErrVersionConflict
        else Inr (r\<lparr>rec_Status := CloneStatus status, rec_Version := rec_Version r + 1\<rparr>))"

definition red_UpdateDeleteDesireStatus ::
  "'w redis_client \<Rightarrow> codec \<Rightarrow> Identity \<Rightarrow> Status \<Rightarrow> int64 \<Rightarrow> ('w rworld, DeleteDesire result) state" where
  "red_UpdateDeleteDesireStatus c cd i status version =
     (if DesireTypeOf i \<noteq> TypeDelete then State_Monad.return (Inl ErrNotFound)
      else do {
        r \<leftarrow> casMutate c cd (redisKey i) (mutate_delete_status status version);
        State_Monad.return (map_result red_projectDelete r)
      })"

definition mutate_read_status ::
  "ReadStatus \<Rightarrow> resourceRecord \<Rightarrow> bool \<Rightarrow> ('w rworld, resourceRecord result) state" where
  "mutate_read_status status r exists =
     State_Monad.return
       (if \<not> exists then Inl ErrNotFound else Inr (r\<lparr>rec_ReadStatus := CloneReadStatus status\<rparr>))"

definition red_UpdateReadDesireStatus ::
  "'w redis_client \<Rightarrow> codec \<Rightarrow> Identity \<Rightarrow> ReadStatus \<Rightarrow> ('w rworld, ReadDesire result) state" where
  "red_UpdateReadDesireStatus c cd i status =
     (if DesireTypeOf i \<noteq> TypeRead then State_Monad.return (Inl ErrNotFound)
      else do {
        r \<leftarrow> casMutate c cd (redisKey i) (mutate_read_status status);
        State_Monad.return (map_result red_projectRead r)
      })"

end
