(* ===== verification/RedisServer.thy ===== *)
theory RedisServer
  imports Redis StoreContract
begin

text \<open>
  What the Redis-backed store relies on of the server, the client and the record encoding, as locales:
  \<open>redis_server\<close> states the documented behaviour of GET, WATCH, MULTI/EXEC, MGET and SCAN while other
  clients act between any two commands, \<open>record_codec\<close> the round trip of a record. A server whose
  behaviour is driven by a schedule of foreign commands and failures satisfies the first.
\<close>

section \<open>Commands on the key space\<close>

type_synonym keyspace = "string \<rightharpoonup> bytes"

fun apply_cmd :: "redis_cmd \<Rightarrow> keyspace \<Rightarrow> keyspace" where
  "apply_cmd (SetCmd k b) m = m(k \<mapsto> b)"
| "apply_cmd (DelCmd k) m = m(k := None)"

abbreviation apply_cmds :: "redis_cmd list \<Rightarrow> keyspace \<Rightarrow> keyspace" where
  "apply_cmds cmds m \<equiv> fold apply_cmd cmds m"

definition glob_meta :: "char set" where
  "glob_meta = {CHR 0x5C, CHR ''*'', CHR ''?'', CHR ''['', CHR '']''}"

text \<open>
  The sentinels the store tells apart; no error of the network, the server or a context is one.
\<close>

definition store_sentinels :: "goerror list" where
  "store_sentinels = [ErrNotFound, ErrAlreadyExists, ErrVersionConflict, ErrAborted, ErrOwnerConflict,
     ErrDeletePending, ErrCASNoop, TxFailedErr, RedisNil]"

definition foreign_error :: "goerror \<Rightarrow> bool" where
  "foreign_error e \<longleftrightarrow> (\<forall>s\<in>set store_sentinels. \<not> errors_Is e s)"

lemma foreign_errorD:
  "foreign_error e \<Longrightarrow> \<not> errors_Is e ErrNotFound" "foreign_error e \<Longrightarrow> \<not> errors_Is e ErrAlreadyExists"
  "foreign_error e \<Longrightarrow> \<not> errors_Is e ErrVersionConflict" "foreign_error e \<Longrightarrow> \<not> errors_Is e ErrAborted"
  "foreign_error e \<Longrightarrow> \<not> errors_Is e ErrOwnerConflict" "foreign_error e \<Longrightarrow> \<not> errors_Is e ErrDeletePending"
  "foreign_error e \<Longrightarrow> \<not> errors_Is e ErrCASNoop" "foreign_error e \<Longrightarrow> \<not> errors_Is e TxFailedErr"
  "foreign_error e \<Longrightarrow> \<not> errors_Is e RedisNil"
  by (simp_all add: foreign_error_def store_sentinels_def)

lemma foreign_wrap [simp]: "foreign_error (Wrapf p e q) \<longleftrightarrow> foreign_error e"
  by (simp add: foreign_error_def store_sentinels_def)

section \<open>The server\<close>

text \<open>
  \<open>db\<close> is the key space, \<open>watched\<close> the keys this connection watches with the values they had when it
  began, \<open>clean\<close> that none of them was touched since. \<open>env\<close> is what other clients may do to the key
  space between two commands, \<open>sane\<close> the worlds in which they keep to it. A failed command may report
  any foreign error; a failed EXEC may have been executed nevertheless.
\<close>

locale redis_server =
  fixes c :: "'w redis_client"
    and db :: "'w \<Rightarrow> keyspace"
    and watched :: "'w \<Rightarrow> string \<rightharpoonup> bytes option"
    and clean :: "'w \<Rightarrow> bool"
    and env :: "keyspace \<Rightarrow> keyspace \<Rightarrow> bool"
    and sane :: "'w \<Rightarrow> bool"
    and glob :: "string \<Rightarrow> string \<Rightarrow> bool"
    and pending :: "string \<Rightarrow> uint64 \<Rightarrow> string \<Rightarrow> bool"
    and remaining :: "uint64 \<Rightarrow> nat"
  assumes env_refl: "env m m"
    and env_trans: "env m m' \<Longrightarrow> env m' m'' \<Longrightarrow> env m m''"
    and get_law: "sane w \<Longrightarrow> cl_Get c k w = (r, w') \<Longrightarrow>
      sane w' \<and> env (db w) (db w') \<and>
      (case r of Inr b \<Rightarrow> db w' k = Some b
               | Inl e \<Rightarrow> (e = RedisNil \<and> db w' k = None) \<or> foreign_error e)"
    and watch_law: "sane w \<Longrightarrow> cl_Watch c ks w = (e, w') \<Longrightarrow>
      sane w' \<and> env (db w) (db w') \<and>
      (case e of Some err \<Rightarrow> foreign_error err
               | None \<Rightarrow> clean w' \<and> watched w' = (\<lambda>k. if k \<in> set ks then Some (db w' k) else None))"
    and txget_law: "sane w \<Longrightarrow> cl_TxGet c k w = (r, w') \<Longrightarrow>
      sane w' \<and> env (db w) (db w') \<and> watched w' = watched w \<and>
      (clean w' \<longrightarrow> clean w \<and> (\<forall>k x. watched w k = Some x \<longrightarrow> db w' k = x)) \<and>
      (case r of Inr b \<Rightarrow> db w' k = Some b
               | Inl e \<Rightarrow> (e = RedisNil \<and> db w' k = None) \<or> foreign_error e)"
    and exec_law: "sane w \<Longrightarrow> cl_Exec c cmds w = (e, w') \<Longrightarrow>
      sane w' \<and>
      (let ran = clean w \<and> (\<exists>m. env (db w) m \<and> (\<forall>k x. watched w k = Some x \<longrightarrow> m k = x) \<and>
                   db w' = apply_cmds cmds m)
       in case e of
            None \<Rightarrow> ran
          | Some err \<Rightarrow> (err = TxFailedErr \<and> env (db w) (db w')) \<or>
                        (foreign_error err \<and> (env (db w) (db w') \<or> ran)))"
    and close_law: "sane w \<Longrightarrow> cl_Close c w = w' \<Longrightarrow> sane w' \<and> env (db w) (db w')"
    and backoff_law: "sane w \<Longrightarrow> cl_Backoff c n w = (e, w') \<Longrightarrow>
      sane w' \<and> env (db w) (db w') \<and> (\<forall>err. e = Some err \<longrightarrow> foreign_error err)"
    and mget_law: "sane w \<Longrightarrow> cl_MGet c ks w = (vals, w') \<Longrightarrow>
      sane w' \<and> env (db w) (db w') \<and>
      (case vals of Inl e \<Rightarrow> foreign_error e
               | Inr vs \<Rightarrow> vs = map (\<lambda>k. case db w' k of None \<Rightarrow> NilValue | Some b \<Rightarrow> StringValue b) ks)"
    and scan_law: "sane w \<Longrightarrow> cl_Scan c cur pat n w = (page, w') \<Longrightarrow>
      sane w' \<and> env (db w) (db w') \<and>
      (case page of Inl e \<Rightarrow> foreign_error e
               | Inr (ks, nxt) \<Rightarrow>
                   (\<forall>k\<in>set ks. glob pat k) \<and> (nxt \<noteq> 0 \<longrightarrow> remaining nxt < remaining cur) \<and>
                   (\<forall>k. db w' k \<noteq> None \<and> pending pat cur k \<longrightarrow>
                      k \<in> set ks \<or> (nxt \<noteq> 0 \<and> pending pat nxt k)))"
    and scan_start: "glob pat k \<Longrightarrow> pending pat 0 k"
    and glob_prefix: "set lit \<inter> glob_meta = {} \<Longrightarrow> glob (lit @ ''*'') k \<longleftrightarrow> prefix lit k"

section \<open>The record encoding\<close>

text \<open>
  Which records come back from their encoding as they were: \<open>stable_text\<close> holds of the strings the
  encoder does not rewrite (valid UTF-8), \<open>stable_json\<close> of the raw JSON it does not rewrite (compact),
  \<open>stable_conds\<close> of the condition lists it keeps (times in whole seconds).
\<close>

record stability =
  stable_text :: "string \<Rightarrow> bool"
  stable_json :: "bytes \<Rightarrow> bool"
  stable_conds :: "Condition list \<Rightarrow> bool"

definition stable_identity :: "stability \<Rightarrow> Identity \<Rightarrow> bool" where
  "stable_identity st i \<longleftrightarrow> stable_text st (ManagementCluster i) \<and> stable_text st (DesireTypeOf i) \<and>
     stable_text st (Group i) \<and> stable_text st (Resource i) \<and> stable_text st (Namespace i) \<and>
     stable_text st (Name i)"

definition stable_read_status :: "stability \<Rightarrow> ReadStatus \<Rightarrow> bool" where
  "stable_read_status st s \<longleftrightarrow> stable_conds st (Conditions (rs_Status s)) \<and>
     (rs_KubeContent s = [] \<or> stable_json st (rs_KubeContent s))"

definition stable_record :: "stability \<Rightarrow> resourceRecord \<Rightarrow> bool" where
  "stable_record st r \<longleftrightarrow> stable_identity st (rec_Identity r) \<and> stable_text st (rec_OriginID r) \<and>
     stable_text st (rec_Owner r) \<and> stable_text st (rec_TargetVersion r) \<and>
     stable_read_status st (rec_ReadStatus r) \<and> stable_conds st (Conditions (rec_Status r)) \<and>
     (case rec_Apply r of None \<Rightarrow> True | Some sp \<Rightarrow> stable_json st (KubeContent sp))"

locale record_codec =
  fixes cd :: codec and st :: stability
  assumes roundtrip: "stable_record st r \<Longrightarrow>
      \<exists>b. json_Marshal cd r = Inr b \<and> json_Unmarshal cd b = Inr r"
    and stable_empty: "stable_text st []" "stable_conds st []"

section \<open>A server under a schedule\<close>

text \<open>
  A server that behaves as documented. Before each command of this connection the next step of the
  schedule takes place: the transactions of other clients, and the error the command is to fail with (an
  EXEC that fails this way was executed or not, as the step says). After the schedule nothing
  interferes. SCAN pages through four buckets of keys.
\<close>

record srv_step =
  other_txs :: "redis_cmd list list"
  srv_error :: "goerror option"
  exec_ran :: bool

record server =
  sv_db :: "(string \<times> bytes) list"
  sv_watch :: "(string \<times> bytes option) list"
  sv_dirty :: bool
  sv_schedule :: "srv_step list"

definition cmd_key :: "redis_cmd \<Rightarrow> string" where
  "cmd_key cmd = (case cmd of SetCmd k b \<Rightarrow> k | DelCmd k \<Rightarrow> k)"

definition alist_cmd :: "redis_cmd \<Rightarrow> (string \<times> bytes) list \<Rightarrow> (string \<times> bytes) list" where
  "alist_cmd cmd xs =
     (case cmd of SetCmd k b \<Rightarrow> (k, b) # filter (\<lambda>p. fst p \<noteq> k) xs
                | DelCmd k \<Rightarrow> filter (\<lambda>p. fst p \<noteq> k) xs)"

definition next_step :: "server \<Rightarrow> srv_step \<times> server" where
  "next_step s =
     (case sv_schedule s of
        [] \<Rightarrow> (\<lparr>other_txs = [], srv_error = None, exec_ran = False\<rparr>, s)
      | x # xs \<Rightarrow> (x, s\<lparr>sv_schedule := xs, sv_db := fold alist_cmd (concat (other_txs x)) (sv_db s),
          sv_dirty := (sv_dirty s \<or> (\<exists>cmd\<in>set (concat (other_txs x)). cmd_key cmd \<in> fst ` set (sv_watch s)))\<rparr>))"

definition srv_get :: "string \<Rightarrow> server \<Rightarrow> bytes result \<times> server" where
  "srv_get k s =
     (case next_step s of (x, s1) \<Rightarrow>
        (case srv_error x of
           Some e \<Rightarrow> (Inl e, s1)
         | None \<Rightarrow> (case map_of (sv_db s1) k of None \<Rightarrow> Inl RedisNil | Some b \<Rightarrow> Inr b, s1)))"

definition srv_watch :: "string list \<Rightarrow> server \<Rightarrow> goerror option \<times> server" where
  "srv_watch ks s =
     (case next_step s of (x, s1) \<Rightarrow>
        (case srv_error x of
           Some e \<Rightarrow> (Some e, s1)
         | None \<Rightarrow> (None, s1\<lparr>sv_watch := map (\<lambda>k. (k, map_of (sv_db s1) k)) ks, sv_dirty := False\<rparr>)))"

definition srv_exec :: "redis_cmd list \<Rightarrow> server \<Rightarrow> goerror option \<times> server" where
  "srv_exec cmds s =
     (case next_step s of (x, s1) \<Rightarrow>
        let s2 = s1\<lparr>sv_db := fold alist_cmd cmds (sv_db s1), sv_watch := []\<rparr> in
        (case srv_error x of
           Some e \<Rightarrow> (Some e, if exec_ran x \<and> \<not> sv_dirty s1 then s2 else s1)
         | None \<Rightarrow> if sv_dirty s1 then (Some TxFailedErr, s1\<lparr>sv_watch := []\<rparr>) else (None, s2)))"

definition srv_pause :: "int64 \<Rightarrow> server \<Rightarrow> goerror option \<times> server" where
  "srv_pause n s = (case next_step s of (x, s1) \<Rightarrow> (srv_error x, s1))"

definition srv_mget :: "string list \<Rightarrow> server \<Rightarrow> redis_value list result \<times> server" where
  "srv_mget ks s =
     (case next_step s of (x, s1) \<Rightarrow>
        (case srv_error x of
           Some e \<Rightarrow> (Inl e, s1)
         | None \<Rightarrow> (Inr (map (\<lambda>k. case map_of (sv_db s1) k of None \<Rightarrow> NilValue
                                   | Some b \<Rightarrow> StringValue b) ks), s1)))"

definition srv_bucket :: "string \<Rightarrow> uint64" where
  "srv_bucket k = of_nat (length k mod 4)"

definition srv_glob :: "string \<Rightarrow> string \<Rightarrow> bool" where
  "srv_glob pat k \<longleftrightarrow> prefix (butlast pat) k"

definition srv_scan :: "uint64 \<Rightarrow> string \<Rightarrow> int64 \<Rightarrow> server \<Rightarrow> (string list \<times> uint64) result \<times> server" where
  "srv_scan cur pat n s =
     (case next_step s of (x, s1) \<Rightarrow>
        (case srv_error x of
           Some e \<Rightarrow> (Inl e, s1)
         | None \<Rightarrow>
             (Inr (filter (\<lambda>k. srv_glob pat k \<and> srv_bucket k = cur) (map fst (sv_db s1)),
                   if cur < 3 then cur + 1 else 0), s1)))"

definition server_client :: "server redis_client" where
  "server_client = \<lparr>cl_Get = srv_get, cl_Watch = srv_watch, cl_TxGet = srv_get, cl_Exec = srv_exec,
     cl_Close = (\<lambda>s. s\<lparr>sv_watch := []\<rparr>), cl_MGet = srv_mget, cl_Scan = srv_scan, cl_Backoff = srv_pause\<rparr>"

text \<open>
  Other clients run transactions that satisfy \<open>P\<close>, and commands fail with foreign errors only.
\<close>

definition others :: "(redis_cmd list \<Rightarrow> bool) \<Rightarrow> keyspace \<Rightarrow> keyspace \<Rightarrow> bool" where
  "others P m m' \<longleftrightarrow> (\<exists>txs. list_all P txs \<and> m' = apply_cmds (concat txs) m)"

definition server_sane :: "(redis_cmd list \<Rightarrow> bool) \<Rightarrow> server \<Rightarrow> bool" where
  "server_sane P s \<longleftrightarrow>
     list_all (\<lambda>x. list_all P (other_txs x) \<and> pred_option foreign_error (srv_error x)) (sv_schedule s) \<and>
     (\<not> sv_dirty s \<longrightarrow> (\<forall>k x. map_of (sv_watch s) k = Some x \<longrightarrow> map_of (sv_db s) k = x))"

lemma map_of_filter_key: "map_of (filter (\<lambda>p. fst p \<noteq> k) xs) = (map_of xs)(k := None)"
  by (induction xs) (auto simp: fun_eq_iff)

lemma map_of_alist_cmd: "map_of (alist_cmd cmd xs) = apply_cmd cmd (map_of xs)"
  by (cases cmd) (simp_all add: alist_cmd_def map_of_filter_key fun_eq_iff)

lemma map_of_alist_cmds: "map_of (fold alist_cmd cmds xs) = apply_cmds cmds (map_of xs)"
  by (induction cmds arbitrary: xs) (simp_all add: map_of_alist_cmd)

lemma apply_cmds_other: "\<forall>cmd\<in>set cmds. cmd_key cmd \<noteq> k \<Longrightarrow> apply_cmds cmds m k = m k"
proof (induction cmds arbitrary: m)
  case (Cons cmd cmds)
  then show ?case by (cases cmd) (auto simp: cmd_key_def)
qed simp

lemma others_refl: "others P m m"
  unfolding others_def by (intro exI [of _ "[]"]) simp

lemma others_trans: "others P m m' \<Longrightarrow> others P m' m'' \<Longrightarrow> others P m m''"
  unfolding others_def by clarify (metis concat_append fold_append comp_apply list_all_append)

text \<open>One step of the schedule: it keeps the world sane, and a connection that is clean after it was
  clean before it and sees its watched keys unchanged.\<close>

lemma next_step_law:
  assumes "server_sane P s" and "next_step s = (x, s1)"
  shows "server_sane P s1" "others P (map_of (sv_db s)) (map_of (sv_db s1))" "sv_watch s1 = sv_watch s"
    "\<not> sv_dirty s1 \<Longrightarrow> \<not> sv_dirty s" "srv_error x = Some e \<Longrightarrow> foreign_error e"
proof -
  have watch: "map_of (sv_db s1) k = b"
    if "\<not> sv_dirty s1" "map_of (sv_watch s) k = Some b" for k b
  proof -
    have "k \<in> fst ` set (sv_watch s)" using that(2) by (force dest: map_of_SomeD)
    then have "map_of (sv_db s1) k = map_of (sv_db s) k"
      using assms(2) that(1)
      by (auto simp: next_step_def map_of_alist_cmds simp del: map_of_eq_None_iff set_concat
          split: list.splits intro!: apply_cmds_other) force
    then show ?thesis
      using assms that by (auto simp: next_step_def server_sane_def split: list.splits)
  qed
  show "server_sane P s1" "others P (map_of (sv_db s)) (map_of (sv_db s1))" "sv_watch s1 = sv_watch s"
    "\<not> sv_dirty s1 \<Longrightarrow> \<not> sv_dirty s" "srv_error x = Some e \<Longrightarrow> foreign_error e"
    using assms watch others_refl
    by (auto simp: next_step_def server_sane_def others_def map_of_alist_cmds split: list.splits)
qed

definition srv_pending :: "string \<Rightarrow> uint64 \<Rightarrow> string \<Rightarrow> bool" where
  "srv_pending pat cur k \<longleftrightarrow> srv_glob pat k \<and> cur \<le> srv_bucket k"

definition srv_remaining :: "uint64 \<Rightarrow> nat" where
  "srv_remaining cur = 4 - unat cur"

lemma bucket_less: "srv_bucket k < 4"
  by (simp add: srv_bucket_def word_less_nat_alt unat_of_nat)

text \<open>The laws of the single commands.\<close>

lemma srv_get_law:
  assumes "server_sane P w" and "srv_get k w = (r, w')"
  shows "server_sane P w' \<and> others P (map_of (sv_db w)) (map_of (sv_db w')) \<and> sv_watch w' = sv_watch w \<and>
    (\<not> sv_dirty w' \<longrightarrow> \<not> sv_dirty w \<and> (\<forall>k x. map_of (sv_watch w) k = Some x \<longrightarrow> map_of (sv_db w') k = x)) \<and>
    (case r of Inr b \<Rightarrow> map_of (sv_db w') k = Some b
             | Inl e \<Rightarrow> (e = RedisNil \<and> map_of (sv_db w') k = None) \<or> foreign_error e)"
proof -
  obtain x s1 where n: "next_step w = (x, s1)" by fastforce
  note law = next_step_law [OF assms(1) n]
  have w': "w' = s1" using assms(2) n by (simp add: srv_get_def split: option.splits)
  have "\<not> sv_dirty s1 \<Longrightarrow> map_of (sv_watch w) k = Some x \<Longrightarrow> map_of (sv_db s1) k = x" for k x
    using law(1,3) by (simp add: server_sane_def)
  then show ?thesis
    using assms(2) n law unfolding w'
    by (auto simp: srv_get_def simp del: map_of_eq_Some_iff map_of_eq_None_iff split: option.splits)
qed

lemma srv_watch_law:
  assumes "server_sane P w" and "srv_watch ks w = (e, w')"
  shows "server_sane P w' \<and> others P (map_of (sv_db w)) (map_of (sv_db w')) \<and>
    (case e of Some err \<Rightarrow> foreign_error err
             | None \<Rightarrow> \<not> sv_dirty w' \<and> map_of (sv_watch w') = (\<lambda>k. if k \<in> set ks then Some (map_of (sv_db w') k) else None))"
proof -
  obtain x s1 where n: "next_step w = (x, s1)" by fastforce
  have "map_of (map (\<lambda>k. (k, f k)) ks) k = (if k \<in> set ks then Some (f k) else None)" for f :: "string \<Rightarrow> bytes option" and k
    by (induction ks) auto
  then show ?thesis
    using assms(2) n next_step_law [OF assms(1) n]
    by (auto simp: srv_watch_def server_sane_def fun_eq_iff split: option.splits if_splits)
qed

lemma srv_exec_law:
  assumes "server_sane P w" and "srv_exec cmds w = (e, w')"
  shows "server_sane P w' \<and>
    (let ran = \<not> sv_dirty w \<and> (\<exists>m. others P (map_of (sv_db w)) m \<and>
                 (\<forall>k x. map_of (sv_watch w) k = Some x \<longrightarrow> m k = x) \<and> map_of (sv_db w') = apply_cmds cmds m)
     in case e of
          None \<Rightarrow> ran
        | Some err \<Rightarrow> (err = TxFailedErr \<and> others P (map_of (sv_db w)) (map_of (sv_db w'))) \<or>
                      (foreign_error err \<and> (others P (map_of (sv_db w)) (map_of (sv_db w')) \<or> ran)))"
proof -
  obtain x s1 where n: "next_step w = (x, s1)" by fastforce
  note law = next_step_law [OF assms(1) n]
  have keep: "\<not> sv_dirty s1 \<Longrightarrow> \<forall>k x. map_of (sv_watch w) k = Some x \<longrightarrow> map_of (sv_db s1) k = x"
    using law(1,3) by (simp add: server_sane_def)
  have sane: "server_sane P (s1\<lparr>sv_db := d, sv_watch := []\<rparr>)" "server_sane P (s1\<lparr>sv_watch := []\<rparr>)" for d
    using law(1) by (simp_all add: server_sane_def)
  show ?thesis
    using assms(2) n law keep sane
    by (auto simp: srv_exec_def Let_def map_of_alist_cmds simp del: map_of_eq_Some_iff
        split: option.splits if_splits)
qed

lemma srv_scan_law:
  assumes "server_sane P w" and "srv_scan cur pat n w = (page, w')"
  shows "server_sane P w' \<and> others P (map_of (sv_db w)) (map_of (sv_db w')) \<and>
    (case page of Inl e \<Rightarrow> foreign_error e
     | Inr (ks, nxt) \<Rightarrow>
         (\<forall>k\<in>set ks. srv_glob pat k) \<and> (nxt \<noteq> 0 \<longrightarrow> srv_remaining nxt < srv_remaining cur) \<and>
         (\<forall>k. map_of (sv_db w') k \<noteq> None \<and> srv_pending pat cur k \<longrightarrow>
            k \<in> set ks \<or> (nxt \<noteq> 0 \<and> srv_pending pat nxt k)))"
proof -
  obtain x s1 where n: "next_step w = (x, s1)" by fastforce
  note law = next_step_law [OF assms(1) n]
  have next_cur: "unat (cur + 1) = unat cur + 1 \<and> cur + 1 \<noteq> 0" if "cur < 3"
  proof -
    have "unat (cur + 1) = unat cur + 1" using that by (simp add: word_less_nat_alt unat_word_ariths)
    then show ?thesis by (metis Suc_eq_plus1 nat.distinct(1) unat_0)
  qed
  have page: "k \<in> set (filter (\<lambda>k. srv_glob pat k \<and> srv_bucket k = cur) (map fst (sv_db s1))) \<or>
      (cur < 3 \<and> srv_pending pat (cur + 1) k)"
    if "map_of (sv_db s1) k \<noteq> None" "srv_pending pat cur k" for k
  proof (cases "srv_bucket k = cur")
    case True
    with that show ?thesis by (auto simp: srv_pending_def map_of_eq_None_iff)
  next
    case False
    then have "unat (srv_bucket k) \<noteq> unat cur" by (simp add: word_unat_eq_iff)
    then have "unat cur < unat (srv_bucket k)" "unat (srv_bucket k) < 4"
      using that(2) bucket_less [of k] by (simp_all add: srv_pending_def word_le_nat_alt word_less_nat_alt)
    with that(2) next_cur show ?thesis
      by (auto simp: srv_pending_def word_le_nat_alt word_less_nat_alt)
  qed
  show ?thesis
    using assms(2) n law page next_cur
    by (auto simp: srv_scan_def srv_remaining_def word_less_nat_alt split: option.splits if_splits)
qed

interpretation scheduled: redis_server server_client "\<lambda>s. map_of (sv_db s)" "\<lambda>s. map_of (sv_watch s)"
  "\<lambda>s. \<not> sv_dirty s" "others P" "server_sane P" srv_glob srv_pending srv_remaining for P
proof unfold_locales
  fix w w' :: server and ks vals
  assume "server_sane P w" "cl_MGet server_client ks w = (vals, w')"
  then show "server_sane P w' \<and> others P (map_of (sv_db w)) (map_of (sv_db w')) \<and>
      (case vals of Inl e \<Rightarrow> foreign_error e
       | Inr vs \<Rightarrow> vs = map (\<lambda>k. case map_of (sv_db w') k of None \<Rightarrow> NilValue | Some b \<Rightarrow> StringValue b) ks)"
    using next_step_law [of P w "fst (next_step w)" "snd (next_step w)"]
    by (simp add: server_client_def srv_mget_def split_beta split: option.splits) auto
next
  fix w w' :: server and n e
  assume "server_sane P w" "cl_Backoff server_client n w = (e, w')"
  then show "server_sane P w' \<and> others P (map_of (sv_db w)) (map_of (sv_db w')) \<and>
      (\<forall>err. e = Some err \<longrightarrow> foreign_error err)"
    using next_step_law [of P w "fst (next_step w)" "snd (next_step w)"]
    by (auto simp: server_client_def srv_pause_def split_beta)
next
  fix w w' :: server
  assume "server_sane P w" "cl_Close server_client w = w'"
  then show "server_sane P w' \<and> others P (map_of (sv_db w)) (map_of (sv_db w'))"
    by (auto simp: server_client_def server_sane_def others_refl)
next
  fix w w' :: server and k r
  assume "server_sane P w" "cl_Get server_client k w = (r, w')"
  then show "server_sane P w' \<and> others P (map_of (sv_db w)) (map_of (sv_db w')) \<and>
      (case r of Inr b \<Rightarrow> map_of (sv_db w') k = Some b
               | Inl e \<Rightarrow> (e = RedisNil \<and> map_of (sv_db w') k = None) \<or> foreign_error e)"
    using srv_get_law [of P w k r w'] by (simp add: server_client_def)
next
  fix w w' :: server and k r
  assume "server_sane P w" "cl_TxGet server_client k w = (r, w')"
  then show "server_sane P w' \<and> others P (map_of (sv_db w)) (map_of (sv_db w')) \<and>
      map_of (sv_watch w') = map_of (sv_watch w) \<and>
      (\<not> sv_dirty w' \<longrightarrow> \<not> sv_dirty w \<and> (\<forall>k x. map_of (sv_watch w) k = Some x \<longrightarrow> map_of (sv_db w') k = x)) \<and>
      (case r of Inr b \<Rightarrow> map_of (sv_db w') k = Some b
               | Inl e \<Rightarrow> (e = RedisNil \<and> map_of (sv_db w') k = None) \<or> foreign_error e)"
    using srv_get_law [of P w k r w'] by (simp add: server_client_def)
next
  fix lit k assume "set lit \<inter> glob_meta = {}"
  show "srv_glob (lit @ ''*'') k = prefix lit k" by (simp add: srv_glob_def)
next
  fix w w' :: server and cmds e
  assume "server_sane P w" "cl_Exec server_client cmds w = (e, w')"
  then have "server_sane P w" "srv_exec cmds w = (e, w')" by (simp_all add: server_client_def)
  from srv_exec_law [OF this]
  show "server_sane P w' \<and>
    (let ran = \<not> sv_dirty w \<and> (\<exists>m. others P (map_of (sv_db w)) m \<and>
                 (\<forall>k x. map_of (sv_watch w) k = Some x \<longrightarrow> m k = x) \<and> map_of (sv_db w') = apply_cmds cmds m)
     in case e of
          None \<Rightarrow> ran
        | Some err \<Rightarrow> (err = TxFailedErr \<and> others P (map_of (sv_db w)) (map_of (sv_db w'))) \<or>
                      (foreign_error err \<and> (others P (map_of (sv_db w)) (map_of (sv_db w')) \<or> ran)))" .
next
  fix w w' :: server and cur pat n page
  assume "server_sane P w" "cl_Scan server_client cur pat n w = (page, w')"
  then have "server_sane P w" "srv_scan cur pat n w = (page, w')" by (simp_all add: server_client_def)
  from srv_scan_law [OF this]
  show "server_sane P w' \<and> others P (map_of (sv_db w)) (map_of (sv_db w')) \<and>
    (case page of Inl e \<Rightarrow> foreign_error e
     | Inr (ks, nxt) \<Rightarrow>
         (\<forall>k\<in>set ks. srv_glob pat k) \<and> (nxt \<noteq> 0 \<longrightarrow> srv_remaining nxt < srv_remaining cur) \<and>
         (\<forall>k. map_of (sv_db w') k \<noteq> None \<and> srv_pending pat cur k \<longrightarrow>
            k \<in> set ks \<or> (nxt \<noteq> 0 \<and> srv_pending pat nxt k)))" .
next
  fix w w' :: server and ks e
  assume "server_sane P w" "cl_Watch server_client ks w = (e, w')"
  then have "server_sane P w" "srv_watch ks w = (e, w')" by (simp_all add: server_client_def)
  from srv_watch_law [OF this]
  show "server_sane P w' \<and> others P (map_of (sv_db w)) (map_of (sv_db w')) \<and>
    (case e of Some err \<Rightarrow> foreign_error err
             | None \<Rightarrow> \<not> sv_dirty w' \<and> map_of (sv_watch w') = (\<lambda>k. if k \<in> set ks then Some (map_of (sv_db w') k) else None))" .
qed (rule others_refl, erule (1) others_trans, simp add: srv_pending_def)

end
