(* ===== verification/RedisStore.thy ===== *)
theory RedisStore
  imports RedisServer StoreContract
begin

text \<open>
  The operations of the Redis-backed store are atomic although other clients act between any two of
  its commands: an operation that succeeds took effect at one moment of its run, as a step of the
  abstract machine there; an operation that fails took no effect, unless the reply to its commit was
  lost. The proofs go through a locale that joins the server, the encoding and the assumption that
  the other clients keep the invariant of the key space.
\<close>

section \<open>Records in the key space\<close>

definition recmap :: "codec \<Rightarrow> keyspace \<Rightarrow> record_map" where
  "recmap cd m i =
     (case m (redisKey i) of
        None \<Rightarrow> None
      | Some b \<Rightarrow> (case json_Unmarshal cd b of Inl e \<Rightarrow> None | Inr r \<Rightarrow> Some r))"

definition red_inv :: "dns_api \<Rightarrow> codec \<Rightarrow> stability \<Rightarrow> keyspace \<Rightarrow> bool" where
  "red_inv v cd st m \<longleftrightarrow>
     (\<forall>k b. m k = Some b \<longrightarrow> prefix keyPrefix k \<longrightarrow>
        (\<exists>r. json_Unmarshal cd b = Inr r \<and> k = redisKey (rec_Identity r) \<and> stable_record st r)) \<and>
     wf_map v (recmap cd m)"

lemma keyPrefix_redisKey [simp]: "prefix keyPrefix (redisKey i)"
  by (simp add: redisKey_def)

lemma red_inv_wf: "red_inv v cd st m \<Longrightarrow> wf_map v (recmap cd m)"
  by (simp add: red_inv_def)

lemma red_inv_stored:
  assumes "red_inv v cd st m" "m (redisKey i) = Some b"
  obtains r where "json_Unmarshal cd b = Inr r" "rec_Identity r = i" "recmap cd m i = Some r" "stable_record st r"
proof -
  obtain r where "json_Unmarshal cd b = Inr r" "redisKey i = redisKey (rec_Identity r)" "stable_record st r"
    using assms keyPrefix_redisKey unfolding red_inv_def by blast
  with assms(2) show ?thesis by (intro that) (simp_all add: recmap_def)
qed

lemma recmap_None: "red_inv v cd st m \<Longrightarrow> recmap cd m i = None \<longleftrightarrow> m (redisKey i) = None"
  by (cases "m (redisKey i)") (auto simp: recmap_def elim: red_inv_stored)

lemma recmap_stable: "red_inv v cd st m \<Longrightarrow> recmap cd m i = Some r \<Longrightarrow> stable_record st r \<and> rec_Identity r = i"
proof -
  assume a: "red_inv v cd st m" "recmap cd m i = Some r"
  then obtain b where "m (redisKey i) = Some b" using recmap_None [of v cd st m i] by auto
  with a show ?thesis by (metis option.inject red_inv_stored)
qed

lemma recmap_set [simp]:
  "json_Unmarshal cd b = Inr r \<Longrightarrow> recmap cd (m(redisKey i \<mapsto> b)) = (recmap cd m)(i \<mapsto> r)"
  by (auto simp: recmap_def fun_eq_iff)

lemma recmap_del [simp]: "recmap cd (m(redisKey i := None)) = (recmap cd m)(i := None)"
  by (auto simp: recmap_def fun_eq_iff)

lemma red_inv_set:
  assumes "red_inv v cd st m" "json_Unmarshal cd b = Inr r" "rec_Identity r = i" "stable_record st r"
    and "wf_map v ((recmap cd m)(i \<mapsto> r))"
  shows "red_inv v cd st (m(redisKey i \<mapsto> b))"
  using assms unfolding red_inv_def by auto

lemma red_inv_del: "red_inv v cd st m \<Longrightarrow> red_inv v cd st (m(redisKey i := None))"
  unfolding red_inv_def recmap_del by (auto intro: wf_map_delete)

section \<open>Atomicity\<close>

text \<open>A run from \<open>m0\<close> to \<open>m1\<close> that others interrupt has one moment at which the step happens.\<close>

definition linearized ::
  "(keyspace \<Rightarrow> keyspace \<Rightarrow> bool) \<Rightarrow> (keyspace \<Rightarrow> 'a \<Rightarrow> keyspace \<Rightarrow> bool) \<Rightarrow> keyspace \<Rightarrow> 'a \<Rightarrow> keyspace \<Rightarrow> bool" where
  "linearized env step m0 x m1 \<longleftrightarrow> (\<exists>m m'. env m0 m \<and> step m x m' \<and> env m' m1)"

lemma linearized_mono:
  assumes "linearized env P m0 x m1" and "\<And>m m'. env m0 m \<Longrightarrow> P m x m' \<Longrightarrow> Q m y m'"
  shows "linearized env Q m0 y m1"
  using assms unfolding linearized_def by blast

text \<open>
  What one attempt of a transaction may do, and what the retries make of it: \<open>commit\<close> is the effect of
  an EXEC that returns the value, \<open>fails\<close> what the callback's own errors say of the moment they were
  found in.
\<close>

definition attempt_ok ::
  "(keyspace \<Rightarrow> keyspace \<Rightarrow> bool) \<Rightarrow> (keyspace \<Rightarrow> 'a \<Rightarrow> keyspace \<Rightarrow> bool) \<Rightarrow> (keyspace \<Rightarrow> goerror \<Rightarrow> bool) \<Rightarrow>
   keyspace \<Rightarrow> 'a result \<Rightarrow> keyspace \<Rightarrow> bool" where
  "attempt_ok env commit fails m0 r m1 \<longleftrightarrow>
     (case r of
        Inr x \<Rightarrow> linearized env commit m0 x m1
      | Inl e \<Rightarrow> linearized env (\<lambda>m e m'. fails m e \<and> m' = m) m0 e m1 \<or>
                 (e = TxFailedErr \<and> env m0 m1) \<or>
                 (foreign_error e \<and> (env m0 m1 \<or> (\<exists>x. linearized env commit m0 x m1))))"

definition retry_ok ::
  "(keyspace \<Rightarrow> keyspace \<Rightarrow> bool) \<Rightarrow> (keyspace \<Rightarrow> 'a \<Rightarrow> keyspace \<Rightarrow> bool) \<Rightarrow> (keyspace \<Rightarrow> goerror \<Rightarrow> bool) \<Rightarrow>
   keyspace \<Rightarrow> 'a option result \<Rightarrow> keyspace \<Rightarrow> bool" where
  "retry_ok env commit fails m0 r m1 \<longleftrightarrow>
     (case r of
        Inr (Some x) \<Rightarrow> linearized env commit m0 x m1
      | Inr None \<Rightarrow> (\<exists>e. errors_Is e ErrCASNoop \<and> linearized env (\<lambda>m e m'. fails m e \<and> m' = m) m0 e m1)
      | Inl e \<Rightarrow> (\<not> errors_Is e ErrCASNoop \<and> linearized env (\<lambda>m e m'. fails m e \<and> m' = m) m0 e m1) \<or>
                 (e = ErrAborted \<and> env m0 m1) \<or>
                 (foreign_error e \<and> (env m0 m1 \<or> (\<exists>x. linearized env commit m0 x m1))))"

text \<open>Code that leaves the server alone and returns a value the counter has no part in.\<close>

definition computes :: "('w rworld, 'a) state \<Rightarrow> 'a \<Rightarrow> bool" where
  "computes m x \<longleftrightarrow> (\<forall>s. \<exists>n. run_state m s = (x, s\<lparr>rw_conflicts := n\<rparr>))"

lemma computes_return [intro]: "computes (State_Monad.return x) x"
  unfolding computes_def by (metis rworld.surjective rworld.update_convs(2) State_Monad.run_state_return)

lemma computes_bind:
  "computes m x \<Longrightarrow> computes (f x) y \<Longrightarrow> computes (State_Monad.bind m f) y"
  unfolding computes_def
proof
  fix s
  assume a: "\<forall>s. \<exists>n. run_state m s = (x, s\<lparr>rw_conflicts := n\<rparr>)" "\<forall>s. \<exists>n. run_state (f x) s = (y, s\<lparr>rw_conflicts := n\<rparr>)"
  from a(1) obtain n where n: "run_state m s = (x, s\<lparr>rw_conflicts := n\<rparr>)" by blast
  from a(2) obtain n' where n': "run_state (f x) (s\<lparr>rw_conflicts := n\<rparr>) = (y, s\<lparr>rw_conflicts := n\<rparr>\<lparr>rw_conflicts := n'\<rparr>)" by blast
  show "\<exists>n. run_state (State_Monad.bind m f) s = (y, s\<lparr>rw_conflicts := n\<rparr>)"
    using n n' by (intro exI [of _ n']) simp
qed

lemma computes_CheckOwner:
  "computes (red_CheckOwner a b) (if a = b then None else Some ErrOwnerConflict)"
  unfolding computes_def
proof
  fix s :: "'w rworld"
  show "\<exists>n. run_state (red_CheckOwner a b) s =
      ((if a = b then None else Some ErrOwnerConflict), s\<lparr>rw_conflicts := n\<rparr>)"
    by (intro exI [of _ "snd (CheckOwner a b (rw_conflicts s))"])
      (simp add: red_CheckOwner_def CheckOwner_def ReportOwnerConflict_def)
qed

lemma wp_computes: "computes m x \<Longrightarrow> (\<And>n. Q x (s\<lparr>rw_conflicts := n\<rparr>)) \<Longrightarrow> wp m Q s"
  unfolding computes_def wp_def by (metis case_prod_conv)

lemma wp_on_server [wp_rules]:
  "wp (on_server f) Q s = (case f (rw_server s) of (a, w) \<Rightarrow> Q a (s\<lparr>rw_server := w\<rparr>))"
  by (simp add: on_server_def wp_State split: prod.split)

lemma recmap_cong: "m (redisKey i) = m' (redisKey i) \<Longrightarrow> recmap cd m i = recmap cd m' i"
  by (simp add: recmap_def)

text \<open>The commits of the three kinds of transactions.\<close>

definition set_commit ::
  "codec \<Rightarrow> Identity \<Rightarrow> (resourceRecord option \<Rightarrow> resourceRecord result) \<Rightarrow>
   keyspace \<Rightarrow> resourceRecord \<Rightarrow> keyspace \<Rightarrow> bool" where
  "set_commit cd i f m x m' \<longleftrightarrow>
     f (recmap cd m i) = Inr x \<and> (\<exists>b. json_Unmarshal cd b = Inr x \<and> m' = m(redisKey i \<mapsto> b))"

definition del_commit ::
  "codec \<Rightarrow> Identity \<Rightarrow> (resourceRecord option \<Rightarrow> goerror option) \<Rightarrow> keyspace \<Rightarrow> unit \<Rightarrow> keyspace \<Rightarrow> bool" where
  "del_commit cd i f m x m' \<longleftrightarrow> f (recmap cd m i) = None \<and> m' = m(redisKey i := None)"

text \<open>
  An operation on the target of \<open>i\<close> is atomic: it returns what a step of the machine returns at one
  moment of its run, and has that step's effect there. Or it gives up: after too many conflicts, with
  no effect; on an error of the network, the server or the context, with no effect or, if its commit
  went through and the reply was lost, with the effect of a step that succeeds.
\<close>

definition atomic_op ::
  "(keyspace \<Rightarrow> keyspace \<Rightarrow> bool) \<Rightarrow> codec \<Rightarrow> (spec_state \<Rightarrow> spec_state result) \<Rightarrow> Identity \<Rightarrow>
   keyspace \<Rightarrow> 'd result \<Rightarrow> keyspace \<Rightarrow> bool" where
  "atomic_op env cd stp i m0 r m1 \<longleftrightarrow>
     linearized env (\<lambda>m r m'. implements stp i (recmap cd m) r (recmap cd m')) m0 r m1 \<or>
     (r = Inl ErrAborted \<and> env m0 m1) \<or>
     (\<exists>e. r = Inl e \<and> foreign_error e \<and> (env m0 m1 \<or> (\<exists>x :: 'd. linearized env
        (\<lambda>m r m'. implements stp i (recmap cd m) r (recmap cd m')) m0 (Inr x) m1)))"

definition sibs_of :: "codec \<Rightarrow> Identity \<Rightarrow> keyspace \<Rightarrow> targetSiblings" where
  "sibs_of cd i m = (\<lambda>t. if t \<in> set AllTypes then recmap cd m (sibling i t) else None)"

definition create_commit ::
  "codec \<Rightarrow> Identity \<Rightarrow> (targetSiblings \<Rightarrow> (resourceRecord \<times> string list) result) \<Rightarrow>
   keyspace \<Rightarrow> resourceRecord \<Rightarrow> keyspace \<Rightarrow> bool" where
  "create_commit cd i g m x m' \<longleftrightarrow>
     (\<exists>ks b. g (sibs_of cd i m) = Inr (x, ks) \<and> json_Unmarshal cd b = Inr x \<and>
        m' = apply_cmds (SetCmd (redisKey (rec_Identity x)) b # map DelCmd ks) m)"

section \<open>Transactions under interference\<close>

locale redis_store = redis_server c db watched clean env sane glob pending remaining + record_codec cd st
  for c :: "'w redis_client" and db watched clean env sane glob pending remaining cd st +
  fixes v :: dns_api
  assumes env_inv: "red_inv v cd st m \<Longrightarrow> env m m' \<Longrightarrow> red_inv v cd st m'"
begin

text \<open>The world of a run: sane, with a key space that satisfies the invariant.\<close>

definition good :: "'w rworld \<Rightarrow> bool" where
  "good s \<longleftrightarrow> sane (rw_server s) \<and> red_inv v cd st (db (rw_server s))"

abbreviation dbs :: "'w rworld \<Rightarrow> keyspace" where
  "dbs s \<equiv> db (rw_server s)"

lemma linearized_env:
  "env m m0 \<Longrightarrow> linearized env stp m0 x m1 \<Longrightarrow> linearized env stp m x m1"
  "linearized env stp m0 x m1 \<Longrightarrow> env m1 m \<Longrightarrow> linearized env stp m0 x m"
  unfolding linearized_def using env_trans by blast+

lemma attempt_ok_env:
  "env m m0 \<Longrightarrow> attempt_ok env commit fails m0 r m1 \<Longrightarrow> attempt_ok env commit fails m r m1"
  "attempt_ok env commit fails m0 r m1 \<Longrightarrow> env m1 m \<Longrightarrow> attempt_ok env commit fails m0 r m"
proof -
  show "attempt_ok env commit fails m r m1" if "env m m0" "attempt_ok env commit fails m0 r m1"
    using that(2) linearized_env(1) [OF that(1), of commit] linearized_env(1) [OF that(1), of "\<lambda>m e m'. fails m e \<and> m' = m"]
      env_trans [OF that(1)]
    unfolding attempt_ok_def by (cases r; simp; blast)
  show "attempt_ok env commit fails m0 r m" if "attempt_ok env commit fails m0 r m1" "env m1 m"
    using that(1) linearized_env(2) [OF _ that(2), of commit] linearized_env(2) [OF _ that(2), of "\<lambda>m e m'. fails m e \<and> m' = m"]
      env_trans [OF _ that(2)]
    unfolding attempt_ok_def by (cases r; simp; blast)
qed

lemma retry_ok_env:
  assumes "env m m0" and "retry_ok env commit fails m0 r m1"
  shows "retry_ok env commit fails m r m1"
  using assms(2) linearized_env(1) [OF assms(1), of commit] linearized_env(1) [OF assms(1), of "\<lambda>m e m'. fails m e \<and> m' = m"]
    env_trans [OF assms(1)]
  unfolding retry_ok_def by (simp split: sum.split_asm option.split_asm; blast)

lemma good_env: "good s \<Longrightarrow> sane w \<Longrightarrow> env (dbs s) (db w) \<Longrightarrow> good (s\<lparr>rw_server := w\<rparr>)"
  unfolding good_def using env_inv by auto

text \<open>A transaction body, started right after WATCH.\<close>

definition body_ok ::
  "(keyspace \<Rightarrow> 'a \<Rightarrow> keyspace \<Rightarrow> bool) \<Rightarrow> (keyspace \<Rightarrow> goerror \<Rightarrow> bool) \<Rightarrow> string list \<Rightarrow>
   ('w rworld, 'a result) state \<Rightarrow> bool" where
  "body_ok commit fails keys body \<longleftrightarrow>
     (\<forall>s. good s \<longrightarrow> clean (rw_server s) \<longrightarrow>
        watched (rw_server s) = (\<lambda>k. if k \<in> set keys then Some (dbs s k) else None) \<longrightarrow>
        wp body (\<lambda>r s'. good s' \<and> attempt_ok env commit fails (dbs s) r (dbs s')) s)"

lemma watch_attempt:
  assumes body: "body_ok commit fails keys body" and s: "good s"
  shows "wp (client_Watch c keys body) (\<lambda>r s'. good s' \<and> attempt_ok env commit fails (dbs s) r (dbs s')) s"
proof -
  obtain e w where w: "cl_Watch c keys (rw_server s) = (e, w)" by fastforce
  note law = watch_law [OF _ w]
  have sw: "sane w" "env (dbs s) (db w)" using law s by (auto simp: good_def)
  let ?s = "s\<lparr>rw_server := w\<rparr>"
  have good: "good ?s" by (rule good_env [OF s sw])
  have finish: "good (t\<lparr>rw_server := cl_Close c (rw_server t)\<rparr>) \<and>
      attempt_ok env commit fails (dbs s) r (db (cl_Close c (rw_server t)))"
    if "good t" "attempt_ok env commit fails (db w) r (dbs t)" for t r
    using that close_law [of "rw_server t"] attempt_ok_env(1) [OF sw(2)] attempt_ok_env(2) good_env
    by (metis good_def)
  show ?thesis
  proof (cases e)
    case (Some err)
    then have "attempt_ok env commit fails (db w) (Inl err) (db w)"
      using law s env_refl by (simp add: attempt_ok_def good_def)
    with finish [OF good] w Some show ?thesis by (simp add: client_Watch_def wp_rules)
  next
    case None
    then have "clean w" "watched w = (\<lambda>k. if k \<in> set keys then Some (db w k) else None)" using law s by (auto simp: good_def)
    then have "wp body (\<lambda>r s'. good s' \<and> attempt_ok env commit fails (db w) r (dbs s')) ?s"
      using body [unfolded body_ok_def, rule_format, OF good] by (simp add: if_distrib cong: if_cong)
    with finish w None show ?thesis
      by (auto simp: client_Watch_def wp_rules elim!: wp_mono)
  qed
qed

lemma retry_loop:
  assumes body: "body_ok commit fails keys body"
    and own: "\<And>m e. fails m e \<Longrightarrow> \<not> errors_Is e TxFailedErr"
  shows "good s \<Longrightarrow>
    wp (watchRetry_loop n a c body keys) (\<lambda>r s'. good s' \<and> retry_ok env commit fails (dbs s) r (dbs s')) s"
proof (induction n arbitrary: a s)
  case 0
  then show ?case by (simp add: wp_rules retry_ok_def env_refl)
next
  case (Suc n)
  have conflict: "wp (on_server (cl_Backoff c x)) (\<lambda>stop. wp (case stop of
        Some ctxErr \<Rightarrow> State_Monad.return (Inl ctxErr)
      | None \<Rightarrow> watchRetry_loop n b c body keys)
      (\<lambda>r s'. good s' \<and> retry_ok env commit fails (dbs s) r (dbs s'))) t"
    if t: "good t" "env (dbs s) (dbs t)" for t x b
  proof -
    obtain e w where w: "cl_Backoff c x (rw_server t) = (e, w)" by fastforce
    have law: "sane w" "env (dbs t) (db w)" "\<And>err. e = Some err \<Longrightarrow> foreign_error err"
      using backoff_law [OF _ w] t(1) by (auto simp: good_def)
    have g: "good (t\<lparr>rw_server := w\<rparr>)" by (rule good_env [OF t(1) law(1,2)])
    have e: "env (dbs s) (db w)" using env_trans t(2) law(2) by blast
    show ?thesis
    proof (cases e)
      case None
      then show ?thesis
        using Suc.IH [OF g, of b] w retry_ok_env [OF e] by (auto simp: wp_rules elim!: wp_mono)
    next
      case (Some err)
      then show ?thesis using w g e law(3) by (simp add: wp_rules retry_ok_def)
    qed
  qed
  have tx: "errors_Is TxFailedErr e \<longleftrightarrow> e = TxFailedErr" for e by (simp add: errors_Is_sentinel)
  show ?case
    unfolding watchRetry_loop.simps wp_bind
  proof (rule wp_mono [OF watch_attempt [OF body Suc.prems]], elim conjE)
    fix r t
    assume t: "good t" and ok: "attempt_ok env commit fails (dbs s) r (dbs t)"
    let ?Q = "\<lambda>r s'. good s' \<and> retry_ok env commit fails (dbs s) r (dbs s')"
    show "wp (case r of Inl err \<Rightarrow>
          if errors_Is err ErrCASNoop then State_Monad.return (Inr None)
          else if errors_Is err TxFailedErr then
            State_Monad.bind (on_server (cl_Backoff c (casBaseDelay * word_of_nat a))) (\<lambda>stop. case stop of
               None \<Rightarrow> watchRetry_loop n (Suc a) c body keys
             | Some ctxErr \<Rightarrow> State_Monad.return (Inl ctxErr))
          else State_Monad.return (Inl err)
        | Inr x \<Rightarrow> State_Monad.return (Inr (Some x))) ?Q t"
    proof (cases r)
      case (Inr x)
      then show ?thesis using ok t by (simp add: wp_rules attempt_ok_def retry_ok_def)
    next
      case (Inl err)
      consider (own) "linearized env (\<lambda>m e m'. fails m e \<and> m' = m) (dbs s) err (dbs t)"
        | (failed) "err = TxFailedErr" "env (dbs s) (dbs t)"
        | (foreign) "foreign_error err" "env (dbs s) (dbs t) \<or> (\<exists>x. linearized env commit (dbs s) x (dbs t))"
        using ok Inl by (auto simp: attempt_ok_def)
      then show ?thesis
      proof cases
        case own
        then have "\<not> errors_Is err TxFailedErr" using assms(2) by (auto simp: linearized_def)
        with own Inl t show ?thesis by (auto simp: wp_rules retry_ok_def)
      next
        case failed
        then show ?thesis using Inl conflict [OF t] by (simp add: tx wp_bind)
      next
        case foreign
        then show ?thesis using Inl t by (simp add: wp_rules retry_ok_def foreign_errorD)
      qed
    qed
  qed
qed

lemma watchRetry_ok:
  assumes "body_ok commit fails keys body" and "\<And>m e. fails m e \<Longrightarrow> \<not> errors_Is e TxFailedErr" and "good s"
  shows "wp (watchRetry c body keys) (\<lambda>r s'. good s' \<and> retry_ok env commit fails (dbs s) r (dbs s')) s"
  unfolding watchRetry_def by (rule retry_loop [OF assms])

lemma txget_record:
  assumes s: "good s"
  shows "wp (getRecordTx c cd (redisKey i)) (\<lambda>r s'. good s' \<and> env (dbs s) (dbs s') \<and>
      watched (rw_server s') = watched (rw_server s) \<and>
      (clean (rw_server s') \<longrightarrow> clean (rw_server s) \<and>
         (\<forall>k x. watched (rw_server s) k = Some x \<longrightarrow> dbs s' k = x)) \<and>
      (case r of Inl e \<Rightarrow> foreign_error e | Inr found \<Rightarrow> found = recmap cd (dbs s') i)) s"
proof -
  obtain r w where w: "cl_TxGet c (redisKey i) (rw_server s) = (r, w)" by fastforce
  note law = txget_law [OF _ w]
  have g: "good (s\<lparr>rw_server := w\<rparr>)" using good_env [OF s] law s by (simp add: good_def)
  have inv: "red_inv v cd st (db w)" using g by (simp add: good_def)
  show ?thesis
  proof (cases r)
    case (Inl e)
    then show ?thesis
      using law s g w
      by (auto simp: getRecordTx_def wp_rules good_def recmap_def errors_Is_sentinel foreign_errorD)
  next
    case (Inr b)
    then have "db w (redisKey i) = Some b" using law s by (simp add: good_def)
    from red_inv_stored [OF inv this] obtain x where "json_Unmarshal cd b = Inr x" "recmap cd (db w) i = Some x"
      by blast
    then show ?thesis using Inr law s g w by (auto simp: getRecordTx_def wp_rules good_def)
  qed
qed

text \<open>
  What is known when the reads of a transaction that began in \<open>s\<close> have led to \<open>t\<close>: if the connection is
  still clean, the watched keys have the values they were watched with.
\<close>

definition reads_to :: "'w rworld \<Rightarrow> 'w rworld \<Rightarrow> bool" where
  "reads_to s t \<longleftrightarrow> good t \<and> env (dbs s) (dbs t) \<and> watched (rw_server t) = watched (rw_server s) \<and>
     (clean (rw_server t) \<longrightarrow> clean (rw_server s) \<and>
        (\<forall>k x. watched (rw_server s) k = Some x \<longrightarrow> dbs t k = x))"

lemma reads_to_trans: "reads_to s t \<Longrightarrow> reads_to t u \<Longrightarrow> reads_to s u"
  unfolding reads_to_def using env_trans by auto

lemma reads_to_conflicts: "reads_to s t \<Longrightarrow> reads_to s (t\<lparr>rw_conflicts := n\<rparr>)"
  by (simp add: reads_to_def good_def)

lemma own_error:
  "reads_to s t \<Longrightarrow> fails (dbs t) e \<Longrightarrow> good t \<and> attempt_ok env commit fails (dbs s) (Inl e) (dbs t)"
  unfolding attempt_ok_def linearized_def reads_to_def using env_refl by auto

lemma foreign_result:
  "reads_to s t \<Longrightarrow> foreign_error e \<Longrightarrow> good t \<and> attempt_ok env commit fails (dbs s) (Inl e) (dbs t)"
  unfolding attempt_ok_def reads_to_def by simp

lemma read_then:
  assumes s: "good s"
    and err: "\<And>e t. reads_to s t \<Longrightarrow> foreign_error e \<Longrightarrow> Q (Inl e) t"
    and ok: "\<And>t. reads_to s t \<Longrightarrow> wp (k (recmap cd (dbs t) i)) Q t"
  shows "wp (State_Monad.bind (getRecordTx c cd (redisKey i)) (\<lambda>got. case got of
      Inl e \<Rightarrow> State_Monad.return (Inl e) | Inr found \<Rightarrow> k found)) Q s"
  unfolding wp_bind
proof (rule wp_mono [OF txget_record [OF s, of i]])
  fix r t
  assume "good t \<and> env (dbs s) (dbs t) \<and> watched (rw_server t) = watched (rw_server s) \<and>
      (clean (rw_server t) \<longrightarrow> clean (rw_server s) \<and>
         (\<forall>k x. watched (rw_server s) k = Some x \<longrightarrow> dbs t k = x)) \<and>
      (case r of Inl e \<Rightarrow> foreign_error e | Inr found \<Rightarrow> found = recmap cd (dbs t) i)"
  then have "reads_to s t" "case r of Inl e \<Rightarrow> foreign_error e | Inr found \<Rightarrow> found = recmap cd (dbs t) i"
    by (auto simp: reads_to_def)
  then show "wp (case r of Inl e \<Rightarrow> State_Monad.return (Inl e) | Inr found \<Rightarrow> k found) Q t"
    using err ok by (cases r) (auto simp: wp_rules)
qed

text \<open>EXEC after the reads: it commits in a key space that has the watched keys as they were read.\<close>

lemma exec_after_reads:
  assumes t: "reads_to s t"
    and commit: "\<And>m. clean (rw_server t) \<Longrightarrow> red_inv v cd st m \<Longrightarrow>
        (\<And>k. watched (rw_server s) k \<noteq> None \<Longrightarrow> m k = dbs t k) \<Longrightarrow>
        commit m x (apply_cmds cmds m) \<and> red_inv v cd st (apply_cmds cmds m)"
  shows "wp (State_Monad.bind (on_server (cl_Exec c cmds))
      (\<lambda>pErr. State_Monad.return (case pErr of Some e \<Rightarrow> Inl e | None \<Rightarrow> Inr x)))
    (\<lambda>r s'. good s' \<and> attempt_ok env commit fails (dbs s) r (dbs s')) t"
proof -
  note r = t [unfolded reads_to_def good_def]
  obtain e w where w: "cl_Exec c cmds (rw_server t) = (e, w)" by fastforce
  note law = exec_law [OF _ w, unfolded Let_def]
  have sane: "sane w" using law r by simp
  have ran: "red_inv v cd st (db w) \<and> linearized env commit (dbs s) x (db w)"
    if cl: "clean (rw_server t)" and ex: "\<exists>m. env (dbs t) m \<and>
      (\<forall>k x. watched (rw_server t) k = Some x \<longrightarrow> m k = x) \<and> db w = apply_cmds cmds m"
  proof -
    obtain m where m: "env (dbs t) m" "\<And>k x. watched (rw_server t) k = Some x \<Longrightarrow> m k = x"
      "db w = apply_cmds cmds m" using ex by blast
    have inv: "red_inv v cd st m" using env_inv m(1) r by blast
    have "m k = dbs t k" if "watched (rw_server s) k \<noteq> None" for k
      using that m(2) r cl by force
    then have "commit m x (db w) \<and> red_inv v cd st (db w)" using commit [OF cl inv] m(3) by simp
    moreover have "env (dbs s) m" using env_trans m(1) r by blast
    ultimately show ?thesis using env_refl unfolding linearized_def by blast
  qed
  have quiet: "red_inv v cd st (db w) \<and> env (dbs s) (db w)" if "env (dbs t) (db w)"
    using env_inv env_trans r that by blast
  show ?thesis
  proof (cases e)
    case None
    then show ?thesis using law r w ran sane by (auto simp: wp_rules good_def attempt_ok_def)
  next
    case (Some err)
    then have "(err = TxFailedErr \<and> env (dbs t) (db w)) \<or>
        (foreign_error err \<and> (env (dbs t) (db w) \<or> (red_inv v cd st (db w) \<and> linearized env commit (dbs s) x (db w))))"
      using law r ran by auto
    then show ?thesis using Some w sane quiet by (auto simp: wp_rules good_def attempt_ok_def)
  qed
qed

lemma put_after_reads:
  assumes t: "reads_to s t" and x: "stable_record st x"
    and commit: "\<And>m b. clean (rw_server t) \<Longrightarrow> red_inv v cd st m \<Longrightarrow>
        (\<And>k. watched (rw_server s) k \<noteq> None \<Longrightarrow> m k = dbs t k) \<Longrightarrow> json_Unmarshal cd b = Inr x \<Longrightarrow>
        commit m x (apply_cmds (SetCmd key b # map DelCmd ks) m) \<and>
        red_inv v cd st (apply_cmds (SetCmd key b # map DelCmd ks) m)"
  shows "wp (put_tx c cd key x ks) (\<lambda>r s'. good s' \<and> attempt_ok env commit fails (dbs s) r (dbs s')) t"
proof -
  obtain b where b: "json_Marshal cd x = Inr b" "json_Unmarshal cd b = Inr x" using roundtrip [OF x] by blast
  have "wp (State_Monad.bind (on_server (cl_Exec c (SetCmd key b # map DelCmd ks)))
      (\<lambda>pErr. State_Monad.return (case pErr of Some e \<Rightarrow> Inl e | None \<Rightarrow> Inr x)))
    (\<lambda>r s'. good s' \<and> attempt_ok env commit fails (dbs s) r (dbs s')) t"
    by (rule exec_after_reads [OF t], rule commit) (use b in auto)
  with b show ?thesis by (simp add: put_tx_def)
qed

lemma mutate_body:
  assumes run: "\<And>found. computes (mutate (case found of None \<Rightarrow> zero_record | Some r \<Rightarrow> r) (found \<noteq> None)) (f found)"
    and keep: "\<And>m x. red_inv v cd st m \<Longrightarrow> f (recmap cd m i) = Inr x \<Longrightarrow>
        rec_Identity x = i \<and> stable_record st x \<and> wf_map v ((recmap cd m)(i \<mapsto> x))"
  shows "body_ok (set_commit cd i f) (\<lambda>m e. f (recmap cd m i) = Inl e) [redisKey i]
           (casMutate_body c cd (redisKey i) mutate)"
  unfolding body_ok_def casMutate_body_def
proof (intro allI impI read_then)
  fix s t
  assume "watched (rw_server s) = (\<lambda>k. if k \<in> set [redisKey i] then Some (dbs s k) else None)" and t: "reads_to s t"
  then have wat: "watched (rw_server s) (redisKey i) \<noteq> None" by simp
  let ?f = "recmap cd (dbs t) i"
  let ?Q = "\<lambda>r s'. good s' \<and> attempt_ok env (set_commit cd i f) (\<lambda>m e. f (recmap cd m i) = Inl e) (dbs s) r (dbs s')"
  show "wp (State_Monad.bind (mutate (case ?f of None \<Rightarrow> zero_record | Some r \<Rightarrow> r) (?f \<noteq> None))
      (\<lambda>m. case m of Inl mErr \<Rightarrow> State_Monad.return (Inl mErr) | Inr r \<Rightarrow> put_tx c cd (redisKey i) r [])) ?Q t"
    unfolding wp_bind
  proof (rule wp_computes [OF run])
    fix n
    note u = reads_to_conflicts [OF t, of n]
    show "wp (case f ?f of Inl mErr \<Rightarrow> State_Monad.return (Inl mErr) | Inr r \<Rightarrow> put_tx c cd (redisKey i) r []) ?Q
        (t\<lparr>rw_conflicts := n\<rparr>)"
    proof (cases "f ?f")
      case (Inl e)
      then show ?thesis using own_error [OF u] by (simp add: wp_rules)
    next
      case (Inr x)
      have x: "stable_record st x" using keep [OF _ Inr] t by (simp add: reads_to_def good_def)
      show ?thesis
        unfolding Inr sum.case
      proof (rule put_after_reads [OF u x])
        fix m b
        assume m: "red_inv v cd st m" "\<And>k. watched (rw_server s) k \<noteq> None \<Longrightarrow> m k = dbs (t\<lparr>rw_conflicts := n\<rparr>) k"
          and b: "json_Unmarshal cd b = Inr x"
        have "f (recmap cd m i) = Inr x" using Inr recmap_cong [of m i "dbs t" cd] m(2) wat by simp
        with keep [OF m(1) this] b m(1)
        show "set_commit cd i f m x (apply_cmds (SetCmd (redisKey i) b # map DelCmd []) m) \<and>
            red_inv v cd st (apply_cmds (SetCmd (redisKey i) b # map DelCmd []) m)"
          by (auto simp: set_commit_def intro!: red_inv_set)
      qed
    qed
  qed
qed (assumption | erule (1) foreign_result)+

lemma delete_body:
  assumes run: "\<And>found. computes (precheck (case found of None \<Rightarrow> zero_record | Some r \<Rightarrow> r) (found \<noteq> None)) (f found)"
  shows "body_ok (del_commit cd i f) (\<lambda>m e. f (recmap cd m i) = Some e) [redisKey i]
           (casDelete_body c cd (redisKey i) precheck)"
  unfolding body_ok_def casDelete_body_def
proof (intro allI impI read_then)
  fix s t
  assume "watched (rw_server s) = (\<lambda>k. if k \<in> set [redisKey i] then Some (dbs s k) else None)" and t: "reads_to s t"
  then have wat: "watched (rw_server s) (redisKey i) \<noteq> None" by simp
  let ?f = "recmap cd (dbs t) i"
  let ?Q = "\<lambda>r s'. good s' \<and> attempt_ok env (del_commit cd i f) (\<lambda>m e. f (recmap cd m i) = Some e) (dbs s) r (dbs s')"
  show "wp (State_Monad.bind (precheck (case ?f of None \<Rightarrow> zero_record | Some r \<Rightarrow> r) (?f \<noteq> None))
      (\<lambda>p. case p of Some pErr \<Rightarrow> State_Monad.return (Inl pErr) | None \<Rightarrow> del_tx c (redisKey i))) ?Q t"
    unfolding wp_bind
  proof (rule wp_computes [OF run])
    fix n
    note u = reads_to_conflicts [OF t, of n]
    show "wp (case f ?f of Some pErr \<Rightarrow> State_Monad.return (Inl pErr) | None \<Rightarrow> del_tx c (redisKey i)) ?Q
        (t\<lparr>rw_conflicts := n\<rparr>)"
    proof (cases "f ?f")
      case (Some e)
      then show ?thesis using own_error [OF u] by (simp add: wp_rules)
    next
      case None
      show ?thesis
        unfolding None option.case del_tx_def
      proof (rule exec_after_reads [OF u])
        fix m
        assume m: "red_inv v cd st m" "\<And>k. watched (rw_server s) k \<noteq> None \<Longrightarrow> m k = dbs (t\<lparr>rw_conflicts := n\<rparr>) k"
        have "f (recmap cd m i) = None" using None recmap_cong [of m i "dbs t" cd] m(2) wat by simp
        with m(1) show "del_commit cd i f m () (apply_cmds [DelCmd (redisKey i)] m) \<and>
            red_inv v cd st (apply_cmds [DelCmd (redisKey i)] m)"
          by (auto simp: del_commit_def intro: red_inv_del)
      qed
    qed
  qed
qed (assumption | erule (1) foreign_result)+

text \<open>
  The siblings of a target are read one after the other, so each comes from a moment of its own; only
  a commit shows that they belong together.
\<close>

definition seen :: "'w rworld \<Rightarrow> Identity \<Rightarrow> 'w rworld \<Rightarrow> DesireType \<Rightarrow> resourceRecord option \<Rightarrow> bool" where
  "seen s i t ty r \<longleftrightarrow>
     (\<exists>m. env (dbs s) m \<and> env m (dbs t) \<and> red_inv v cd st m \<and> r = recmap cd m (sibling i ty) \<and>
        (clean (rw_server t) \<longrightarrow> watched (rw_server s) (redisKey (sibling i ty)) \<noteq> None \<longrightarrow>
           recmap cd (dbs t) (sibling i ty) = r))"

lemma seen_later:
  assumes "reads_to s t" "seen s i t ty r" "reads_to t u"
  shows "seen s i u ty r"
proof -
  obtain m where m: "env (dbs s) m" "env m (dbs t)" "red_inv v cd st m" "r = recmap cd m (sibling i ty)"
    "clean (rw_server t) \<Longrightarrow> watched (rw_server s) (redisKey (sibling i ty)) \<noteq> None \<Longrightarrow>
       recmap cd (dbs t) (sibling i ty) = r"
    using assms(2) by (auto simp: seen_def)
  have "recmap cd (dbs u) (sibling i ty) = r"
    if "clean (rw_server u)" "watched (rw_server s) (redisKey (sibling i ty)) \<noteq> None"
  proof -
    have "dbs u (redisKey (sibling i ty)) = dbs t (redisKey (sibling i ty))" "clean (rw_server t)"
      using that assms(1,3) by (auto simp: reads_to_def)
    then show ?thesis using m(5) that(2) recmap_cong by metis
  qed
  moreover have "env m (dbs u)" using m(2) assms(3) env_trans unfolding reads_to_def by blast
  ultimately show ?thesis using m unfolding seen_def by blast
qed

lemma seen_now: "reads_to s t \<Longrightarrow> seen s i t ty (recmap cd (dbs t) (sibling i ty))"
  unfolding seen_def reads_to_def good_def using env_refl by blast

lemma load_siblings_ok:
  assumes "reads_to s t" and "\<forall>ty\<in>T. seen s i t ty (sibs ty)" and "\<forall>ty. ty \<notin> T \<longrightarrow> sibs ty = None"
    and "distinct tys" "set tys \<inter> T = {}"
  shows "wp (load_siblings c cd i tys sibs) (\<lambda>r u. reads_to s u \<and>
      (case r of Inl e \<Rightarrow> foreign_error e
       | Inr sibs' \<Rightarrow> (\<forall>ty\<in>T \<union> set tys. seen s i u ty (sibs' ty)) \<and>
                       (\<forall>ty. ty \<notin> T \<union> set tys \<longrightarrow> sibs' ty = None))) t"
  using assms
proof (induction tys arbitrary: t sibs T)
  case Nil
  then show ?case by (simp add: wp_rules)
next
  case (Cons ty tys)
  have good: "good t" using Cons.prems(1) by (simp add: reads_to_def)
  let ?k = "\<lambda>found. case found of None \<Rightarrow> load_siblings c cd i tys sibs
      | Some r \<Rightarrow> load_siblings c cd i tys (sibs(ty \<mapsto> r))"
  have eq: "load_siblings c cd i (ty # tys) sibs =
      State_Monad.bind (getRecordTx c cd (redisKey (sibling i ty))) (\<lambda>got. case got of
        Inl e \<Rightarrow> State_Monad.return (Inl e) | Inr found \<Rightarrow> ?k found)"
    by (simp add: option.case_eq_if cong: sum.case_cong)
  have rest: "wp (?k (recmap cd (dbs u) (sibling i ty))) (\<lambda>r u. reads_to s u \<and>
      (case r of Inl e \<Rightarrow> foreign_error e
       | Inr sibs' \<Rightarrow> (\<forall>ty\<in>T \<union> set (ty # tys). seen s i u ty (sibs' ty)) \<and>
                       (\<forall>ty'. ty' \<notin> T \<union> set (ty # tys) \<longrightarrow> sibs' ty' = None))) u"
    if u: "reads_to t u" for u
  proof -
    let ?sibs = "sibs(ty := recmap cd (dbs u) (sibling i ty))"
    have su: "reads_to s u" using reads_to_trans Cons.prems(1) u by blast
    have "?k (recmap cd (dbs u) (sibling i ty)) = load_siblings c cd i tys ?sibs"
      using Cons.prems(3,5) by (auto simp: fun_upd_idem split: option.split)
    moreover have "\<forall>x\<in>insert ty T. seen s i u x (?sibs x)"
      using Cons.prems(1,2) seen_later u seen_now [OF su] by auto
    moreover have "insert ty T \<union> set tys = T \<union> set (ty # tys)" by auto
    moreover have "\<forall>x. x \<notin> insert ty T \<longrightarrow> ?sibs x = None" "distinct tys" "set tys \<inter> insert ty T = {}"
      using Cons.prems(3-5) by auto
    ultimately show ?thesis
      using Cons.IH [OF su, of "insert ty T" ?sibs] by (simp only:)
  qed
  show ?case
    unfolding eq by (rule read_then [OF good]) (use reads_to_trans [OF Cons.prems(1)] rest in simp_all)
qed

lemma create_body:
  assumes run: "\<And>sibs. computes (build sibs) (g sibs)"
    and bad: "\<And>s t sibs e. \<lbrakk>\<forall>ty\<in>set AllTypes. seen s i t ty (sibs ty); g sibs = Inl e\<rbrakk> \<Longrightarrow>
        \<exists>m. env (dbs s) m \<and> env m (dbs t) \<and> fails m e"
    and keep: "\<And>m x ks b. \<lbrakk>red_inv v cd st m; g (sibs_of cd i m) = Inr (x, ks); json_Unmarshal cd b = Inr x\<rbrakk> \<Longrightarrow>
        red_inv v cd st (apply_cmds (SetCmd (redisKey (rec_Identity x)) b # map DelCmd ks) m)"
    and stable: "\<And>sibs x ks. g sibs = Inr (x, ks) \<Longrightarrow> stable_record st x"
  shows "body_ok (create_commit cd i g) fails (map (\<lambda>t. redisKey (sibling i t)) AllTypes)
           (casCreate_body c cd i build)"
  unfolding body_ok_def
proof (intro allI impI)
  fix s
  assume s: "good s" "clean (rw_server s)"
    and w: "watched (rw_server s) = (\<lambda>k. if k \<in> set (map (\<lambda>t. redisKey (sibling i t)) AllTypes) then Some (dbs s k) else None)"
  have wat: "\<forall>ty\<in>set AllTypes. watched (rw_server s) (redisKey (sibling i ty)) \<noteq> None" using w by simp
  let ?Q = "\<lambda>r s'. good s' \<and> attempt_ok env (create_commit cd i g) fails (dbs s) r (dbs s')"
  have committed: "wp (put_tx c cd (redisKey (rec_Identity x)) x ks) ?Q u"
    if u: "reads_to s u" and sibs: "\<forall>ty\<in>set AllTypes. seen s i u ty (sibs ty)" "\<forall>ty. ty \<notin> set AllTypes \<longrightarrow> sibs ty = None"
      and g: "g sibs = Inr (x, ks)" for u sibs x ks
  proof (rule put_after_reads [OF u stable [OF g]])
    fix m b
    assume cl: "clean (rw_server u)" and m: "red_inv v cd st m"
      "\<And>k. watched (rw_server s) k \<noteq> None \<Longrightarrow> m k = dbs u k" and b: "json_Unmarshal cd b = Inr x"
    have "sibs = sibs_of cd i m"
    proof
      fix ty
      show "sibs ty = sibs_of cd i m ty"
      proof (cases "ty \<in> set AllTypes")
        case True
        then have "recmap cd (dbs u) (sibling i ty) = sibs ty" using sibs(1) cl wat by (auto simp: seen_def)
        moreover have "recmap cd m (sibling i ty) = recmap cd (dbs u) (sibling i ty)"
          using m(2) wat True by (intro recmap_cong) simp
        ultimately show ?thesis using True by (simp add: sibs_of_def)
      qed (simp add: sibs_of_def sibs(2))
    qed
    with g keep [OF m(1) _ b] b
    show "create_commit cd i g m x (apply_cmds (SetCmd (redisKey (rec_Identity x)) b # map DelCmd ks) m) \<and>
        red_inv v cd st (apply_cmds (SetCmd (redisKey (rec_Identity x)) b # map DelCmd ks) m)"
      unfolding create_commit_def by blast
  qed
  have start: "reads_to s s" using s w env_refl by (simp add: reads_to_def split: if_splits)
  have built: "wp (State_Monad.bind (build sibs) (\<lambda>b. case b of
        Inl bErr \<Rightarrow> State_Monad.return (Inl bErr)
      | Inr (newRec, delKeys) \<Rightarrow> put_tx c cd (redisKey (rec_Identity newRec)) newRec delKeys)) ?Q t"
    if t: "reads_to s t" and sibs: "\<forall>ty\<in>set AllTypes. seen s i t ty (sibs ty)" "\<forall>ty. ty \<notin> set AllTypes \<longrightarrow> sibs ty = None"
    for t sibs
    unfolding wp_bind
  proof (rule wp_computes [OF run])
    fix n
    let ?t = "t\<lparr>rw_conflicts := n\<rparr>"
    have sibs': "\<forall>ty\<in>set AllTypes. seen s i ?t ty (sibs ty)" using sibs(1) by (simp add: seen_def)
    show "wp (case g sibs of Inl bErr \<Rightarrow> State_Monad.return (Inl bErr)
      | Inr (newRec, delKeys) \<Rightarrow> put_tx c cd (redisKey (rec_Identity newRec)) newRec delKeys) ?Q ?t"
    proof (cases "g sibs")
      case (Inl e)
      then show ?thesis
        using bad [OF sibs(1)] t by (auto simp: wp_rules attempt_ok_def linearized_def reads_to_def good_def)
    next
      case (Inr p)
      then show ?thesis
        using committed [OF reads_to_conflicts [OF t] sibs' sibs(2)] by (cases p) simp
    qed
  qed
  show "wp (casCreate_body c cd i build) ?Q s"
    unfolding casCreate_body_def wp_bind
  proof (rule wp_mono [OF load_siblings_ok [OF start, of "{}" i Map.empty AllTypes]])
    fix r t
    assume "reads_to s t \<and> (case r of Inl e \<Rightarrow> foreign_error e
        | Inr sibs' \<Rightarrow> (\<forall>ty\<in>{} \<union> set AllTypes. seen s i t ty (sibs' ty)) \<and>
                        (\<forall>ty. ty \<notin> {} \<union> set AllTypes \<longrightarrow> sibs' ty = None))"
    then show "wp (case r of Inl getErr \<Rightarrow> State_Monad.return (Inl getErr)
        | Inr sibs \<Rightarrow> State_Monad.bind (build sibs) (\<lambda>b. case b of
            Inl bErr \<Rightarrow> State_Monad.return (Inl bErr)
          | Inr (newRec, delKeys) \<Rightarrow> put_tx c cd (redisKey (rec_Identity newRec)) newRec delKeys)) ?Q t"
      using foreign_result [of s t _ "create_commit cd i g" fails] built by (cases r) (auto simp: wp_rules)
  qed (simp_all add: AllTypes_def)
qed

text \<open>From the transaction to the operation.\<close>

lemma mutate_op:
  assumes run: "\<And>found. computes (mutate (case found of None \<Rightarrow> zero_record | Some r \<Rightarrow> r) (found \<noteq> None)) (f found)"
    and keep: "\<And>m x. red_inv v cd st m \<Longrightarrow> f (recmap cd m i) = Inr x \<Longrightarrow>
        rec_Identity x = i \<and> stable_record st x \<and> wf_map v ((recmap cd m)(i \<mapsto> x)) \<and>
        implements stp i (recmap cd m) (Inr (proj (Some x))) ((recmap cd m)(i \<mapsto> x))"
    and fail: "\<And>m e. red_inv v cd st m \<Longrightarrow> f (recmap cd m i) = Inl e \<Longrightarrow>
        implements stp i (recmap cd m) (Inl e :: 'd result) (recmap cd m)"
    and own: "\<And>found e. f found = Inl e \<Longrightarrow> \<not> errors_Is e TxFailedErr \<and> \<not> errors_Is e ErrCASNoop"
    and s: "good s"
  shows "wp (State_Monad.bind (casMutate c cd (redisKey i) mutate) (\<lambda>r. State_Monad.return (map_result proj r)))
    (\<lambda>r s'. good s' \<and> atomic_op env cd stp i (dbs s) (r :: 'd result) (dbs s')) s"
proof -
  let ?fails = "\<lambda>m e. f (recmap cd m i) = Inl e"
  let ?L = "linearized env (\<lambda>m (r :: 'd result) m'. implements stp i (recmap cd m) r (recmap cd m')) (dbs s)"
  have inv: "red_inv v cd st m" if "env (dbs s) m" for m using that s env_inv by (auto simp: good_def)
  have com: "?L (Inr (proj (Some x))) m1" if lin: "linearized env (set_commit cd i f) (dbs s) x m1" for x m1
    by (rule linearized_mono [OF lin]) (use keep inv in \<open>auto simp: set_commit_def\<close>)
  have err: "?L (Inl e) m1" if lin: "linearized env (\<lambda>m e m'. ?fails m e \<and> m' = m) (dbs s) e m1" for e m1
    by (rule linearized_mono [OF lin]) (use fail inv in auto)
  have noop: "\<not> errors_Is e ErrCASNoop" if "linearized env (\<lambda>m e m'. ?fails m e \<and> m' = m) (dbs s) e m1" for e m1
    using that own unfolding linearized_def by blast
  have "wp (casMutate c cd (redisKey i) mutate) (\<lambda>r s'. good s' \<and>
      retry_ok env (set_commit cd i f) ?fails (dbs s) r (dbs s')) s"
    unfolding casMutate_def
  proof (rule watchRetry_ok [OF mutate_body _ s], rule run)
    show "rec_Identity x = i \<and> stable_record st x \<and> wf_map v ((recmap cd m)(i \<mapsto> x))"
      if "red_inv v cd st m" "f (recmap cd m i) = Inr x" for m x using keep [OF that] by blast
  qed (use own in blast)
  then show ?thesis
    unfolding wp_bind
  proof (rule wp_mono, elim conjE)
    fix r t
    assume "good t" and ok: "retry_ok env (set_commit cd i f) ?fails (dbs s) r (dbs t)"
    moreover have "atomic_op env cd stp i (dbs s) (map_result proj r) (dbs t)"
      using ok com err noop unfolding retry_ok_def atomic_op_def map_result_def
      by (simp split: sum.split_asm option.split_asm; blast)
    ultimately show "wp (State_Monad.return (map_result proj r)) (\<lambda>r s'. good s' \<and>
        atomic_op env cd stp i (dbs s) r (dbs s')) t"
      by (simp add: wp_return)
  qed
qed

lemma delete_op:
  assumes run: "\<And>found. computes (precheck (case found of None \<Rightarrow> zero_record | Some r \<Rightarrow> r) (found \<noteq> None)) (f found)"
    and keep: "\<And>m. red_inv v cd st m \<Longrightarrow> f (recmap cd m i) = None \<Longrightarrow>
        implements stp i (recmap cd m) (Inr ()) ((recmap cd m)(i := None))"
    and fail: "\<And>m e. red_inv v cd st m \<Longrightarrow> f (recmap cd m i) = Some e \<Longrightarrow>
        implements stp i (recmap cd m) (Inl e :: unit result) (recmap cd m)"
    and own: "\<And>found e. f found = Some e \<Longrightarrow> \<not> errors_Is e TxFailedErr \<and> \<not> errors_Is e ErrCASNoop"
    and s: "good s"
  shows "wp (casDelete c cd (redisKey i) precheck)
    (\<lambda>r s'. good s' \<and> atomic_op env cd stp i (dbs s) r (dbs s')) s"
proof -
  let ?fails = "\<lambda>m e. f (recmap cd m i) = Some e"
  let ?L = "linearized env (\<lambda>m (r :: unit result) m'. implements stp i (recmap cd m) r (recmap cd m')) (dbs s)"
  have inv: "red_inv v cd st m" if "env (dbs s) m" for m using that s env_inv by (auto simp: good_def)
  have com: "?L (Inr ()) m1" if lin: "linearized env (del_commit cd i f) (dbs s) x m1" for x m1
    by (rule linearized_mono [OF lin]) (use keep inv in \<open>auto simp: del_commit_def\<close>)
  have err: "?L (Inl e) m1" if lin: "linearized env (\<lambda>m e m'. ?fails m e \<and> m' = m) (dbs s) e m1" for e m1
    by (rule linearized_mono [OF lin]) (use fail inv in auto)
  have noop: "\<not> errors_Is e ErrCASNoop" if "linearized env (\<lambda>m e m'. ?fails m e \<and> m' = m) (dbs s) e m1" for e m1
    using that own unfolding linearized_def by blast
  have "wp (watchRetry c (casDelete_body c cd (redisKey i) precheck) [redisKey i]) (\<lambda>r s'. good s' \<and>
      retry_ok env (del_commit cd i f) ?fails (dbs s) r (dbs s')) s"
    by (rule watchRetry_ok [OF delete_body _ s], rule run) (use own in blast)
  then show ?thesis
    unfolding casDelete_def wp_bind
  proof (rule wp_mono, elim conjE)
    fix r t
    assume "good t" and ok: "retry_ok env (del_commit cd i f) ?fails (dbs s) r (dbs t)"
    moreover have "atomic_op env cd stp i (dbs s) (case r of Inl e \<Rightarrow> Inl e | Inr _ \<Rightarrow> Inr ()) (dbs t)"
      using ok com err noop unfolding retry_ok_def atomic_op_def
      by (simp split: sum.split_asm option.split_asm; blast)
    ultimately show "wp (State_Monad.return (case r of Inl e \<Rightarrow> Inl e | Inr _ \<Rightarrow> Inr ())) (\<lambda>r s'. good s' \<and>
        atomic_op env cd stp i (dbs s) r (dbs s')) t"
      by (simp add: wp_return)
  qed
qed

end

end
