(* ===== verification/RedisOps.thy ===== *)
theory RedisOps
  imports RedisStore
begin

text \<open>
  The atomicity of every writing operation of the Redis-backed store, from the transactions of
  \<open>RedisStore\<close>: what the callback of each operation returns for the record it finds, that this is a
  step of the abstract machine, and that it keeps the invariant.
\<close>

section \<open>What the callbacks return\<close>

definition spec_outcome ::
  "Identity \<Rightarrow> ApplySpec \<Rightarrow> string \<Rightarrow> int64 \<Rightarrow> resourceRecord option \<Rightarrow> resourceRecord result" where
  "spec_outcome i spec owner n found =
     (case found of
        None \<Rightarrow> Inl ErrNotFound
      | Some r \<Rightarrow>
          (case rec_Apply r of
             None \<Rightarrow> Inl ErrNotFound
           | Some old \<Rightarrow>
               if rec_Version r \<noteq> n then Inl ErrVersionConflict
               else if rec_Owner r \<noteq> owner then
                 Inl (wrap (''desire: update apply desire spec '' @ fmt_identity i) ErrOwnerConflict)
               else Inr (r\<lparr>rec_Generation := (if speccompare_Equal old spec then rec_Generation r else rec_Generation r + 1),
                           rec_Apply := Some spec, rec_Version := rec_Version r + 1\<rparr>)))"

definition status_outcome ::
  "bool \<Rightarrow> Status \<Rightarrow> int64 \<Rightarrow> resourceRecord option \<Rightarrow> resourceRecord result" where
  "status_outcome apply_only status n found =
     (case found of
        None \<Rightarrow> Inl ErrNotFound
      | Some r \<Rightarrow>
          if apply_only \<and> rec_Apply r = None then Inl ErrNotFound
          else if rec_Version r \<noteq> n then Inl ErrVersionConflict
          else Inr (r\<lparr>rec_Status := status, rec_Version := rec_Version r + 1\<rparr>))"

definition read_outcome :: "ReadStatus \<Rightarrow> resourceRecord option \<Rightarrow> resourceRecord result" where
  "read_outcome status found =
     (case found of None \<Rightarrow> Inl ErrNotFound | Some r \<Rightarrow> Inr (r\<lparr>rec_ReadStatus := status\<rparr>))"

definition delete_outcome ::
  "bool \<Rightarrow> string \<Rightarrow> Identity \<Rightarrow> string \<Rightarrow> int64 \<Rightarrow> resourceRecord option \<Rightarrow> goerror option" where
  "delete_outcome apply_only what i owner n found =
     (case found of
        None \<Rightarrow> Some ErrNotFound
      | Some r \<Rightarrow>
          if apply_only \<and> rec_Apply r = None then Some ErrNotFound
          else if rec_Version r \<noteq> n then Some ErrVersionConflict
          else if rec_Owner r \<noteq> owner then
            Some (wrap (''desire: delete '' @ what @ '' desire '' @ fmt_identity i) ErrOwnerConflict)
          else None)"

abbreviation record_of :: "resourceRecord option \<Rightarrow> resourceRecord" where
  "record_of found \<equiv> (case found of None \<Rightarrow> zero_record | Some r \<Rightarrow> r)"

lemma mutate_spec_computes:
  "computes (mutate_spec i spec owner n (record_of found) (found \<noteq> None)) (spec_outcome i spec owner n found)"
proof (cases found)
  case None
  then show ?thesis by (simp add: mutate_spec_def spec_outcome_def zero_record_def computes_return)
next
  case (Some r)
  then show ?thesis
    by (auto simp: mutate_spec_def spec_outcome_def Let_def computes_return split: option.split
        intro!: computes_bind [OF computes_CheckOwner])
qed

lemma mutate_status_computes:
  "computes (mutate_apply_status status n (record_of found) (found \<noteq> None)) (status_outcome True status n found)"
  "computes (mutate_delete_status status n (record_of found) (found \<noteq> None)) (status_outcome False status n found)"
  "computes (mutate_read_status rst (record_of found) (found \<noteq> None)) (read_outcome rst found)"
  by (cases found; simp add: mutate_apply_status_def mutate_delete_status_def mutate_read_status_def
      status_outcome_def read_outcome_def computes_return)+

lemma precheck_computes:
  "computes (precheck_delete what i owner n (record_of found) (found \<noteq> None)) (delete_outcome False what i owner n found)"
  "computes (precheck_delete what i owner n (record_of found) (found \<noteq> None \<and> rec_Apply (record_of found) \<noteq> None))
     (delete_outcome True what i owner n found)"
  by (cases found; auto simp: precheck_delete_def delete_outcome_def zero_record_def computes_return
      intro!: computes_bind [OF computes_CheckOwner])+

lemma outcome_errors:
  "spec_outcome i spec owner n found = Inl e \<Longrightarrow> \<not> errors_Is e TxFailedErr \<and> \<not> errors_Is e ErrCASNoop"
  "status_outcome a status n found = Inl e \<Longrightarrow> \<not> errors_Is e TxFailedErr \<and> \<not> errors_Is e ErrCASNoop"
  "read_outcome rst found = Inl e \<Longrightarrow> \<not> errors_Is e TxFailedErr \<and> \<not> errors_Is e ErrCASNoop"
  "delete_outcome a what i owner n found = Some e \<Longrightarrow> \<not> errors_Is e TxFailedErr \<and> \<not> errors_Is e ErrCASNoop"
  by (auto simp: spec_outcome_def status_outcome_def read_outcome_def delete_outcome_def
      split: option.splits if_splits)

section \<open>They are steps of the machine\<close>

lemmas machine_defs = implements_def target_state_upd target_state_unfold entry_defs spec_op_defs

text \<open>The effect of an outcome on the records of the target.\<close>

definition put_outcome :: "Identity \<Rightarrow> record_map \<Rightarrow> resourceRecord result \<Rightarrow> record_map" where
  "put_outcome i m r = (case r of Inl e \<Rightarrow> m | Inr x \<Rightarrow> m(i \<mapsto> x))"

definition del_outcome :: "Identity \<Rightarrow> record_map \<Rightarrow> goerror option \<Rightarrow> record_map" where
  "del_outcome i m r = (case r of Some e \<Rightarrow> m | None \<Rightarrow> m(i := None))"

definition del_result :: "goerror option \<Rightarrow> unit result" where
  "del_result r = (case r of Some e \<Rightarrow> Inl e | None \<Rightarrow> Inr ())"

lemmas outcome_defs = put_outcome_def del_outcome_def del_result_def map_result_def
  spec_outcome_def status_outcome_def read_outcome_def delete_outcome_def machine_defs

lemma spec_outcome_implements:
  assumes wf: "wf_map v m" and t: "DesireTypeOf i = TypeApply"
  shows "implements (spec_update_spec spec owner n) i m (map_result proj (spec_outcome i spec owner n (m i)))
           (put_outcome i m (spec_outcome i spec owner n (m i)))"
proof (cases "m i")
  case None
  with t show ?thesis by (auto simp: outcome_defs split: option.splits)
next
  case (Some q)
  obtain sp where "rec_Apply q = Some sp" using wf_apply_record [OF wf t Some] by blast
  with wf_apply_excl [OF wf t Some] t Some show ?thesis by (auto simp: outcome_defs split: if_splits)
qed

lemma apply_status_outcome_implements:
  assumes wf: "wf_map v m" and t: "DesireTypeOf i = TypeApply"
  shows "implements (spec_apply_status status n) i m (map_result proj (status_outcome True status n (m i)))
           (put_outcome i m (status_outcome True status n (m i)))"
proof (cases "m i")
  case None
  with t show ?thesis by (auto simp: outcome_defs split: option.splits)
next
  case (Some q)
  obtain sp where "rec_Apply q = Some sp" using wf_apply_record [OF wf t Some] by blast
  with wf_apply_excl [OF wf t Some] t Some show ?thesis by (auto simp: outcome_defs split: if_splits)
qed

lemma delete_status_outcome_implements:
  assumes wf: "wf_map v m" and t: "DesireTypeOf i = TypeDelete"
  shows "implements (spec_delete_status status n) i m (map_result proj (status_outcome False status n (m i)))
           (put_outcome i m (status_outcome False status n (m i)))"
proof (cases "m i")
  case None
  with t show ?thesis by (auto simp: outcome_defs split: option.splits)
next
  case (Some q)
  with wf_delete_excl [OF wf t Some] t show ?thesis by (auto simp: outcome_defs split: if_splits)
qed

lemma read_outcome_implements:
  assumes wf: "wf_map v m" and t: "DesireTypeOf i = TypeRead"
  shows "implements (spec_read_status rst) i m (map_result proj (read_outcome rst (m i)))
           (put_outcome i m (read_outcome rst (m i)))"
proof (cases "m i")
  case None
  with t show ?thesis by (auto simp: outcome_defs split: option.splits)
next
  case (Some q)
  with t wf_sibling_owner [OF wf _ Some] show ?thesis
    by (auto simp: outcome_defs split: option.splits if_splits)
qed

lemma delete_apply_outcome_implements:
  assumes wf: "wf_map v m" and t: "DesireTypeOf i = TypeApply"
  shows "implements (spec_delete_apply owner n) i m (del_result (delete_outcome True what i owner n (m i)))
           (del_outcome i m (delete_outcome True what i owner n (m i)))"
proof (cases "m i")
  case None
  with t show ?thesis by (auto simp: outcome_defs split: option.splits)
next
  case (Some q)
  obtain sp where "rec_Apply q = Some sp" using wf_apply_record [OF wf t Some] by blast
  with wf_apply_excl [OF wf t Some] t Some wf_sibling_owner [OF wf _ Some] show ?thesis
    by (auto simp: outcome_defs split: option.splits if_splits)
qed

lemma delete_delete_outcome_implements:
  assumes wf: "wf_map v m" and t: "DesireTypeOf i = TypeDelete"
  shows "implements (spec_delete_delete owner n) i m (del_result (delete_outcome False what i owner n (m i)))
           (del_outcome i m (delete_outcome False what i owner n (m i)))"
proof (cases "m i")
  case None
  with t show ?thesis by (auto simp: outcome_defs split: option.splits)
next
  case (Some q)
  with wf_delete_excl [OF wf t Some] t wf_sibling_owner [OF wf _ Some] show ?thesis
    by (auto simp: outcome_defs split: option.splits if_splits)
qed

lemma delete_read_outcome_implements:
  assumes wf: "wf_map v m" and t: "DesireTypeOf i = TypeRead"
  shows "implements (spec_delete_read owner n) i m (del_result (delete_outcome False what i owner n (m i)))
           (del_outcome i m (delete_outcome False what i owner n (m i)))"
proof (cases "m i")
  case None
  with t show ?thesis by (auto simp: outcome_defs split: option.splits)
next
  case (Some q)
  note own = wf_sibling_owner [OF wf _ Some] wf_sibling_apply_record [OF wf, of i]
  show ?thesis
    using t Some own
    by (cases "m (sibling i TypeApply)"; cases "m (sibling i TypeDelete)") (auto simp: outcome_defs split: if_splits)
qed

text \<open>An outcome that is written keeps the record where it is, well formed and stable.\<close>

definition rewritten :: "dns_api \<Rightarrow> stability \<Rightarrow> resourceRecord \<Rightarrow> resourceRecord \<Rightarrow> bool" where
  "rewritten v st r x \<longleftrightarrow> rec_Owner x = rec_Owner r \<and> rec_Identity x = rec_Identity r \<and>
     (record_ok v (rec_Identity r) r \<longrightarrow> record_ok v (rec_Identity r) x) \<and>
     (stable_record st r \<longrightarrow> stable_record st x)"

lemma outcome_rewrites:
  "\<lbrakk>spec_outcome i spec owner n found = Inr x; ApplySpec_Validate spec = None; stable_json st (KubeContent spec)\<rbrakk> \<Longrightarrow>
     \<exists>r. found = Some r \<and> rewritten v st r x"
  "\<lbrakk>status_outcome a status n found = Inr x; stable_conds st (Conditions status)\<rbrakk> \<Longrightarrow>
     \<exists>r. found = Some r \<and> rewritten v st r x"
  "\<lbrakk>read_outcome rst found = Inr x; stable_read_status st rst\<rbrakk> \<Longrightarrow>
     \<exists>r. found = Some r \<and> rewritten v st r x"
  by (auto simp: spec_outcome_def status_outcome_def read_outcome_def rewritten_def record_ok_def stable_record_def
      split: option.splits if_splits)

lemma rewritten_keep:
  assumes inv: "red_inv v cd st m" and r: "recmap cd m i = Some r" and x: "rewritten v st r x"
  shows "rec_Identity x = i \<and> stable_record st x \<and> wf_map v ((recmap cd m)(i \<mapsto> x))"
  using recmap_stable [OF inv r] wf_mapD(1) [OF red_inv_wf [OF inv] r] x
    wf_map_update [OF red_inv_wf [OF inv] r, of x]
  by (simp add: rewritten_def)

section \<open>The operations are atomic\<close>

context redis_store
begin

lemma mutate_outcome_op:
  fixes proj :: "resourceRecord option \<Rightarrow> 'd"
  assumes run: "\<And>found. computes (mutate (record_of found) (found \<noteq> None)) (f found)"
    and rew: "\<And>found x. f found = Inr x \<Longrightarrow> \<exists>r. found = Some r \<and> rewritten v st r x"
    and imp: "\<And>m. wf_map v m \<Longrightarrow> implements stp i m (map_result (\<lambda>x. proj (Some x)) (f (m i)))
        (put_outcome i m (f (m i)))"
    and own: "\<And>found e. f found = Inl e \<Longrightarrow> \<not> errors_Is e TxFailedErr \<and> \<not> errors_Is e ErrCASNoop"
    and s: "good s"
  shows "wp (State_Monad.bind (casMutate c cd (redisKey i) mutate) (\<lambda>r. State_Monad.return (map_result proj r)))
    (\<lambda>r s'. good s' \<and> atomic_op env cd stp i (dbs s) r (dbs s')) s"
proof (rule mutate_op, rule run)
  fix m
  assume inv: "red_inv v cd st m"
  note i = imp [OF red_inv_wf [OF inv]]
  show "implements stp i (recmap cd m) (Inl e :: 'd result) (recmap cd m)" if "f (recmap cd m i) = Inl e" for e
    using i that by (simp add: map_result_def put_outcome_def)
  show "rec_Identity x = i \<and> stable_record st x \<and> wf_map v ((recmap cd m)(i \<mapsto> x)) \<and>
      implements stp i (recmap cd m) (Inr (proj (Some x))) ((recmap cd m)(i \<mapsto> x))"
    if x: "f (recmap cd m i) = Inr x" for x
    using i rew [OF x] rewritten_keep [OF inv] x by (auto simp: map_result_def put_outcome_def)
qed (use own s in auto)

lemma update_spec_atomic:
  assumes "good s" "DesireTypeOf i = TypeApply" "ApplySpec_Validate spec = None" "stable_json st (KubeContent spec)"
  shows "wp (red_UpdateApplyDesireSpec c cd i spec owner n)
    (\<lambda>r s'. good s' \<and> atomic_op env cd (spec_update_spec spec owner n) i (dbs s) r (dbs s')) s"
  using mutate_outcome_op [OF mutate_spec_computes outcome_rewrites(1) spec_outcome_implements outcome_errors(1)] assms
  by (simp add: red_UpdateApplyDesireSpec_def)

lemma apply_status_atomic:
  assumes "good s" "DesireTypeOf i = TypeApply" "stable_conds st (Conditions status)"
  shows "wp (red_UpdateApplyDesireStatus c cd i status n)
    (\<lambda>r s'. good s' \<and> atomic_op env cd (spec_apply_status status n) i (dbs s) r (dbs s')) s"
  using mutate_outcome_op [OF mutate_status_computes(1) outcome_rewrites(2) apply_status_outcome_implements
      outcome_errors(2)] assms
  by (simp add: red_UpdateApplyDesireStatus_def)

lemma delete_status_atomic:
  assumes "good s" "DesireTypeOf i = TypeDelete" "stable_conds st (Conditions status)"
  shows "wp (red_UpdateDeleteDesireStatus c cd i status n)
    (\<lambda>r s'. good s' \<and> atomic_op env cd (spec_delete_status status n) i (dbs s) r (dbs s')) s"
  using mutate_outcome_op [OF mutate_status_computes(2) outcome_rewrites(2) delete_status_outcome_implements
      outcome_errors(2)] assms
  by (simp add: red_UpdateDeleteDesireStatus_def)

lemma read_status_atomic:
  assumes "good s" "DesireTypeOf i = TypeRead" "stable_read_status st rst"
  shows "wp (red_UpdateReadDesireStatus c cd i rst)
    (\<lambda>r s'. good s' \<and> atomic_op env cd (spec_read_status rst) i (dbs s) r (dbs s')) s"
  using mutate_outcome_op [OF mutate_status_computes(3) outcome_rewrites(3) read_outcome_implements
      outcome_errors(3)] assms
  by (simp add: red_UpdateReadDesireStatus_def)

lemma delete_outcome_op:
  assumes run: "\<And>found. computes (precheck (record_of found) (found \<noteq> None)) (delete_outcome a what i owner n found)"
    and imp: "\<And>m. wf_map v m \<Longrightarrow> implements stp i m (del_result (delete_outcome a what i owner n (m i)))
        (del_outcome i m (delete_outcome a what i owner n (m i)))"
    and s: "good s"
  shows "wp (casDelete c cd (redisKey i) precheck)
    (\<lambda>r s'. good s' \<and> atomic_op env cd stp i (dbs s) r (dbs s')) s"
proof (rule delete_op, rule run)
  fix m
  assume inv: "red_inv v cd st m"
  note i = imp [OF red_inv_wf [OF inv]]
  show "implements stp i (recmap cd m) (Inr ()) ((recmap cd m)(i := None))"
    if "delete_outcome a what i owner n (recmap cd m i) = None"
    using i that by (simp add: del_result_def del_outcome_def)
  show "implements stp i (recmap cd m) (Inl e :: unit result) (recmap cd m)"
    if "delete_outcome a what i owner n (recmap cd m i) = Some e" for e
    using i that by (simp add: del_result_def del_outcome_def)
qed (use outcome_errors(4) s in auto)

lemma delete_apply_atomic:
  assumes "good s" "DesireTypeOf i = TypeApply"
  shows "wp (red_DeleteApplyDesire c cd i owner n)
    (\<lambda>r s'. good s' \<and> atomic_op env cd (spec_delete_apply owner n) i (dbs s) r (dbs s')) s"
  unfolding red_DeleteApplyDesire_def
  by (rule delete_outcome_op [OF precheck_computes(2) delete_apply_outcome_implements]) (use assms in auto)

lemma delete_delete_atomic:
  assumes "good s" "DesireTypeOf i = TypeDelete"
  shows "wp (red_DeleteDeleteDesire c cd i owner n)
    (\<lambda>r s'. good s' \<and> atomic_op env cd (spec_delete_delete owner n) i (dbs s) r (dbs s')) s"
  unfolding red_DeleteDeleteDesire_def using assms
  by (simp add: delete_outcome_op [OF precheck_computes(1) delete_delete_outcome_implements])

lemma delete_read_atomic:
  assumes "good s" "DesireTypeOf i = TypeRead"
  shows "wp (red_DeleteReadDesire c cd i owner n)
    (\<lambda>r s'. good s' \<and> atomic_op env cd (spec_delete_read owner n) i (dbs s) r (dbs s')) s"
  unfolding red_DeleteReadDesire_def using assms
  by (simp add: delete_outcome_op [OF precheck_computes(1) delete_read_outcome_implements])

end

end
