(* ===== verification/RedisCreate.thy ===== *)
theory RedisCreate
  imports RedisOps
begin

text \<open>
  The three create operations of the Redis-backed store. A create that succeeds is a step of the
  machine at one moment. Its siblings are read one after the other, and an error is returned without
  a commit that would show they belong together; so what holds of an error is that the fact it
  reports was true of the target at some moment of the run, and that nothing was written.
\<close>

section \<open>What the callbacks return\<close>

definition owner_among_sibs :: "string \<Rightarrow> string \<Rightarrow> Identity \<Rightarrow> targetSiblings \<Rightarrow> goerror option" where
  "owner_among_sibs what owner i sibs =
     (case first_owner sibs AllTypes of
        Some other \<Rightarrow>
          if other = owner then None
          else Some (wrap (''desire: create '' @ what @ '' desire '' @ fmt_identity i) ErrOwnerConflict)
      | None \<Rightarrow> None)"

definition apply_built ::
  "find_fn \<Rightarrow> ApplyDesire \<Rightarrow> targetSiblings \<Rightarrow> (resourceRecord \<times> string list) result" where
  "apply_built fnd d sibs =
     (case owner_among_sibs ''apply'' (ad_Owner d) (ad_Identity d) sibs of
        Some err \<Rightarrow> Inl err
      | None \<Rightarrow>
          (case sibs TypeDelete of
             Some deleted \<Rightarrow>
               if \<not> IsDeleted fnd (rec_Status deleted) then Inl ErrDeletePending
               else Inr (new_apply_record d, [redisKey (rec_Identity deleted)])
           | None \<Rightarrow> if sibs TypeApply \<noteq> None then Inl ErrAlreadyExists else Inr (new_apply_record d, [])))"

definition delete_built :: "DeleteDesire \<Rightarrow> targetSiblings \<Rightarrow> (resourceRecord \<times> string list) result" where
  "delete_built d sibs =
     (case owner_among_sibs ''delete'' (dd_Owner d) (dd_Identity d) sibs of
        Some err \<Rightarrow> Inl err
      | None \<Rightarrow>
          if sibs TypeDelete \<noteq> None then Inl ErrAlreadyExists
          else Inr (new_delete_record d,
            (case sibs TypeApply of Some a \<Rightarrow> [redisKey (rec_Identity a)] | None \<Rightarrow> [])))"

definition read_built :: "ReadDesire \<Rightarrow> targetSiblings \<Rightarrow> (resourceRecord \<times> string list) result" where
  "read_built d sibs =
     (case owner_among_sibs ''read'' (rd_Owner d) (rd_Identity d) sibs of
        Some err \<Rightarrow> Inl err
      | None \<Rightarrow> if sibs TypeRead \<noteq> None then Inl ErrAlreadyExists else Inr (new_read_record d, []))"

lemma checkTargetOwner_computes:
  "computes (red_checkTargetOwner owner sibs)
     (case first_owner sibs AllTypes of
        Some other \<Rightarrow> if other = owner then None else Some ErrOwnerConflict | None \<Rightarrow> None)"
  unfolding red_checkTargetOwner_def
  by (cases "first_owner sibs AllTypes") (simp_all add: computes_CheckOwner computes_return)

lemma build_computes:
  "computes (build_apply fnd d sibs) (apply_built fnd d sibs)"
  "computes (build_delete e sibs) (delete_built e sibs)"
  "computes (build_read g sibs) (read_built g sibs)"
  unfolding build_apply_def build_delete_def build_read_def apply_built_def delete_built_def read_built_def
    owner_among_sibs_def
  by (rule computes_bind [OF checkTargetOwner_computes],
      auto simp: computes_return split: option.split)+

section \<open>What an error of a create reports\<close>

definition has_desire :: "DesireType \<Rightarrow> target_state \<Rightarrow> bool" where
  "has_desire ty t \<longleftrightarrow>
     (if ty = TypeApply then (\<exists>e. ts_Intent t = WantApply e)
      else if ty = TypeDelete then (\<exists>e. ts_Intent t = WantDelete e)
      else ts_Read t \<noteq> None)"

definition create_fact :: "find_fn \<Rightarrow> string \<Rightarrow> DesireType \<Rightarrow> goerror \<Rightarrow> spec_state \<Rightarrow> bool" where
  "create_fact fnd owner ty e st \<longleftrightarrow>
     (\<exists>t. st = Some t \<and>
        (((\<exists>p q. e = Wrapf p ErrOwnerConflict q) \<and> ts_Owner t \<noteq> owner) \<or>
         (e = ErrAlreadyExists \<and> has_desire ty t) \<or>
         (e = ErrDeletePending \<and> (\<exists>d. ts_Intent t = WantDelete d \<and> \<not> IsDeleted fnd (de_Status d)))))"

definition atomic_create ::
  "(keyspace \<Rightarrow> keyspace \<Rightarrow> bool) \<Rightarrow> codec \<Rightarrow> (spec_state \<Rightarrow> spec_state result) \<Rightarrow> Identity \<Rightarrow>
   (goerror \<Rightarrow> spec_state \<Rightarrow> bool) \<Rightarrow> keyspace \<Rightarrow> 'd result \<Rightarrow> keyspace \<Rightarrow> bool" where
  "atomic_create env cd stp i rep m0 r m1 \<longleftrightarrow>
     (let lin = linearized env (\<lambda>m (r :: 'd result) m'. implements stp i (recmap cd m) r (recmap cd m')) in
      (\<exists>x. r = Inr x \<and> lin m0 (Inr x) m1) \<or>
      (\<exists>e m. r = Inl e \<and> env m0 m \<and> rep e (target_state_of (recmap cd m) i) \<and> env m m1) \<or>
      (r = Inl ErrAborted \<and> env m0 m1) \<or>
      (\<exists>e. r = Inl e \<and> foreign_error e \<and> (env m0 m1 \<or> (\<exists>x. lin m0 (Inr x) m1))))"

lemma sibling_state:
  assumes wf: "wf_map v m" and r: "m (sibling i ty) = Some r" and ty: "ty \<in> set AllTypes"
  shows "\<exists>t. target_state_of m i = Some t \<and> ts_Owner t = rec_Owner r \<and> has_desire ty t \<and>
    (ty = TypeDelete \<longrightarrow> ts_Intent t = WantDelete (delete_entry_of r))"
proof -
  have own: "\<And>u q. m (sibling i u) = Some q \<Longrightarrow> rec_Owner q = rec_Owner r"
    using wf_mapD(2) [OF wf _ r] by simp
  consider (a) "ty = TypeApply" | (d) "ty = TypeDelete" | (q) "ty = TypeRead"
    using ty by (auto simp: AllTypes_def)
  then show ?thesis
  proof cases
    case a
    then obtain sp where "rec_Apply r = Some sp" using wf_sibling_apply_record [OF wf] r by blast
    with a r show ?thesis
      by (simp add: target_state_of_def state_of_def intent_of_def has_desire_def split: option.split)
  next
    case d
    then have "m (sibling i TypeApply) = None" using wf_map_no_apply [OF wf] r by blast
    with d r show ?thesis
      by (simp add: target_state_of_def state_of_def intent_of_def has_desire_def split: option.split)
  next
    case q
    have st: "\<exists>t. state_of a d (Some r) = Some t \<and> ts_Owner t = rec_Owner r \<and> ts_Read t \<noteq> None"
      if "pred_option (\<lambda>p. rec_Owner p = rec_Owner r) a" "pred_option (\<lambda>p. rec_Owner p = rec_Owner r) d" for a d
      using that by (cases a; cases d) (simp_all add: state_of_def)
    have "\<exists>t. state_of (m (sibling i TypeApply)) (m (sibling i TypeDelete)) (Some r) = Some t \<and>
        ts_Owner t = rec_Owner r \<and> ts_Read t \<noteq> None"
      by (rule st) (auto simp: pred_option_def intro: own)
    with q r show ?thesis by (simp add: target_state_of_def has_desire_def)
  qed
qed

lemma first_owner_Some:
  "first_owner sibs tys = Some o' \<Longrightarrow> \<exists>ty\<in>set tys. \<exists>r. sibs ty = Some r \<and> rec_Owner r = o'"
  by (induction tys) (auto split: option.splits)

text \<open>The record whose presence makes a create fail.\<close>

definition blames :: "find_fn \<Rightarrow> string \<Rightarrow> DesireType \<Rightarrow> goerror \<Rightarrow> DesireType \<Rightarrow> resourceRecord \<Rightarrow> bool" where
  "blames fnd owner ty e u r \<longleftrightarrow>
     ((\<exists>p q. e = Wrapf p ErrOwnerConflict q) \<and> rec_Owner r \<noteq> owner) \<or> (e = ErrAlreadyExists \<and> u = ty) \<or>
     (e = ErrDeletePending \<and> u = TypeDelete \<and> \<not> IsDeleted fnd (rec_Status r))"

lemma blames_owner:
  assumes "owner_among_sibs what owner i sibs = Some e"
  shows "\<exists>u\<in>set AllTypes. \<exists>r. sibs u = Some r \<and> blames fnd owner ty e u r"
proof -
  obtain other where "first_owner sibs AllTypes = Some other" "other \<noteq> owner" "\<exists>p q. e = Wrapf p ErrOwnerConflict q"
    using assms by (auto simp: owner_among_sibs_def split: option.splits if_splits)
  then show ?thesis unfolding blames_def using first_owner_Some by metis
qed

lemma types_all [simp]: "TypeApply \<in> set AllTypes" "TypeDelete \<in> set AllTypes" "TypeRead \<in> set AllTypes"
  by (simp_all add: AllTypes_def)

lemma apply_built_error:
  assumes "apply_built fnd d sibs = Inl e"
  shows "\<exists>u\<in>set AllTypes. \<exists>r. sibs u = Some r \<and> blames fnd (ad_Owner d) TypeApply e u r"
proof (cases "owner_among_sibs ''apply'' (ad_Owner d) (ad_Identity d) sibs")
  case None
  then have "(\<exists>r. sibs TypeDelete = Some r \<and> blames fnd (ad_Owner d) TypeApply e TypeDelete r) \<or>
      (\<exists>r. sibs TypeApply = Some r \<and> blames fnd (ad_Owner d) TypeApply e TypeApply r)"
    using assms by (auto simp: apply_built_def blames_def split: option.splits if_splits)
  then show ?thesis using types_all by blast
qed (use assms blames_owner in \<open>auto simp: apply_built_def\<close>)

lemma delete_built_error:
  assumes "delete_built d sibs = Inl e"
  shows "\<exists>u\<in>set AllTypes. \<exists>r. sibs u = Some r \<and> blames fnd (dd_Owner d) TypeDelete e u r"
proof (cases "owner_among_sibs ''delete'' (dd_Owner d) (dd_Identity d) sibs")
  case None
  then have "\<exists>r. sibs TypeDelete = Some r \<and> blames fnd (dd_Owner d) TypeDelete e TypeDelete r"
    using assms by (auto simp: delete_built_def blames_def split: if_splits)
  then show ?thesis using types_all by blast
qed (use assms blames_owner in \<open>auto simp: delete_built_def\<close>)

lemma read_built_error:
  assumes "read_built d sibs = Inl e"
  shows "\<exists>u\<in>set AllTypes. \<exists>r. sibs u = Some r \<and> blames fnd (rd_Owner d) TypeRead e u r"
proof (cases "owner_among_sibs ''read'' (rd_Owner d) (rd_Identity d) sibs")
  case None
  then have "\<exists>r. sibs TypeRead = Some r \<and> blames fnd (rd_Owner d) TypeRead e TypeRead r"
    using assms by (auto simp: read_built_def blames_def split: if_splits)
  then show ?thesis using types_all by blast
qed (use assms blames_owner in \<open>auto simp: read_built_def\<close>)

lemma blames_fact:
  assumes wf: "wf_map v m" and r: "m (sibling i u) = Some r" and u: "u \<in> set AllTypes"
    and b: "blames fnd owner ty e u r"
  shows "create_fact fnd owner ty e (target_state_of m i)"
proof -
  obtain t where t: "target_state_of m i = Some t" "ts_Owner t = rec_Owner r" "has_desire u t"
    "u = TypeDelete \<Longrightarrow> ts_Intent t = WantDelete (delete_entry_of r)"
    using sibling_state [OF wf r u] by blast
  with b show ?thesis by (auto simp: create_fact_def blames_def delete_entry_of_def)
qed

section \<open>A create that succeeds\<close>

lemma red_inv_create:
  assumes inv: "red_inv v cd st m" and b: "json_Unmarshal cd b = Inr x" and x: "rec_Identity x = i" "stable_record st x"
    and j: "j \<noteq> i" and wf: "wf_map v (((recmap cd m)(j := None))(i \<mapsto> x))"
  shows "red_inv v cd st ((m(redisKey i \<mapsto> b))(redisKey j := None))"
proof -
  have "(m(redisKey i \<mapsto> b))(redisKey j := None) = (m(redisKey j := None))(redisKey i \<mapsto> b)"
    using j by (intro fun_upd_twist) simp
  moreover have "red_inv v cd st ((m(redisKey j := None))(redisKey i \<mapsto> b))"
    by (rule red_inv_set [OF red_inv_del [OF inv] b x]) (use wf in simp)
  ultimately show ?thesis by simp
qed

lemma first_owner_sibs_of:
  "first_owner (sibs_of cd i m) AllTypes = map_option ts_Owner (target_state_of (recmap cd m) i)"
  by (auto simp: sibs_of_def AllTypes_def target_state_of_def state_of_def split: option.splits)

lemma owner_among_sibs_of:
  "owner_among_sibs what owner i (sibs_of cd i m) = None \<longleftrightarrow> owner_agrees owner (target_state_of (recmap cd m) i)"
  by (auto simp: owner_among_sibs_def first_owner_sibs_of owner_agrees_def split: option.splits)

lemma sibs_of_types:
  "sibs_of cd i m TypeApply = recmap cd m (sibling i TypeApply)"
  "sibs_of cd i m TypeDelete = recmap cd m (sibling i TypeDelete)"
  "sibs_of cd i m TypeRead = recmap cd m (sibling i TypeRead)"
  by (simp_all add: sibs_of_def AllTypes_def)

lemma stable_new_records:
  assumes "stable_text st []" "stable_conds st []"
  shows "\<lbrakk>stable_identity st (ad_Identity d); stable_text st (ad_Owner d); stable_text st (ad_OriginID d);
      stable_json st (KubeContent (ad_Spec d))\<rbrakk> \<Longrightarrow> stable_record st (new_apply_record d)"
    and "\<lbrakk>stable_identity st (dd_Identity e); stable_text st (dd_Owner e); stable_text st (dd_OriginID e)\<rbrakk> \<Longrightarrow>
      stable_record st (new_delete_record e)"
    and "\<lbrakk>stable_identity st (rd_Identity g); stable_text st (rd_Owner g); stable_text st (rd_OriginID g);
      stable_text st (rd_TargetVersion g)\<rbrakk> \<Longrightarrow> stable_record st (new_read_record g)"
  using assms by (simp_all add: stable_record_def stable_read_status_def new_apply_record_def
      new_delete_record_def new_read_record_def zero_record_def zero_ReadStatus_def zero_Status_def)

lemma apply_built_ok:
  assumes inv: "red_inv v cd st m" and val: "ApplyDesire_Validate v d = None"
    and g: "apply_built fnd d (sibs_of cd (ad_Identity d) m) = Inr (x, ks)"
    and b: "json_Unmarshal cd b = Inr x" and x: "stable_record st x"
  shows "red_inv v cd st (apply_cmds (SetCmd (redisKey (rec_Identity x)) b # map DelCmd ks) m) \<and>
    implements (spec_create_apply fnd d) (ad_Identity d) (recmap cd m) (Inr y)
      (recmap cd (apply_cmds (SetCmd (redisKey (rec_Identity x)) b # map DelCmd ks) m))"
proof -
  let ?i = "ad_Identity d" and ?m = "recmap cd m"
  note t = ApplyDesire_Validate_type [OF val] and wf = red_inv_wf [OF inv]
  have own: "owner_agrees (ad_Owner d) (target_state_of ?m ?i)"
    using g owner_among_sibs_of by (auto simp: apply_built_def split: option.splits)
  have xs: "x = new_apply_record d" using g by (auto simp: apply_built_def split: option.splits if_splits)
  have ok: "wf_map v ((?m(sibling ?i TypeDelete := None))(?i \<mapsto> x))"
    unfolding xs by (rule wf_map_create [OF wf validated_record_ok(1) [OF val]])
      (use own t in \<open>auto split: if_splits\<close>)
  show ?thesis
  proof (cases "?m (sibling ?i TypeDelete)")
    case None
    have self: "sibling ?i TypeApply = ?i" using t by simp
    have new: "?m ?i = None" "ks = []"
      using g None by (auto simp: apply_built_def sibs_of_types self split: option.splits if_splits)
    have same: "?m(sibling ?i TypeDelete := None) = ?m" using None by auto
    have "red_inv v cd st (m(redisKey ?i \<mapsto> b))"
      by (rule red_inv_set [OF inv b _ x]) (use ok same xs in simp_all)
    moreover have "implements (spec_create_apply fnd d) ?i ?m (Inr y) (?m(?i \<mapsto> x))"
      using own new t None xs
      by (cases "?m (sibling ?i TypeRead)") (auto simp: machine_defs owner_agrees_def new_apply_record_def
          zero_record_def zero_Status_def InitialGeneration_def)
    ultimately show ?thesis using new b xs by simp
  next
    case (Some q)
    have q: "ks = [redisKey (sibling ?i TypeDelete)]" "IsDeleted fnd (rec_Status q)"
      using g Some recmap_stable [OF inv Some]
      by (auto simp: apply_built_def sibs_of_types split: option.splits if_splits)
    have new: "?m ?i = None" using wf_map_no_apply [OF wf Some] t by (metis sibling_simps(8))
    have ne: "sibling ?i TypeDelete \<noteq> ?i" using t by simp
    have eq: "(?m(?i \<mapsto> x))(sibling ?i TypeDelete := None) = (?m(sibling ?i TypeDelete := None))(?i \<mapsto> x)"
      using ne by (intro fun_upd_twist) simp
    have "red_inv v cd st ((m(redisKey ?i \<mapsto> b))(redisKey (sibling ?i TypeDelete) := None))"
      by (rule red_inv_create [OF inv b _ x ne ok]) (simp add: xs)
    moreover have "implements (spec_create_apply fnd d) ?i ?m (Inr y) ((?m(sibling ?i TypeDelete := None))(?i \<mapsto> x))"
      using own new t Some xs q(2)
      by (cases "?m (sibling ?i TypeRead)") (auto simp: machine_defs owner_agrees_def new_apply_record_def
          zero_record_def zero_Status_def InitialGeneration_def)
    ultimately show ?thesis using q(1) b xs eq by simp
  qed
qed

lemma delete_built_ok:
  assumes inv: "red_inv v cd st m" and val: "DeleteDesire_Validate v d = None"
    and g: "delete_built d (sibs_of cd (dd_Identity d) m) = Inr (x, ks)"
    and b: "json_Unmarshal cd b = Inr x" and x: "stable_record st x"
  shows "red_inv v cd st (apply_cmds (SetCmd (redisKey (rec_Identity x)) b # map DelCmd ks) m) \<and>
    implements (spec_create_delete d) (dd_Identity d) (recmap cd m) (Inr y)
      (recmap cd (apply_cmds (SetCmd (redisKey (rec_Identity x)) b # map DelCmd ks) m))"
proof -
  let ?i = "dd_Identity d" and ?m = "recmap cd m"
  note t = DeleteDesire_Validate_type [OF val] and wf = red_inv_wf [OF inv]
  have self: "sibling ?i TypeDelete = ?i" using t by simp
  have own: "owner_agrees (dd_Owner d) (target_state_of ?m ?i)"
    using g owner_among_sibs_of by (auto simp: delete_built_def split: option.splits)
  have xs: "x = new_delete_record d" and new: "?m ?i = None"
    and ks: "ks = (case ?m (sibling ?i TypeApply) of Some a \<Rightarrow> [redisKey (rec_Identity a)] | None \<Rightarrow> [])"
    using g by (auto simp: delete_built_def sibs_of_types self split: option.splits if_splits)
  have ok: "wf_map v ((?m(sibling ?i TypeApply := None))(?i \<mapsto> x))"
    unfolding xs by (rule wf_map_create [OF wf validated_record_ok(2) [OF val]])
      (use own t in \<open>auto split: if_splits\<close>)
  note defs = machine_defs owner_agrees_def new_delete_record_def zero_record_def zero_Status_def InitialGeneration_def
  have imp: "implements (spec_create_delete d) ?i ?m (Inr y) ((?m(sibling ?i TypeApply := None))(?i \<mapsto> x))"
    using own new t xs wf_sibling_apply_record [OF wf, of ?i]
    by (cases "?m (sibling ?i TypeApply)"; cases "?m (sibling ?i TypeRead)") (auto simp: defs)
  show ?thesis
  proof (cases "?m (sibling ?i TypeApply)")
    case None
    have same: "?m(sibling ?i TypeApply := None) = ?m" using None by auto
    have "red_inv v cd st (m(redisKey ?i \<mapsto> b))"
      by (rule red_inv_set [OF inv b _ x]) (use ok same xs in simp_all)
    with imp show ?thesis using None ks b xs same by simp
  next
    case (Some q)
    have ne: "sibling ?i TypeApply \<noteq> ?i" using t by simp
    have eq: "(?m(?i \<mapsto> x))(sibling ?i TypeApply := None) = (?m(sibling ?i TypeApply := None))(?i \<mapsto> x)"
      using ne by (intro fun_upd_twist) simp
    have "red_inv v cd st ((m(redisKey ?i \<mapsto> b))(redisKey (sibling ?i TypeApply) := None))"
      by (rule red_inv_create [OF inv b _ x ne ok]) (simp add: xs)
    with imp show ?thesis using ks b xs eq Some recmap_stable [OF inv Some] by simp
  qed
qed

lemma read_built_ok:
  assumes inv: "red_inv v cd st m" and val: "ReadDesire_Validate v d = None"
    and g: "read_built d (sibs_of cd (rd_Identity d) m) = Inr (x, ks)"
    and b: "json_Unmarshal cd b = Inr x" and x: "stable_record st x"
  shows "red_inv v cd st (apply_cmds (SetCmd (redisKey (rec_Identity x)) b # map DelCmd ks) m) \<and>
    implements (spec_create_read d) (rd_Identity d) (recmap cd m) (Inr y)
      (recmap cd (apply_cmds (SetCmd (redisKey (rec_Identity x)) b # map DelCmd ks) m))"
proof -
  let ?i = "rd_Identity d" and ?m = "recmap cd m"
  note t = ReadDesire_Validate_type [OF val] and wf = red_inv_wf [OF inv]
  have self: "sibling ?i TypeRead = ?i" using t by simp
  have own: "owner_agrees (rd_Owner d) (target_state_of ?m ?i)"
    using g owner_among_sibs_of by (auto simp: read_built_def split: option.splits)
  have xs: "x = new_read_record d" "ks = []" and new: "?m ?i = None"
    using g by (auto simp: read_built_def sibs_of_types self split: option.splits if_splits)
  have ok: "wf_map v (?m(?i \<mapsto> x))"
    unfolding xs by (rule wf_map_create [OF wf validated_record_ok(3) [OF val]])
      (use own t in \<open>auto split: if_splits\<close>)
  note defs = machine_defs owner_agrees_def new_read_record_def zero_record_def zero_Status_def
    zero_ReadStatus_def InitialGeneration_def
  have "implements (spec_create_read d) ?i ?m (Inr y) (?m(?i \<mapsto> x))"
    using own new t xs
    by (cases "?m (sibling ?i TypeApply)"; cases "?m (sibling ?i TypeDelete)") (auto simp: defs split: option.splits)
  moreover have "red_inv v cd st (m(redisKey ?i \<mapsto> b))"
    by (rule red_inv_set [OF inv b _ x]) (use ok xs in simp_all)
  ultimately show ?thesis using b xs by simp
qed

section \<open>The operations\<close>

context redis_store
begin

lemma create_op:
  fixes proj :: "resourceRecord option \<Rightarrow> 'd"
  assumes run: "\<And>sibs. computes (build sibs) (g sibs)"
    and bad: "\<And>sibs e. g sibs = Inl e \<Longrightarrow> \<exists>u\<in>set AllTypes. \<exists>r. sibs u = Some r \<and> blames fnd owner ty e u r"
    and ok: "\<And>m x ks b. \<lbrakk>red_inv v cd st m; g (sibs_of cd i m) = Inr (x, ks); json_Unmarshal cd b = Inr x;
        stable_record st x\<rbrakk> \<Longrightarrow>
        red_inv v cd st (apply_cmds (SetCmd (redisKey (rec_Identity x)) b # map DelCmd ks) m) \<and>
        implements stp i (recmap cd m) (Inr (proj (Some x)))
          (recmap cd (apply_cmds (SetCmd (redisKey (rec_Identity x)) b # map DelCmd ks) m))"
    and stable: "\<And>sibs x ks. g sibs = Inr (x, ks) \<Longrightarrow> stable_record st x"
    and s: "good s"
  shows "wp (State_Monad.bind (casCreate c cd i build) (\<lambda>r. State_Monad.return (map_result proj r)))
    (\<lambda>r s'. good s' \<and> atomic_create env cd stp i (create_fact fnd owner ty) (dbs s) r (dbs s')) s"
proof -
  let ?fails = "\<lambda>m e. create_fact fnd owner ty e (target_state_of (recmap cd m) i)"
  let ?L = "linearized env (\<lambda>m (r :: 'd result) m'. implements stp i (recmap cd m) r (recmap cd m')) (dbs s)"
  have inv: "red_inv v cd st m" if "env (dbs s) m" for m using that s env_inv by (auto simp: good_def)
  have com: "?L (Inr (proj (Some x))) m1" if lin: "linearized env (create_commit cd i g) (dbs s) x m1" for x m1
    by (rule linearized_mono [OF lin]) (use ok inv stable in \<open>auto simp: create_commit_def\<close>)
  have domain: "\<not> errors_Is e TxFailedErr \<and> \<not> errors_Is e ErrCASNoop" if "?fails m e" for m e
    using that by (auto simp: create_fact_def)
  have "wp (casCreate c cd i build) (\<lambda>r s'. good s' \<and>
      retry_ok env (create_commit cd i g) ?fails (dbs s) r (dbs s')) s"
    unfolding casCreate_def
  proof (rule watchRetry_ok [OF create_body _ s], rule run)
    fix s' t sibs e
    assume seen: "\<forall>u\<in>set AllTypes. seen s' i t u (sibs u)" and e: "g sibs = Inl e"
    obtain u r where u: "u \<in> set AllTypes" "sibs u = Some r" "blames fnd owner ty e u r" using bad [OF e] by blast
    obtain m where m: "env (dbs s') m" "env m (dbs t)" "red_inv v cd st m" "recmap cd m (sibling i u) = Some r"
      using seen u by (auto simp: seen_def)
    show "\<exists>m. env (dbs s') m \<and> env m (dbs t) \<and> ?fails m e"
      using m blames_fact [OF red_inv_wf [OF m(3)] m(4) u(1,3)] by blast
  qed (use ok stable domain in blast)+
  then show ?thesis
    unfolding wp_bind
  proof (rule wp_mono, elim conjE)
    fix r t
    assume t: "good t" and ok: "retry_ok env (create_commit cd i g) ?fails (dbs s) r (dbs t)"
    have noop: "\<not> errors_Is e ErrCASNoop" if "linearized env (\<lambda>m e m'. ?fails m e \<and> m' = m) (dbs s) e m1" for e m1
      using that domain unfolding linearized_def by blast
    have fct: "\<exists>m. env (dbs s) m \<and> ?fails m e \<and> env m m1"
      if "linearized env (\<lambda>m e m'. ?fails m e \<and> m' = m) (dbs s) e m1" for e m1
      using that unfolding linearized_def by blast
    have "atomic_create env cd stp i (create_fact fnd owner ty) (dbs s) (map_result proj r) (dbs t)"
      using ok com noop fct unfolding retry_ok_def atomic_create_def map_result_def Let_def
      by (simp split: sum.split_asm option.split_asm; blast)
    with t show "wp (State_Monad.return (map_result proj r)) (\<lambda>r s'. good s' \<and>
        atomic_create env cd stp i (create_fact fnd owner ty) (dbs s) r (dbs s')) t"
      by (simp add: wp_return)
  qed
qed

lemma create_apply_atomic:
  assumes "good s" and val: "ApplyDesire_Validate v d = None"
    and "stable_identity st (ad_Identity d)" "stable_text st (ad_Owner d)" "stable_text st (ad_OriginID d)"
      "stable_json st (KubeContent (ad_Spec d))"
  shows "wp (red_CreateApplyDesire v fnd c cd d) (\<lambda>r s'. good s' \<and>
    atomic_create env cd (spec_create_apply fnd d) (ad_Identity d) (create_fact fnd (ad_Owner d) TypeApply)
      (dbs s) r (dbs s')) s"
proof -
  have "stable_record st x" if "apply_built fnd d sibs = Inr (x, ks)" for sibs x ks
    using that stable_new_records(1) [OF stable_empty] assms
    by (auto simp: apply_built_def split: option.splits if_splits)
  with assms(1) val show ?thesis
    by (simp add: red_CreateApplyDesire_def)
      (rule create_op [OF build_computes(1) apply_built_error apply_built_ok [OF _ val]], simp_all)
qed

lemma create_delete_atomic:
  assumes "good s" and val: "DeleteDesire_Validate v d = None"
    and "stable_identity st (dd_Identity d)" "stable_text st (dd_Owner d)" "stable_text st (dd_OriginID d)"
  shows "wp (red_CreateDeleteDesire v c cd d) (\<lambda>r s'. good s' \<and>
    atomic_create env cd (spec_create_delete d) (dd_Identity d) (create_fact fnd (dd_Owner d) TypeDelete)
      (dbs s) r (dbs s')) s"
proof -
  have "stable_record st x" if "delete_built d sibs = Inr (x, ks)" for sibs x ks
    using that stable_new_records(2) [OF stable_empty] assms
    by (auto simp: delete_built_def split: option.splits if_splits)
  with assms(1) val show ?thesis
    by (simp add: red_CreateDeleteDesire_def)
      (rule create_op [OF build_computes(2) delete_built_error delete_built_ok [OF _ val]], simp_all)
qed

lemma create_read_atomic:
  assumes "good s" and val: "ReadDesire_Validate v d = None"
    and "stable_identity st (rd_Identity d)" "stable_text st (rd_Owner d)" "stable_text st (rd_OriginID d)"
      "stable_text st (rd_TargetVersion d)"
  shows "wp (red_CreateReadDesire v c cd d) (\<lambda>r s'. good s' \<and>
    atomic_create env cd (spec_create_read d) (rd_Identity d) (create_fact fnd (rd_Owner d) TypeRead)
      (dbs s) r (dbs s')) s"
proof -
  have "stable_record st x" if "read_built d sibs = Inr (x, ks)" for sibs x ks
    using that stable_new_records(3) [OF stable_empty] assms
    by (auto simp: read_built_def split: option.splits if_splits)
  with assms(1) val show ?thesis
    by (simp add: red_CreateReadDesire_def)
      (rule create_op [OF build_computes(3) read_built_error read_built_ok [OF _ val]], simp_all)
qed

end

end
