(* ===== verification/RedisList.thy ===== *)
theory RedisList
  imports RedisCreate
begin

text \<open>
  Reading from the Redis-backed store while others write: a record that is returned was in the store
  at some moment of the run; a listing holds nothing twice and misses no desire that was there all
  the time; the SCAN loop ends; a prefix delete removes only records its selector matches.
\<close>

lemma collect_keys_set: "set (collect_keys keys ks) = set keys \<union> set ks"
  by (induction ks arbitrary: keys) auto

lemma collect_keys_distinct: "distinct keys \<Longrightarrow> distinct (collect_keys keys ks)"
  by (induction ks arbitrary: keys) auto

definition value_at :: "keyspace \<Rightarrow> string \<Rightarrow> redis_value" where
  "value_at m k = (case m k of None \<Rightarrow> NilValue | Some b \<Rightarrow> StringValue b)"

lemma copy_batch_exact [simp]: "length batch = n \<Longrightarrow> copy_batch n batch = batch"
  by (simp add: copy_batch_def)

lemma mcScanPrefix_plain: "mcScanPrefix mc = keyPrefix @ PathEscape mc @ ''/''"
  by (simp add: mcScanPrefix_def globEscaper_PathEscape)

lemma mcScanPrefix_no_meta: "set (mcScanPrefix mc) \<inter> glob_meta = {}"
proof -
  have "x \<notin> set (PathEscape mc)" if "x \<in> glob_meta" for x
    using that by (intro PathEscape_safe) (auto simp: glob_meta_def)
  moreover have "set keyPrefix \<inter> glob_meta = {}" "CHR ''/'' \<notin> glob_meta"
    by (auto simp: keyPrefix_def glob_meta_def)
  ultimately show ?thesis unfolding mcScanPrefix_plain by auto
qed

text \<open>A listing under interference, and what a prefix delete and the other clients do together.\<close>

definition listed ::
  "(keyspace \<Rightarrow> keyspace \<Rightarrow> bool) \<Rightarrow> codec \<Rightarrow> string \<Rightarrow> DesireType \<Rightarrow> (resourceRecord \<Rightarrow> 'd) \<Rightarrow>
   keyspace \<Rightarrow> 'd list result option \<Rightarrow> keyspace \<Rightarrow> bool" where
  "listed env cd mc ty proj m0 r m1 \<longleftrightarrow>
     (case r of None \<Rightarrow> False
      | Some (Inl e) \<Rightarrow> foreign_error e
      | Some (Inr ds) \<Rightarrow>
          (\<exists>rs. ds = map proj rs \<and> distinct (map rec_Identity rs) \<and>
             (\<forall>x\<in>set rs. ManagementCluster (rec_Identity x) = mc \<and> DesireTypeOf (rec_Identity x) = ty \<and>
                (\<exists>m. env m0 m \<and> env m m1 \<and> recmap cd m (rec_Identity x) = Some x)) \<and>
             (\<forall>i. ManagementCluster i = mc \<and> DesireTypeOf i = ty \<and> (\<forall>m. env m0 m \<longrightarrow> recmap cd m i \<noteq> None) \<longrightarrow>
                i \<in> rec_Identity ` set rs)))"

definition prune_step ::
  "(keyspace \<Rightarrow> keyspace \<Rightarrow> bool) \<Rightarrow> codec \<Rightarrow> string \<Rightarrow> PrefixSelector \<Rightarrow> keyspace \<Rightarrow> keyspace \<Rightarrow> bool" where
  "prune_step env cd mc sel m m' \<longleftrightarrow>
     env m m' \<or>
     (\<exists>i r. recmap cd m i = Some r \<and> ManagementCluster i = mc \<and> Matches sel i \<and> m' = m(redisKey i := None))"

definition pruned ::
  "(keyspace \<Rightarrow> keyspace \<Rightarrow> bool) \<Rightarrow> codec \<Rightarrow> string \<Rightarrow> PrefixSelector \<Rightarrow> keyspace \<Rightarrow> keyspace \<Rightarrow> bool" where
  "pruned env cd mc sel = (prune_step env cd mc sel)\<^sup>*\<^sup>*"

lemma recmap_present: "recmap cd m i \<noteq> None \<Longrightarrow> m (redisKey i) \<noteq> None"
  by (cases "m (redisKey i)") (simp_all add: recmap_def)

lemma pruned_trans: "pruned env cd mc sel m m' \<Longrightarrow> pruned env cd mc sel m' m'' \<Longrightarrow> pruned env cd mc sel m m''"
  unfolding pruned_def by (rule rtranclp_trans)

lemma pruned_env: "env m m' \<Longrightarrow> pruned env cd mc sel m m'"
  unfolding pruned_def by (rule r_into_rtranclp) (simp add: prune_step_def)

context redis_store
begin

definition moment :: "'w rworld \<Rightarrow> 'w rworld \<Rightarrow> keyspace \<Rightarrow> bool" where
  "moment s s' m \<longleftrightarrow> env (dbs s) m \<and> env m (dbs s') \<and> red_inv v cd st m"

lemma moment_env:
  "env (dbs s0) (dbs s) \<Longrightarrow> moment s s' m \<Longrightarrow> moment s0 s' m"
  "moment s s' m \<Longrightarrow> env (dbs s') (dbs s1) \<Longrightarrow> moment s s1 m"
  unfolding moment_def using env_trans by blast+

lemma moment_now: "good s' \<Longrightarrow> env (dbs s) (dbs s') \<Longrightarrow> moment s s' (dbs s')"
  unfolding moment_def good_def using env_refl by blast

lemma load_record:
  assumes s: "good s"
  shows "wp (loadRecord c cd (redisKey i)) (\<lambda>r s'. good s' \<and> env (dbs s) (dbs s') \<and>
    (case r of Inr x \<Rightarrow> recmap cd (dbs s') i = Some x
             | Inl e \<Rightarrow> (e = ErrNotFound \<and> recmap cd (dbs s') i = None) \<or> foreign_error e)) s"
proof -
  obtain r w where w: "cl_Get c (redisKey i) (rw_server s) = (r, w)" by fastforce
  note law = get_law [OF _ w]
  have g: "good (s\<lparr>rw_server := w\<rparr>)" using good_env [OF s] law s by (simp add: good_def)
  show ?thesis
  proof (cases r)
    case (Inl e)
    then show ?thesis
      using law s g w by (auto simp: loadRecord_def wp_rules good_def recmap_def errors_Is_sentinel foreign_errorD)
  next
    case (Inr b)
    then have "db w (redisKey i) = Some b" using law s by (simp add: good_def)
    then obtain x where "json_Unmarshal cd b = Inr x" "recmap cd (db w) i = Some x"
      using red_inv_stored g by (metis good_def rworld.select_convs(1) rworld.surjective rworld.update_convs(1))
    then show ?thesis using Inr law s g w by (auto simp: loadRecord_def wp_rules good_def)
  qed
qed

text \<open>A key nobody removes, and what a scan that still has to return the keys \<open>S\<close> returns.\<close>

definition stays :: "'w rworld \<Rightarrow> string \<Rightarrow> bool" where
  "stays s k \<longleftrightarrow> (\<forall>m. env (dbs s) m \<longrightarrow> m k \<noteq> None)"

definition scanned :: "string \<Rightarrow> string set \<Rightarrow> string list result option \<Rightarrow> bool" where
  "scanned pat S r \<longleftrightarrow>
     (case r of None \<Rightarrow> False
      | Some (Inl e) \<Rightarrow> foreign_error e
      | Some (Inr ks) \<Rightarrow> distinct ks \<and> (\<forall>k\<in>set ks. glob pat k) \<and> S \<subseteq> set ks)"

lemma scanned_mono: "scanned pat S r \<Longrightarrow> S' \<subseteq> S \<Longrightarrow> scanned pat S' r"
  unfolding scanned_def by (auto split: option.splits sum.splits)

lemma scan_loop_ok:
  assumes "good s" "distinct keys" "\<forall>k\<in>set keys. glob pat k" "remaining cursor < fuel"
  shows "wp (scan_loop fuel c pat cursor keys) (\<lambda>r s'. good s' \<and> env (dbs s) (dbs s') \<and>
    scanned pat {k. stays s k \<and> (k \<in> set keys \<or> pending pat cursor k)} r) s"
  using assms
proof (induction fuel arbitrary: s cursor keys)
  case (Suc fuel)
  obtain page w where w: "cl_Scan c cursor pat scanCount (rw_server s) = (page, w)" by fastforce
  note law = scan_law [OF _ w]
  have e: "env (dbs s) (db w)" and g: "good (s\<lparr>rw_server := w\<rparr>)"
    using good_env [OF Suc.prems(1)] law Suc.prems(1) by (simp_all add: good_def)
  show ?case
  proof (cases page)
    case (Inl err)
    then show ?thesis using law Suc.prems(1) g w e by (simp add: wp_rules good_def scanned_def)
  next
    case (Inr p)
    obtain ks nxt where p: "p = (ks, nxt)" by (cases p)
    let ?keys = "collect_keys keys ks"
    have page: "\<forall>k\<in>set ks. glob pat k" "nxt \<noteq> 0 \<Longrightarrow> remaining nxt < remaining cursor"
      "\<And>k. db w k \<noteq> None \<Longrightarrow> pending pat cursor k \<Longrightarrow> k \<in> set ks \<or> (nxt \<noteq> 0 \<and> pending pat nxt k)"
      using law Suc.prems(1) Inr p by (auto simp: good_def)
    have d: "distinct ?keys" "\<forall>k\<in>set ?keys. glob pat k"
      using Suc.prems(2,3) page(1) by (auto simp: collect_keys_distinct collect_keys_set)
    let ?s = "s\<lparr>rw_server := w\<rparr>"
    have progress: "k \<in> set ?keys \<or> (nxt \<noteq> 0 \<and> pending pat nxt k)"
      if "stays s k" "k \<in> set keys \<or> pending pat cursor k" for k
      using that page(3) [of k] e unfolding stays_def collect_keys_set by blast
    show ?thesis
    proof (cases "nxt = 0")
      case True
      then show ?thesis using Inr p w g e d progress by (auto simp: wp_rules scanned_def)
    next
      case False
      have later: "stays s k \<Longrightarrow> stays ?s k" for k
        using env_trans [OF e] by (simp add: stays_def)
      have "remaining nxt < fuel" using page(2) False Suc.prems(4) by simp
      from Suc.IH [OF g d this]
      have "wp (scan_loop fuel c pat nxt ?keys) (\<lambda>r s'. good s' \<and> env (dbs s) (dbs s') \<and>
        scanned pat {k. stays s k \<and> (k \<in> set keys \<or> pending pat cursor k)} r) ?s"
      proof (rule wp_mono, elim conjE, intro conjI)
        fix r t
        assume sc: "scanned pat {k. stays ?s k \<and> (k \<in> set ?keys \<or> pending pat nxt k)} r" and "env (dbs ?s) (dbs t)"
        then show "env (dbs s) (dbs t)" using env_trans [OF e] by simp
        show "scanned pat {k. stays s k \<and> (k \<in> set keys \<or> pending pat cursor k)} r"
          by (rule scanned_mono [OF sc]) (use later progress in blast)
      qed
      then show ?thesis using Inr p w False by (simp add: wp_rules Let_def)
    qed
  qed
qed simp

text \<open>The values of a batch are those of one moment; those of different batches need not be.\<close>

definition valued :: "'w rworld \<Rightarrow> 'w rworld \<Rightarrow> string \<Rightarrow> redis_value \<Rightarrow> bool" where
  "valued s s' k x \<longleftrightarrow> (\<exists>m. moment s s' m \<and> x = value_at m k)"

lemma mget_loop_ok:
  "good s \<Longrightarrow> wp (mget_loop c keys) (\<lambda>r s'. good s' \<and> env (dbs s) (dbs s') \<and>
     (case r of Inl e \<Rightarrow> foreign_error e | Inr vs \<Rightarrow> list_all2 (valued s s') keys vs)) s"
proof (induction "length keys" arbitrary: keys s rule: less_induct)
  case less
  show ?case
  proof (cases "keys = []")
    case True
    then show ?thesis using less.prems by (simp add: wp_rules env_refl mget_loop.simps)
  next
    case False
    let ?now = "take mgetBatch keys" and ?rest = "drop mgetBatch keys"
    obtain vals w where w: "cl_MGet c ?now (rw_server s) = (vals, w)" by fastforce
    note law = mget_law [OF _ w]
    have e: "env (dbs s) (db w)" and g: "good (s\<lparr>rw_server := w\<rparr>)"
      using good_env [OF less.prems] law less.prems by (simp_all add: good_def)
    let ?s = "s\<lparr>rw_server := w\<rparr>"
    show ?thesis
    proof (cases vals)
      case (Inl err)
      then show ?thesis using False law less.prems g w e
        by (subst mget_loop.simps) (simp add: wp_rules good_def)
    next
      case (Inr vs)
      have vs: "vs = map (value_at (db w)) ?now"
        using law less.prems Inr by (simp add: good_def value_at_def)
      have "length ?rest < length keys" using False by (simp add: mgetBatch_def)
      from less.hyps [OF this g]
      have "wp (mget_loop c ?rest) (\<lambda>r s'. good s' \<and> env (dbs s) (dbs s') \<and>
        (case map_result (\<lambda>xs. copy_batch (length ?now) vs @ xs) r of
           Inl e \<Rightarrow> foreign_error e | Inr vs \<Rightarrow> list_all2 (valued s s') keys vs)) ?s"
      proof (rule wp_mono, elim conjE, intro conjI)
        fix r t
        assume t: "env (dbs ?s) (dbs t)"
          and r: "case r of Inl e \<Rightarrow> foreign_error e | Inr vs \<Rightarrow> list_all2 (valued ?s t) ?rest vs"
        show "env (dbs s) (dbs t)" using env_trans [OF e] t by simp
        have "moment s t (db w)" using moment_env(2) [OF moment_now [OF g], of s t] e t by simp
        then have "list_all2 (valued s t) ?now vs"
          unfolding vs by (auto simp: list_all2_conv_all_nth valued_def)
        moreover have "list_all2 (valued s t) ?rest xs" if "list_all2 (valued ?s t) ?rest xs" for xs
          using that by (rule list_all2_mono) (use moment_env(1) [of s ?s] e in \<open>auto simp: valued_def\<close>)
        ultimately have "list_all2 (valued s t) (?now @ ?rest) (vs @ xs)"
          if "list_all2 (valued ?s t) ?rest xs" for xs using that by (intro list_all2_appendI)
        with r show "case map_result (\<lambda>xs. copy_batch (length ?now) vs @ xs) r of
           Inl e \<Rightarrow> foreign_error e | Inr vs \<Rightarrow> list_all2 (valued s t) keys vs"
          by (auto simp: map_result_def vs split: sum.splits)
      qed
      then show ?thesis using False Inr w by (subst mget_loop.simps) (simp add: wp_rules wp_return_eta)
    qed
  qed
qed

text \<open>A record that was stored at a moment of the run, in a management cluster.\<close>

definition stored :: "string \<Rightarrow> 'w rworld \<Rightarrow> 'w rworld \<Rightarrow> resourceRecord \<Rightarrow> bool" where
  "stored mc s s' r \<longleftrightarrow> ManagementCluster (rec_Identity r) = mc \<and>
     (\<exists>m. moment s s' m \<and> recmap cd m (rec_Identity r) = Some r)"

lemma decode_values_ok:
  assumes "list_all2 (valued s s') keys vs" and "\<forall>k\<in>set keys. prefix (mcScanPrefix mc) k"
  shows "\<exists>rs. decode_values cd (zip keys vs) = Inr rs \<and>
    map fst rs = map fst (filter (\<lambda>(k, x). x \<noteq> NilValue) (zip keys vs)) \<and>
    (\<forall>(k, r)\<in>set rs. k = redisKey (rec_Identity r) \<and> stored mc s s' r)"
  using assms
proof (induction rule: list_all2_induct)
  case (Cons k ks x xs)
  then obtain rs where rs: "decode_values cd (zip ks xs) = Inr rs"
    "map fst rs = map fst (filter (\<lambda>(k, x). x \<noteq> NilValue) (zip ks xs))"
    "\<forall>(k, r)\<in>set rs. k = redisKey (rec_Identity r) \<and> stored mc s s' r" by auto
  obtain m where m: "moment s s' m" "x = value_at m k" using Cons.hyps(1) by (auto simp: valued_def)
  show ?case
  proof (cases "m k")
    case None
    then show ?thesis using rs m by (simp add: value_at_def)
  next
    case (Some b)
    have pre: "prefix (mcScanPrefix mc) k" using Cons.prems by simp
    then have "prefix keyPrefix k"
      unfolding mcScanPrefix_plain by (metis append_assoc append_prefixD)
    then obtain r where r: "json_Unmarshal cd b = Inr r" "k = redisKey (rec_Identity r)"
      using m(1) Some unfolding moment_def red_inv_def by blast
    have "recmap cd m (rec_Identity r) = Some r" using r Some by (simp add: recmap_def)
    moreover have "ManagementCluster (rec_Identity r) = mc" using pre r(2) by (simp add: redisKey_prefix)
    ultimately have "stored mc s s' r" using m(1) by (auto simp: stored_def)
    with rs r m(2) Some show ?thesis by (simp add: value_at_def map_result_def)
  qed
qed simp

text \<open>What is loaded for a management cluster.\<close>

definition loaded ::
  "string \<Rightarrow> 'w rworld \<Rightarrow> (string \<times> resourceRecord) list result option \<Rightarrow> 'w rworld \<Rightarrow> bool" where
  "loaded mc s r s' \<longleftrightarrow>
     (case r of None \<Rightarrow> False
      | Some (Inl e) \<Rightarrow> foreign_error e
      | Some (Inr rs) \<Rightarrow> distinct (map fst rs) \<and>
          (\<forall>(k, r)\<in>set rs. k = redisKey (rec_Identity r) \<and> stored mc s s' r) \<and>
          (\<forall>i. ManagementCluster i = mc \<and> stays s (redisKey i) \<longrightarrow> redisKey i \<in> fst ` set rs))"

abbreviation mc_pattern :: "string \<Rightarrow> string" where
  "mc_pattern mc \<equiv> mcScanPrefix mc @ ''*''"

lemma mc_pattern_glob: "glob (mc_pattern mc) k \<longleftrightarrow> prefix (mcScanPrefix mc) k"
  by (rule glob_prefix [OF mcScanPrefix_no_meta])

lemma mc_pattern_pending: "ManagementCluster i = mc \<Longrightarrow> pending (mc_pattern mc) 0 (redisKey i)"
  by (intro scan_start) (simp add: mc_pattern_glob redisKey_prefix)

text \<open>The keys a scan of a management cluster found: none twice, no other's, none missing.\<close>

definition mc_keys :: "string \<Rightarrow> 'w rworld \<Rightarrow> string list \<Rightarrow> bool" where
  "mc_keys mc s keys \<longleftrightarrow> distinct keys \<and> (\<forall>k\<in>set keys. prefix (mcScanPrefix mc) k) \<and>
     (\<forall>i. ManagementCluster i = mc \<and> stays s (redisKey i) \<longrightarrow> redisKey i \<in> set keys)"

lemma decoded_loaded:
  assumes t: "env (dbs s) (dbs t)" and keys: "mc_keys mc s keys" and all: "list_all2 (valued t t') keys vs"
  shows "loaded mc s (Some (decode_values cd (zip keys vs))) t'"
proof -
  obtain rs where rs: "decode_values cd (zip keys vs) = Inr rs"
    "map fst rs = map fst (filter (\<lambda>(k, x). x \<noteq> NilValue) (zip keys vs))"
    "\<forall>(k, r)\<in>set rs. k = redisKey (rec_Identity r) \<and> stored mc t t' r"
    using decode_values_ok [OF all] keys unfolding mc_keys_def by blast
  note len = list_all2_lengthD [OF all]
  have "distinct (map fst rs)"
    unfolding rs(2) using keys len by (intro distinct_map_filter) (simp add: mc_keys_def)
  moreover have "redisKey i \<in> fst ` set rs" if i: "ManagementCluster i = mc" "stays s (redisKey i)" for i
  proof -
    have "redisKey i \<in> set keys" using keys i by (simp add: mc_keys_def)
    then obtain x where x: "(redisKey i, x) \<in> set (zip keys vs)"
      using len by (metis in_set_impl_in_set_zip1)
    then have "valued t t' (redisKey i) x" using all by (auto simp: list_all2_iff)
    then obtain m where m: "env (dbs t) m" "x = value_at m (redisKey i)"
      by (auto simp: valued_def moment_def)
    have "m (redisKey i) \<noteq> None" using i(2) env_trans [OF t m(1)] by (simp add: stays_def)
    then have "x \<noteq> NilValue" using m(2) by (auto simp: value_at_def split: option.splits)
    with x have "redisKey i \<in> set (map fst rs)" unfolding rs(2) by force
    then show ?thesis by simp
  qed
  moreover have "stored mc s t' q" if "stored mc t t' q" for q
    using that moment_env(1) [OF t] by (auto simp: stored_def)
  ultimately show ?thesis unfolding loaded_def using rs by fastforce
qed

lemma fetch_loaded:
  assumes t: "good t" "env (dbs s) (dbs t)" and keys: "mc_keys mc s keys"
  shows "wp (mget_loop c keys) (\<lambda>got s'. good s' \<and> env (dbs s) (dbs s') \<and> loaded mc s (Some
      (case got of Inl err \<Rightarrow> Inl err | Inr values \<Rightarrow> decode_values cd (zip keys values))) s') t"
proof (rule wp_mono [OF mget_loop_ok [OF t(1)]], elim conjE)
  fix r t'
  assume "good t'" "env (dbs t) (dbs t')"
    and r: "case r of Inl e \<Rightarrow> foreign_error e | Inr vs \<Rightarrow> list_all2 (valued t t') keys vs"
  moreover have "loaded mc s (Some (case r of Inl err \<Rightarrow> Inl err | Inr values \<Rightarrow>
      decode_values cd (zip keys values))) t'"
    using r decoded_loaded [OF t(2) keys] by (cases r) (simp_all add: loaded_def)
  ultimately show "good t' \<and> env (dbs s) (dbs t') \<and> loaded mc s (Some (case r of Inl err \<Rightarrow> Inl err
      | Inr values \<Rightarrow> decode_values cd (zip keys values))) t'"
    using env_trans [OF t(2)] by blast
qed

lemma load_cluster:
  assumes s: "good s" and fuel: "remaining 0 < fuel"
  shows "wp (loadClusterRecords fuel c cd mc) (\<lambda>r s'. good s' \<and> env (dbs s) (dbs s') \<and> loaded mc s r s') s"
  unfolding loadClusterRecords_def scanKeys_def wp_bind
proof (rule wp_mono [OF scan_loop_ok [OF s, of "[]" "mc_pattern mc" 0 fuel]])
  fix r t
  assume A: "good t \<and> env (dbs s) (dbs t) \<and>
    scanned (mc_pattern mc) {k. stays s k \<and> (k \<in> set [] \<or> pending (mc_pattern mc) 0 k)} r"
  let ?P = "\<lambda>r s'. good s' \<and> env (dbs s) (dbs s') \<and> loaded mc s r s'"
  have keys: "mc_keys mc s keys" if "r = Some (Inr keys)" for keys
    using A that mc_pattern_pending by (auto simp: scanned_def mc_keys_def mc_pattern_glob)
  show "wp (case r of None \<Rightarrow> State_Monad.return None
      | Some (Inl err) \<Rightarrow> State_Monad.return (Some (Inl err))
      | Some (Inr keys) \<Rightarrow>
        if length keys = 0 then State_Monad.return (Some (Inr []))
        else State_Monad.bind (mget_loop c keys) (\<lambda>got. State_Monad.return (Some
          (case got of Inl err \<Rightarrow> Inl err | Inr values \<Rightarrow> decode_values cd (zip keys values))))) ?P t"
  proof (cases r)
    case (Some q)
    show ?thesis
    proof (cases q)
      case (Inl e)
      then show ?thesis using A Some by (simp add: scanned_def wp_rules loaded_def)
    next
      case (Inr keys)
      note k = keys [of keys]
      then show ?thesis
        using A Some Inr fetch_loaded [OF _ _ k]
        by (auto simp: wp_bind wp_return_eta loaded_def mc_keys_def)
    qed
  qed (use A in \<open>simp add: scanned_def\<close>)
qed (use fuel in simp_all)

text \<open>A listing of one type of desire.\<close>

lemma list_type_loaded:
  assumes "loaded mc s r s'"
  shows "listed env cd mc ty proj (dbs s) (map_option (map_result (list_type ty proj)) r) (dbs s')"
proof (cases "\<exists>rs. r = Some (Inr rs)")
  case True
  then obtain rs where r: "r = Some (Inr rs)" by blast
  note l = assms [unfolded r loaded_def, simplified]
  let ?rs = "filter (\<lambda>x. DesireTypeOf (rec_Identity x) = ty) (map snd rs)"
  have "map fst rs = map (\<lambda>x. redisKey (rec_Identity x)) (map snd rs)" using l by auto
  then have "distinct (map (\<lambda>x. redisKey (rec_Identity x)) (map snd rs))" using l by metis
  then have "distinct (map rec_Identity (map snd rs))" by (simp add: distinct_map inj_on_def)
  then have "distinct (map rec_Identity ?rs)" by (rule distinct_map_filter)
  moreover have "list_type ty proj rs = map proj ?rs"
    by (induction rs) (auto simp: list_type_def)
  moreover have "\<forall>x\<in>set ?rs. ManagementCluster (rec_Identity x) = mc \<and> DesireTypeOf (rec_Identity x) = ty \<and>
      (\<exists>m. env (dbs s) m \<and> env m (dbs s') \<and> recmap cd m (rec_Identity x) = Some x)"
  proof
    fix x assume "x \<in> set ?rs"
    then obtain k where "(k, x) \<in> set rs" "DesireTypeOf (rec_Identity x) = ty" by auto
    moreover from this have "stored mc s s' x" using l by blast
    ultimately show "ManagementCluster (rec_Identity x) = mc \<and> DesireTypeOf (rec_Identity x) = ty \<and>
      (\<exists>m. env (dbs s) m \<and> env m (dbs s') \<and> recmap cd m (rec_Identity x) = Some x)"
      unfolding stored_def moment_def by blast
  qed
  moreover have "i \<in> rec_Identity ` set ?rs"
    if i: "ManagementCluster i = mc" "DesireTypeOf i = ty" "\<forall>m. env (dbs s) m \<longrightarrow> recmap cd m i \<noteq> None" for i
  proof -
    have "stays s (redisKey i)" using i(3) recmap_present unfolding stays_def by blast
    then obtain x where x: "(redisKey i, x) \<in> set rs" using l i(1) by auto
    moreover have "rec_Identity x = i" using l x by auto
    moreover have "x \<in> snd ` set rs" using x by (metis image_eqI snd_conv)
    ultimately show ?thesis using i(2) by (intro image_eqI [of _ _ x]) auto
  qed
  ultimately show ?thesis unfolding r listed_def map_result_def option.map option.case sum.case by blast
next
  case False
  then show ?thesis using assms
    by (auto simp: loaded_def listed_def map_result_def split: option.splits sum.splits)
qed

lemma list_desires_ok:
  assumes "good s" "remaining 0 < fuel"
  shows "wp (State_Monad.bind (loadClusterRecords fuel c cd mc)
      (\<lambda>r. State_Monad.return (map_option (map_result (list_type ty proj)) r)))
    (\<lambda>r s'. good s' \<and> env (dbs s) (dbs s') \<and> listed env cd mc ty proj (dbs s) r (dbs s')) s"
  unfolding wp_bind wp_return_eta
  by (rule wp_mono [OF load_cluster [OF assms]]) (use list_type_loaded in blast)

text \<open>The deletes of a prefix delete.\<close>

definition prefix_outcome :: "PrefixSelector \<Rightarrow> resourceRecord option \<Rightarrow> goerror option" where
  "prefix_outcome sel found =
     (case found of None \<Rightarrow> Some ErrCASNoop
      | Some r \<Rightarrow> if Matches sel (rec_Identity r) then None else Some ErrCASNoop)"

lemma precheck_prefix_computes:
  "computes (precheck_prefix sel (record_of found) (found \<noteq> None)) (prefix_outcome sel found)"
  by (cases found) (auto simp: precheck_prefix_def prefix_outcome_def computes_return)

lemma linearized_pruned:
  "linearized env (del_commit cd i (prefix_outcome sel)) m0 x m1 \<Longrightarrow> red_inv v cd st m0 \<Longrightarrow> ManagementCluster i = mc \<Longrightarrow>
     pruned env cd mc sel m0 m1 \<and> (\<exists>m. pruned env cd mc sel m0 m \<and> recmap cd m i = None \<and> pruned env cd mc sel m m1)"
proof -
  assume lin: "linearized env (del_commit cd i (prefix_outcome sel)) m0 x m1" and inv: "red_inv v cd st m0"
    and mc: "ManagementCluster i = mc"
  obtain m where m: "env m0 m" "prefix_outcome sel (recmap cd m i) = None" "env (m(redisKey i := None)) m1"
    using lin by (auto simp: linearized_def del_commit_def)
  have mi: "red_inv v cd st m" using env_inv inv m(1) by blast
  obtain r where r: "recmap cd m i = Some r" "Matches sel (rec_Identity r)"
    using m(2) by (auto simp: prefix_outcome_def split: option.splits if_splits)
  then have "prune_step env cd mc sel m (m(redisKey i := None))"
    using recmap_stable [OF mi r(1)] mc by (auto simp: prune_step_def)
  moreover have "prune_step env cd mc sel m0 m" "prune_step env cd mc sel (m(redisKey i := None)) m1"
    using m by (auto simp: prune_step_def)
  ultimately have a: "pruned env cd mc sel m0 (m(redisKey i := None))"
    and b: "pruned env cd mc sel (m(redisKey i := None)) m1"
    unfolding pruned_def by auto
  have "pruned env cd mc sel m0 m1" using a b unfolding pruned_def by (rule rtranclp_trans)
  with a b show ?thesis by (metis fun_upd_same recmap_del)
qed

lemma prefix_delete_one:
  assumes s: "good s" and mc: "ManagementCluster i = mc"
  shows "wp (casDelete c cd (redisKey i) (precheck_prefix sel)) (\<lambda>r s'. good s' \<and>
    pruned env cd mc sel (dbs s) (dbs s') \<and>
    (case r of Inl e \<Rightarrow> e = ErrAborted \<or> foreign_error e
     | Inr u \<Rightarrow> Matches sel i \<longrightarrow>
         (\<exists>m. pruned env cd mc sel (dbs s) m \<and> recmap cd m i = None \<and> pruned env cd mc sel m (dbs s')))) s"
proof -
  let ?fails = "\<lambda>m e. prefix_outcome sel (recmap cd m i) = Some e"
  have inv: "red_inv v cd st (dbs s)" using s by (simp add: good_def)
  have noop: "pruned env cd mc sel (dbs s) m1 \<and> e = ErrCASNoop \<and> (Matches sel i \<longrightarrow>
      (\<exists>m. pruned env cd mc sel (dbs s) m \<and> recmap cd m i = None \<and> pruned env cd mc sel m m1))"
    if lin: "linearized env (\<lambda>m e m'. ?fails m e \<and> m' = m) (dbs s) e m1" for e m1
  proof -
    obtain m where m: "env (dbs s) m" "?fails m e" "env m m1" using lin by (auto simp: linearized_def)
    have "red_inv v cd st m" using env_inv inv m(1) by blast
    then have "Matches sel i \<Longrightarrow> recmap cd m i = None" and "e = ErrCASNoop"
      using m(2) recmap_stable by (auto simp: prefix_outcome_def split: option.splits if_splits)
    with m show ?thesis using pruned_env pruned_trans by metis
  qed
  have "wp (watchRetry c (casDelete_body c cd (redisKey i) (precheck_prefix sel)) [redisKey i]) (\<lambda>r s'. good s' \<and>
      retry_ok env (del_commit cd i (prefix_outcome sel)) ?fails (dbs s) r (dbs s')) s"
    by (rule watchRetry_ok [OF delete_body _ s], rule precheck_prefix_computes)
      (auto simp: prefix_outcome_def split: option.splits if_splits)
  then show ?thesis
    unfolding casDelete_def wp_bind
  proof (rule wp_mono, elim conjE)
    fix r t
    assume t: "good t" and ok: "retry_ok env (del_commit cd i (prefix_outcome sel)) ?fails (dbs s) r (dbs t)"
    note com = linearized_pruned [OF _ inv mc, where ?m1.0 = "dbs t"]
    have "pruned env cd mc sel (dbs s) (dbs t) \<and>
      (case r of Inl e \<Rightarrow> e = ErrAborted \<or> foreign_error e
       | Inr u \<Rightarrow> Matches sel i \<longrightarrow>
           (\<exists>m. pruned env cd mc sel (dbs s) m \<and> recmap cd m i = None \<and> pruned env cd mc sel m (dbs t)))"
    proof (cases r)
      case (Inl e)
      then consider "\<not> errors_Is e ErrCASNoop" "linearized env (\<lambda>m e m'. ?fails m e \<and> m' = m) (dbs s) e (dbs t)"
        | "e = ErrAborted" "env (dbs s) (dbs t)" | "foreign_error e" "env (dbs s) (dbs t)"
        | x where "foreign_error e" "linearized env (del_commit cd i (prefix_outcome sel)) (dbs s) x (dbs t)"
        using ok by (auto simp: retry_ok_def)
      then show ?thesis using Inl noop com pruned_env by cases (auto dest: noop)
    next
      case (Inr u)
      then show ?thesis using ok noop com by (cases u) (auto simp: retry_ok_def)
    qed
    with t show "wp (State_Monad.return (case r of Inl e \<Rightarrow> Inl e | Inr _ \<Rightarrow> Inr ())) (\<lambda>r s'. good s' \<and>
        pruned env cd mc sel (dbs s) (dbs s') \<and>
        (case r of Inl e \<Rightarrow> e = ErrAborted \<or> foreign_error e
         | Inr u \<Rightarrow> Matches sel i \<longrightarrow>
           (\<exists>m. pruned env cd mc sel (dbs s) m \<and> recmap cd m i = None \<and> pruned env cd mc sel m (dbs s')))) t"
      by (cases r) (simp_all add: wp_return_eta)
  qed
qed

text \<open>What is left of a prefix delete when the records \<open>rs\<close> are still to be visited.\<close>

definition emptied :: "string \<Rightarrow> PrefixSelector \<Rightarrow> keyspace \<Rightarrow> Identity \<Rightarrow> keyspace \<Rightarrow> bool" where
  "emptied mc sel m0 i m1 \<longleftrightarrow>
     (\<exists>m. pruned env cd mc sel m0 m \<and> recmap cd m i = None \<and> pruned env cd mc sel m m1)"

lemma emptied_pruned:
  "pruned env cd mc sel m m0 \<Longrightarrow> emptied mc sel m0 i m1 \<Longrightarrow> emptied mc sel m i m1"
  "emptied mc sel m0 i m1 \<Longrightarrow> pruned env cd mc sel m1 m \<Longrightarrow> emptied mc sel m0 i m"
  unfolding emptied_def using pruned_trans by metis+

definition deleted_all :: "string \<Rightarrow> PrefixSelector \<Rightarrow> resourceRecord set \<Rightarrow> keyspace \<Rightarrow> unit result \<Rightarrow> keyspace \<Rightarrow> bool" where
  "deleted_all mc sel R m0 r m1 \<longleftrightarrow> pruned env cd mc sel m0 m1 \<and>
     (case r of Inl e \<Rightarrow> e = ErrAborted \<or> foreign_error e
      | Inr u \<Rightarrow> \<forall>x\<in>R. Matches sel (rec_Identity x) \<longrightarrow> emptied mc sel m0 (rec_Identity x) m1)"

lemma deleted_all_trans:
  assumes a: "deleted_all mc sel R m0 (Inr u) m" and b: "deleted_all mc sel R' m r m1"
  shows "deleted_all mc sel (R \<union> R') m0 r m1"
proof -
  have p: "pruned env cd mc sel m0 m" "pruned env cd mc sel m m1" using a b by (simp_all add: deleted_all_def)
  show ?thesis
    using a b pruned_trans [OF p] emptied_pruned(1) [OF p(1)] emptied_pruned(2) [OF _ p(2)]
    by (cases r) (auto simp: deleted_all_def)
qed

lemma delete_records_ok:
  assumes "good s" and "\<forall>p\<in>set rs. fst p = redisKey (rec_Identity (snd p)) \<and> ManagementCluster (rec_Identity (snd p)) = mc"
  shows "wp (delete_records c cd sel rs) (\<lambda>r s'. good s' \<and> deleted_all mc sel (snd ` set rs) (dbs s) r (dbs s')) s"
  using assms
proof (induction rs arbitrary: s)
  case Nil
  then show ?case by (simp add: wp_rules pruned_env env_refl deleted_all_def)
next
  case (Cons cr crs)
  let ?x = "snd cr"
  have k: "fst cr = redisKey (rec_Identity ?x)" "ManagementCluster (rec_Identity ?x) = mc" using Cons.prems(2) by auto
  note IH = Cons.IH [OF _ ballI]
  have more: "deleted_all mc sel (snd ` set (cr # crs)) m r m'"
    if "deleted_all mc sel (insert ?x {} \<union> snd ` set crs) m r m'" for m r m'
    using that by simp
  show ?case
  proof (cases "Matches sel (rec_Identity ?x)")
    case False
    have "deleted_all mc sel (snd ` set (cr # crs)) m r m'" if "deleted_all mc sel (snd ` set crs) m r m'" for m r m'
      using that False by (cases r) (auto simp: deleted_all_def)
    with False show ?thesis using wp_mono [OF IH [OF Cons.prems(1)]] Cons.prems(2) by simp
  next
    case True
    have first: "wp (casDelete c cd (fst cr) (precheck_prefix sel)) (\<lambda>r s'. good s' \<and> deleted_all mc sel {?x} (dbs s) r (dbs s')) s"
      unfolding k(1) by (rule wp_mono [OF prefix_delete_one [OF Cons.prems(1) k(2), of sel]])
        (use True in \<open>auto simp: deleted_all_def emptied_def split: sum.splits\<close>)
    have rest: "wp (case r of Inl err \<Rightarrow> State_Monad.return (Inl err) | Inr u \<Rightarrow> delete_records c cd sel crs)
        (\<lambda>r s'. good s' \<and> deleted_all mc sel (snd ` set (cr # crs)) (dbs s) r (dbs s')) t"
      if t: "good t" "deleted_all mc sel {?x} (dbs s) r (dbs t)" for r t
    proof (cases r)
      case (Inl e)
      then show ?thesis using t by (simp add: wp_rules deleted_all_def)
    next
      case (Inr u)
      show ?thesis
        unfolding Inr sum.case
        by (rule wp_mono [OF IH [OF t(1)]])
          (use Cons.prems(2) deleted_all_trans [OF t(2) [unfolded Inr]] more in auto)
    qed
    show ?thesis using True by (simp add: wp_bind) (rule wp_mono [OF first], use rest in auto)
  qed
qed

lemma delete_by_prefix_ok:
  assumes s: "good s" "remaining 0 < fuel"
  shows "wp (red_DeleteByPrefix fuel c cd mc sel) (\<lambda>r s'. good s' \<and> pruned env cd mc sel (dbs s) (dbs s') \<and>
    (case r of None \<Rightarrow> False
     | Some (Inl e) \<Rightarrow> e = ErrAborted \<or> foreign_error e
     | Some (Inr u) \<Rightarrow> (\<forall>i. ManagementCluster i = mc \<and> Matches sel i \<and> (\<forall>m. env (dbs s) m \<longrightarrow> recmap cd m i \<noteq> None) \<longrightarrow>
         emptied mc sel (dbs s) i (dbs s')))) s"
  unfolding red_DeleteByPrefix_def wp_bind
proof (rule wp_mono [OF load_cluster [OF s]], elim conjE)
  fix r t
  assume t: "good t" "env (dbs s) (dbs t)" and l: "loaded mc s r t"
  let ?Q = "\<lambda>r s'. good s' \<and> pruned env cd mc sel (dbs s) (dbs s') \<and>
    (case r of None \<Rightarrow> False
     | Some (Inl e) \<Rightarrow> e = ErrAborted \<or> foreign_error e
     | Some (Inr u) \<Rightarrow> (\<forall>i. ManagementCluster i = mc \<and> Matches sel i \<and> (\<forall>m. env (dbs s) m \<longrightarrow> recmap cd m i \<noteq> None) \<longrightarrow>
         emptied mc sel (dbs s) i (dbs s')))"
  show "wp (case r of None \<Rightarrow> State_Monad.return None
      | Some (Inl err) \<Rightarrow> State_Monad.return (Some (Inl err))
      | Some (Inr records) \<Rightarrow> State_Monad.bind (delete_records c cd sel records) (\<lambda>d. State_Monad.return (Some d))) ?Q t"
  proof (cases "\<exists>rs. r = Some (Inr rs)")
    case True
    then obtain rs where r: "r = Some (Inr rs)" by blast
    have rs: "\<forall>p\<in>set rs. fst p = redisKey (rec_Identity (snd p)) \<and> ManagementCluster (rec_Identity (snd p)) = mc"
      using l r by (auto simp: loaded_def stored_def)
    have all: "\<exists>x\<in>snd ` set rs. rec_Identity x = i"
      if i: "ManagementCluster i = mc" "\<forall>m. env (dbs s) m \<longrightarrow> recmap cd m i \<noteq> None" for i
    proof -
      have "stays s (redisKey i)" using i(2) recmap_present unfolding stays_def by blast
      then obtain p where "p \<in> set rs" "fst p = redisKey i" using l r i(1) by (auto simp: loaded_def)
      with rs show ?thesis by force
    qed
    have "wp (delete_records c cd sel rs) (\<lambda>d. ?Q (Some d)) t"
    proof (rule wp_mono [OF delete_records_ok [OF t(1) rs, of sel]], elim conjE, intro conjI)
      fix d t'
      assume d: "deleted_all mc sel (snd ` set rs) (dbs t) d (dbs t')"
      have env_pruned: "pruned env cd mc sel (dbs s) (dbs t)" by (rule pruned_env) (rule t(2))
      show "pruned env cd mc sel (dbs s) (dbs t')"
        using d env_pruned pruned_trans by (auto simp: deleted_all_def)
      show "case Some d of None \<Rightarrow> False
       | Some (Inl e) \<Rightarrow> e = ErrAborted \<or> foreign_error e
       | Some (Inr u) \<Rightarrow> (\<forall>i. ManagementCluster i = mc \<and> Matches sel i \<and> (\<forall>m. env (dbs s) m \<longrightarrow> recmap cd m i \<noteq> None) \<longrightarrow>
           emptied mc sel (dbs s) i (dbs t'))"
      proof (cases d)
        case (Inl e)
        then show ?thesis using d by (simp add: deleted_all_def)
      next
        case (Inr u)
        have "emptied mc sel (dbs s) i (dbs t')"
          if i: "ManagementCluster i = mc" "Matches sel i" "\<forall>m. env (dbs s) m \<longrightarrow> recmap cd m i \<noteq> None" for i
        proof -
          obtain x where "x \<in> snd ` set rs" "rec_Identity x = i" using all [OF i(1,3)] by blast
          then have "emptied mc sel (dbs t) i (dbs t')" using d Inr i(2) unfolding deleted_all_def by auto
          then show ?thesis by (rule emptied_pruned(1) [OF env_pruned])
        qed
        then show ?thesis using Inr by auto
      qed
    qed
    then show ?thesis unfolding r by (simp add: wp_bind wp_return_eta)
  next
    case False
    then show ?thesis using t l pruned_env
      by (auto simp: loaded_def wp_rules split: option.splits sum.splits)
  qed
qed

end

end
