(* ===== verification/RedisSample.thy ===== *)
theory RedisSample
  imports RedisList Samples
begin

text \<open>
  Concrete parameters for the witnesses about the Redis-backed store: an encoding of records that
  keeps all of them, and the store on the scheduled server.
\<close>

section \<open>An encoding\<close>

definition enc_field :: "string \<Rightarrow> string" where
  "enc_field s = concat (map (\<lambda>c. [CHR ''x'', c]) s) @ ''.''"

definition enc_fields :: "string list \<Rightarrow> string" where
  "enc_fields fs = concat (map enc_field fs)"

fun dec_fields :: "string \<Rightarrow> string list" where
  "dec_fields [] = []"
| "dec_fields [d] = [[]]"
| "dec_fields (d # c # s) =
     (if d = CHR ''.'' then [] # dec_fields (c # s)
      else case dec_fields s of [] \<Rightarrow> [[c]] | f # fs \<Rightarrow> (c # f) # fs)"

lemma dec_field: "dec_fields (enc_field f @ s) = f # dec_fields s"
proof (induction f)
  case Nil
  then show ?case by (cases s) (simp_all add: enc_field_def)
next
  case (Cons c f)
  then show ?case by (simp add: enc_field_def)
qed

lemma dec_enc_fields: "dec_fields (enc_fields fs) = fs"
  by (induction fs) (simp_all add: enc_fields_def dec_field)

definition enc_word :: "int64 \<Rightarrow> string" where "enc_word w = replicate (unat w) CHR ''i''"
definition dec_word :: "string \<Rightarrow> int64" where "dec_word s = of_nat (length s)"

definition enc_int :: "int \<Rightarrow> string" where
  "enc_int t = (if t < 0 then ''-'' else ''+'') @ replicate (nat \<bar>t\<bar>) CHR ''i''"

definition dec_int :: "string \<Rightarrow> int" where
  "dec_int s = (if hd s = CHR ''-'' then - int (length (tl s)) else int (length (tl s)))"

definition enc_cond :: "Condition \<Rightarrow> string list" where
  "enc_cond x = [cond_Type x, cond_Status x, enc_word (cond_ObservedGeneration x),
     enc_int (cond_LastTransitionTime x), cond_Reason x, cond_Message x]"

fun dec_conds :: "string list \<Rightarrow> Condition list" where
  "dec_conds (a # b # g # t # r # m # fs) =
     \<lparr>cond_Type = a, cond_Status = b, cond_ObservedGeneration = dec_word g, cond_LastTransitionTime = dec_int t,
      cond_Reason = r, cond_Message = m\<rparr> # dec_conds fs"
| "dec_conds _ = []"

lemma dec_enc_num [simp]: "dec_word (enc_word w) = w" "dec_int (enc_int t) = t"
  by (simp_all add: dec_word_def enc_word_def dec_int_def enc_int_def)

lemma dec_enc_conds: "dec_conds (concat (map enc_cond cs)) = cs"
  by (induction cs) (simp_all add: enc_cond_def)

definition enc_conds :: "Condition list \<Rightarrow> string" where
  "enc_conds cs = enc_fields (concat (map enc_cond cs))"

definition enc_record :: "resourceRecord \<Rightarrow> string" where
  "enc_record r = enc_fields
     [ManagementCluster (rec_Identity r), DesireTypeOf (rec_Identity r), Group (rec_Identity r),
      Resource (rec_Identity r), Namespace (rec_Identity r), Name (rec_Identity r), rec_OriginID r, rec_Owner r,
      rec_TargetVersion r, enc_conds (Conditions (rs_Status (rec_ReadStatus r))),
      rs_KubeContent (rec_ReadStatus r), enc_conds (Conditions (rec_Status r)), enc_word (rec_Generation r),
      enc_word (rec_Version r),
      (case rec_Apply r of None \<Rightarrow> [] | Some sp \<Rightarrow> CHR ''a'' # KubeContent sp)]"

definition dec_record :: "string \<Rightarrow> resourceRecord result" where
  "dec_record s =
     (case dec_fields s of
        [mc, ty, gr, rs, ns, nm, origin, owner, tv, rc, content, cs, gen, ver, spec] \<Rightarrow>
          Inr \<lparr>rec_Apply = (if spec = [] then None else Some \<lparr>KubeContent = tl spec\<rparr>),
            rec_Identity = \<lparr>ManagementCluster = mc, DesireTypeOf = ty, Group = gr, Resource = rs, Namespace = ns, Name = nm\<rparr>,
            rec_OriginID = origin, rec_Owner = owner, rec_TargetVersion = tv,
            rec_ReadStatus = \<lparr>rs_Status = \<lparr>Conditions = dec_conds (dec_fields rc)\<rparr>, rs_KubeContent = content\<rparr>,
            rec_Status = \<lparr>Conditions = dec_conds (dec_fields cs)\<rparr>, rec_Generation = dec_word gen,
            rec_Version = dec_word ver\<rparr>
      | _ \<Rightarrow> Inl (ErrorString ''malformed record''))"

lemma dec_enc_record: "dec_record (enc_record r) = Inr r"
  by (cases r) (auto simp: dec_record_def enc_record_def dec_enc_fields enc_conds_def dec_enc_conds split: option.split)

definition sample_codec :: codec where
  "sample_codec = \<lparr>json_Marshal = (\<lambda>r. Inr (enc_record r)), json_Unmarshal = dec_record\<rparr>"

definition all_stable :: stability where
  "all_stable = \<lparr>stable_text = (\<lambda>s. True), stable_json = (\<lambda>s. True), stable_conds = (\<lambda>cs. True)\<rparr>"

lemma red_inv_empty: "red_inv v cd st Map.empty"
proof -
  have "recmap cd Map.empty = Map.empty" by (simp add: recmap_def fun_eq_iff)
  then show ?thesis by (simp add: red_inv_def wf_map_empty)
qed

lemma all_stable_record [simp]: "stable_record all_stable r" "stable_identity all_stable i"
  "stable_read_status all_stable rst"
  by (simp_all add: stable_record_def stable_identity_def stable_read_status_def all_stable_def split: option.split)

lemma all_stable_fields [simp]:
  "stable_text all_stable s" "stable_json all_stable s" "stable_conds all_stable cs"
  by (simp_all add: all_stable_def)

interpretation sample_encoding: record_codec sample_codec all_stable
  by unfold_locales (simp_all add: sample_codec_def all_stable_def dec_enc_record)

section \<open>The store on the scheduled server\<close>

text \<open>The other clients run transactions that keep the invariant of the key space.\<close>

definition keeps_inv :: "dns_api \<Rightarrow> redis_cmd list \<Rightarrow> bool" where
  "keeps_inv v cmds \<longleftrightarrow> (\<forall>m. red_inv v sample_codec all_stable m \<longrightarrow> red_inv v sample_codec all_stable (apply_cmds cmds m))"

lemma others_keep_inv:
  assumes "red_inv v sample_codec all_stable m" "others (keeps_inv v) m m'"
  shows "red_inv v sample_codec all_stable m'"
proof -
  have "red_inv v sample_codec all_stable (apply_cmds (concat txs) m)" if "list_all (keeps_inv v) txs" for txs
    using that assms(1) by (induction txs arbitrary: m) (auto simp: keeps_inv_def)
  with assms(2) show ?thesis by (auto simp: others_def)
qed

interpretation shared_redis: redis_store server_client "\<lambda>s. map_of (sv_db s)" "\<lambda>s. map_of (sv_watch s)"
  "\<lambda>s. \<not> sv_dirty s" "others (keeps_inv v)" "server_sane (keeps_inv v)" srv_glob srv_pending srv_remaining
  sample_codec all_stable v for v
  by unfold_locales (rule others_keep_inv)

end
