(* ===== verification/RedisProperties.thy ===== *)
theory RedisProperties
  imports RedisSample
begin

text \<open>
  What the Redis-backed store promises its callers. The server, the client and the encoding are
  arguments, with the locale \<open>redis_store\<close> as the hypothesis that says what is relied on of them: the
  documented behaviour of the commands, the round trip of stable records, and that the other clients
  keep the invariant of the key space. Each witness runs on the scheduled server while another client
  removes the record between the read and the commit.
\<close>

section \<open>A world for the witnesses\<close>

definition stored_apply :: "(string \<times> bytes) list" where
  "stored_apply = [(redisKey (sample_id TypeApply), enc_record (new_apply_record sample_apply))]"

definition quiet_step :: srv_step where
  "quiet_step = \<lparr>other_txs = [], srv_error = None, exec_ran = False\<rparr>"

definition busy_world :: "server rworld" where
  "busy_world = \<lparr>rw_server = \<lparr>sv_db = stored_apply, sv_watch = [], sv_dirty = False,
     sv_schedule = [quiet_step, quiet_step,
       quiet_step\<lparr>other_txs := [[DelCmd (redisKey (sample_id TypeApply))]]\<rparr>]\<rparr>, rw_conflicts = 0\<rparr>"

abbreviation sample_env :: "keyspace \<Rightarrow> keyspace \<Rightarrow> bool" where
  "sample_env \<equiv> others (keeps_inv sample_dns)"

abbreviation server_db :: "server \<Rightarrow> keyspace" where
  "server_db s \<equiv> map_of (sv_db s)"

abbreviation sample_inv :: "server rworld \<Rightarrow> bool" where
  "sample_inv s \<equiv> red_inv sample_dns sample_codec all_stable (server_db (rw_server s))"

lemma busy_world_inv: "sample_inv busy_world"
proof -
  have rec: "recmap sample_codec Map.empty = Map.empty" by (simp add: recmap_def fun_eq_iff)
  have "wf_map sample_dns ((recmap sample_codec Map.empty)(sample_id TypeApply \<mapsto> new_apply_record sample_apply))"
    using validated_record_ok(1) [OF sample_valid(1)] by (intro wf_map_insert) (simp_all add: rec wf_map_empty)
  then have "red_inv sample_dns sample_codec all_stable
      (Map.empty(redisKey (sample_id TypeApply) \<mapsto> enc_record (new_apply_record sample_apply)))"
    by (intro red_inv_set [OF red_inv_empty]) (simp_all add: sample_codec_def dec_enc_record)
  moreover have "server_db (rw_server busy_world) =
      Map.empty(redisKey (sample_id TypeApply) \<mapsto> enc_record (new_apply_record sample_apply))"
    by (simp add: busy_world_def stored_apply_def)
  ultimately show ?thesis by simp
qed

lemma busy_world_sane: "server_sane (keeps_inv sample_dns) (rw_server busy_world)"
  by (simp add: server_sane_def busy_world_def quiet_step_def keeps_inv_def red_inv_del)

lemmas busy_world_ok = shared_redis.redis_store_axioms busy_world_sane busy_world_inv

definition looked_up ::
  "codec \<Rightarrow> (resourceRecord \<Rightarrow> bool) \<Rightarrow> (resourceRecord \<Rightarrow> 'd) \<Rightarrow> Identity \<Rightarrow> 'd result \<Rightarrow> keyspace \<Rightarrow> bool" where
  "looked_up cd P proj i r m \<longleftrightarrow>
     (case r of
        Inr d \<Rightarrow> (\<exists>x. recmap cd m i = Some x \<and> P x \<and> d = proj x)
      | Inl e \<Rightarrow> (e = ErrNotFound \<and> (\<forall>x. recmap cd m i = Some x \<longrightarrow> \<not> P x)) \<or> foreign_error e)"

section \<open>Properties\<close>

text \<open>
  C29. A Redis key determines its identity, whatever bytes the names contain, so two desires never share
  a record; the keys under the scan prefix of a management cluster are exactly those of its desires,
  so a listing or a prefix delete cannot reach into another cluster; and two keys have the same Redis
  Cluster hash tag exactly when their desires have the same target, so the three keys a create watches
  and writes always live in one slot.
\<close>

theorem redis_keys_separate:
  "(redisKey i = redisKey j \<longleftrightarrow> i = j) \<and>
   (prefix (mcScanPrefix mc) (redisKey i) \<longleftrightarrow> ManagementCluster i = mc) \<and>
   (hash_tag (redisKey i) = hash_tag (redisKey j) \<longleftrightarrow> ManagementCluster i = ManagementCluster j \<and>
      Group i = Group j \<and> Resource i = Resource j \<and> Namespace i = Namespace j \<and> Name i = Name j)"
  by (simp add: redisKey_prefix redisKey_tag tag_text_inject)



text \<open>
  C4. Deleting a desire by version is atomic under interference in the same sense: it removes the
  record the version and the owner were checked on, or reports why not at one moment of its run.
\<close>

theorem redis_deletes_atomic:
  assumes store: "redis_store c db watched clean env sane glob pending remaining cd st v"
    and w: "sane (rw_server s)" "red_inv v cd st (db (rw_server s))"
  shows "(DesireTypeOf i = TypeApply \<longrightarrow>
      wp (red_DeleteApplyDesire c cd i owner n) (\<lambda>r s'. red_inv v cd st (db (rw_server s')) \<and>
        atomic_op env cd (spec_delete_apply owner n) i (db (rw_server s)) r (db (rw_server s'))) s) \<and>
    (DesireTypeOf i = TypeDelete \<longrightarrow>
      wp (red_DeleteDeleteDesire c cd i owner n) (\<lambda>r s'. red_inv v cd st (db (rw_server s')) \<and>
        atomic_op env cd (spec_delete_delete owner n) i (db (rw_server s)) r (db (rw_server s'))) s) \<and>
    (DesireTypeOf i = TypeRead \<longrightarrow>
      wp (red_DeleteReadDesire c cd i owner n) (\<lambda>r s'. red_inv v cd st (db (rw_server s')) \<and>
        atomic_op env cd (spec_delete_read owner n) i (db (rw_server s)) r (db (rw_server s'))) s)"
proof -
  note good = redis_store.good_def [OF store]
  have g: "redis_store.good db sane cd st v s" using w by (simp add: good)
  show ?thesis
    using redis_store.delete_apply_atomic [OF store g, of i owner n]
      redis_store.delete_delete_atomic [OF store g, of i owner n]
      redis_store.delete_read_atomic [OF store g, of i owner n]
    by (auto simp: good elim!: wp_mono)
qed

theorem redis_deletes_atomic_witness:
  "wp (red_DeleteApplyDesire server_client sample_codec (sample_id TypeApply) [] 1)
     (\<lambda>r s'. sample_inv s' \<and> atomic_op sample_env sample_codec (spec_delete_apply [] 1)
        (sample_id TypeApply) (server_db (rw_server busy_world)) r (server_db (rw_server s'))) busy_world"
  using redis_deletes_atomic [OF busy_world_ok, of "sample_id TypeApply" "[]" 1] by simp



text \<open>
  A lookup in the Redis-backed store returns the desire as it was at the moment of its read, and
  reports it missing only when no desire of that type was there; any other error is the network's.
\<close>

lemma redis_get_at_a_moment:
  assumes store: "redis_store c db watched clean env sane glob pending remaining cd st v"
    and w: "sane (rw_server s)" "red_inv v cd st (db (rw_server s))"
  shows "wp (red_GetApplyDesire c cd i) (\<lambda>r s'. env (db (rw_server s)) (db (rw_server s')) \<and>
      looked_up cd (\<lambda>x. rec_Apply x \<noteq> None) projectApplyDesire i r (db (rw_server s'))) s \<and>
    wp (red_GetDeleteDesire c cd i) (\<lambda>r s'. env (db (rw_server s)) (db (rw_server s')) \<and>
      looked_up cd (\<lambda>x. DesireTypeOf i = TypeDelete) projectDeleteDesire i r (db (rw_server s'))) s \<and>
    wp (red_GetReadDesire c cd i) (\<lambda>r s'. env (db (rw_server s)) (db (rw_server s')) \<and>
      looked_up cd (\<lambda>x. DesireTypeOf i = TypeRead) projectReadDesire i r (db (rw_server s'))) s"
proof -
  have g: "redis_store.good db sane cd st v s" using w by (simp add: redis_store.good_def [OF store])
  have refl: "env m m" for m
    using redis_server.env_refl redis_store.axioms(1) [OF store] by blast
  note load = redis_store.load_record [OF store g, of i]
  show ?thesis
    by (intro conjI; simp add: red_GetApplyDesire_def red_GetDeleteDesire_def red_GetReadDesire_def wp_rules
          looked_up_def refl; (intro impI)?; (rule wp_mono [OF load])?;
        auto simp: wp_rules map_result_def split: sum.splits)
qed

lemma redis_get_at_a_moment_witness:
  "wp (red_GetApplyDesire server_client sample_codec (sample_id TypeApply))
     (\<lambda>r s'. sample_env (server_db (rw_server busy_world)) (server_db (rw_server s')) \<and>
      looked_up sample_codec (\<lambda>x. rec_Apply x \<noteq> None) projectApplyDesire (sample_id TypeApply) r
        (server_db (rw_server s'))) busy_world"
  using redis_get_at_a_moment [OF busy_world_ok, of "sample_id TypeApply"] by blast

text \<open>
  C5. Listing from the Redis-backed store ends, and under interference it returns every desire of the
  type and the management cluster that stayed in the store during the run, once each, and nothing
  that was not in the store at some moment of it. The fuel of the SCAN loop is enough as soon as it
  exceeds the length of a full iteration.
\<close>

theorem redis_list_complete:
  assumes store: "redis_store c db watched clean env sane glob pending remaining cd st v"
    and w: "sane (rw_server s)" "red_inv v cd st (db (rw_server s))" and fuel: "remaining 0 < fuel"
  shows "wp (red_ListApplyDesires fuel c cd mc) (\<lambda>r s'.
      listed env cd mc TypeApply projectApplyDesire (db (rw_server s)) r (db (rw_server s'))) s \<and>
    wp (red_ListDeleteDesires fuel c cd mc) (\<lambda>r s'.
      listed env cd mc TypeDelete projectDeleteDesire (db (rw_server s)) r (db (rw_server s'))) s \<and>
    wp (red_ListReadDesires fuel c cd mc) (\<lambda>r s'.
      listed env cd mc TypeRead projectReadDesire (db (rw_server s)) r (db (rw_server s'))) s"
proof -
  have g: "redis_store.good db sane cd st v s" using w by (simp add: redis_store.good_def [OF store])
  show ?thesis
    unfolding red_ListApplyDesires_def red_ListDeleteDesires_def red_ListReadDesires_def
    by (intro conjI; rule wp_mono [OF redis_store.list_desires_ok [OF store g fuel]]; simp)
qed

theorem redis_list_complete_witness:
  "wp (red_ListApplyDesires 5 server_client sample_codec ''mc1'')
     (\<lambda>r s'. listed sample_env sample_codec ''mc1'' TypeApply projectApplyDesire
        (server_db (rw_server busy_world)) r (server_db (rw_server s'))) busy_world"
  using redis_list_complete [OF busy_world_ok, of 5 "''mc1''"] by (simp add: srv_remaining_def)

text \<open>
  C27. A prefix delete of the Redis-backed store ends and removes only records of the management
  cluster that its selector matches, one at a time; when it reports success, every matching record
  that would have stayed in the store without it was gone at some moment of the run.
\<close>

theorem redis_delete_by_prefix_exact:
  assumes store: "redis_store c db watched clean env sane glob pending remaining cd st v"
    and w: "sane (rw_server s)" "red_inv v cd st (db (rw_server s))" and fuel: "remaining 0 < fuel"
  shows "wp (red_DeleteByPrefix fuel c cd mc sel) (\<lambda>r s'. red_inv v cd st (db (rw_server s')) \<and>
      pruned env cd mc sel (db (rw_server s)) (db (rw_server s')) \<and>
      (case r of None \<Rightarrow> False
       | Some (Inl e) \<Rightarrow> e = ErrAborted \<or> foreign_error e
       | Some (Inr u) \<Rightarrow> (\<forall>i. ManagementCluster i = mc \<and> Matches sel i \<and>
           (\<forall>m. env (db (rw_server s)) m \<longrightarrow> recmap cd m i \<noteq> None) \<longrightarrow>
           (\<exists>m. pruned env cd mc sel (db (rw_server s)) m \<and> recmap cd m i = None \<and>
              pruned env cd mc sel m (db (rw_server s')))))) s"
proof -
  note defs = redis_store.good_def [OF store] redis_store.emptied_def [OF store]
  have g: "redis_store.good db sane cd st v s" using w by (simp add: defs)
  show ?thesis
    by (rule wp_mono [OF redis_store.delete_by_prefix_ok [OF store g fuel]])
      (auto simp: defs split: option.splits sum.splits)
qed

theorem redis_delete_by_prefix_exact_witness:
  "wp (red_DeleteByPrefix 5 server_client sample_codec ''mc1'' (\<lparr>sel_Type = TypeApply, sel_Group = [],
       sel_Resource = [], sel_Namespace = [], sel_Name = []\<rparr>))
     (\<lambda>r s'. sample_inv s' \<and> r \<noteq> None \<and> pruned sample_env sample_codec ''mc1'' \<lparr>sel_Type = TypeApply,
        sel_Group = [], sel_Resource = [], sel_Namespace = [], sel_Name = []\<rparr>
        (server_db (rw_server busy_world)) (server_db (rw_server s'))) busy_world"
  by (rule wp_mono [OF redis_delete_by_prefix_exact [OF busy_world_ok, of 5]])
    (auto simp: srv_remaining_def split: option.splits)

end
