(* ===== verification/Reconciler.thy ===== *)
theory Reconciler
  imports Desire
begin

text \<open>
  What the controllers share: the interfaces they are built on, as a record of functions on the
  world \<open>'w\<close> behind them, package \<open>internal/reconciler\<close> (the leader gate carried by the context and
  the write context it caps) and package \<open>internal/controllers/util\<close>. The libraries
  \<open>k8s.io/apimachinery\<close> and \<open>k8s.io/client-go\<close> are arguments. A host can be made to keep a log of
  the calls it receives; the rules the controllers keep are stated over that log.
\<close>

section \<open>Kubernetes data\<close>

record GroupVersionKind =
  gvk_Group :: string
  gvk_Version :: string
  gvk_Kind :: string

record GroupVersionResource =
  gvr_Group :: string
  gvr_Version :: string
  gvr_Resource :: string

text \<open>A REST mapping with what the controllers read of it: the resource, and whether it is namespaced.\<close>

record RESTMapping =
  rm_Resource :: GroupVersionResource
  rm_Namespaced :: bool

text \<open>An unstructured object, given by what its accessors return.\<close>

record Unstructured =
  GetAPIVersion :: string
  GetKind :: string
  GetName :: string
  GetNamespace :: string
  GetUID :: string
  GetDeletionTimestamp :: "timestamp option"
  ObjGroupVersionKind :: GroupVersionKind
  ObjContent :: bytes

record ApplyOptions =
  FieldManager :: string
  Force :: bool

text \<open>
  A \<open>dynamic.ResourceInterface\<close>: the resource and, after \<open>Namespace\<close>, the namespace. A
  \<open>time.Duration\<close> is a number of nanoseconds; the durations of the controllers are differences of
  small constants and a saturated age, which stay within 64 bits.
\<close>

record ResourceInterface =
  ri_Resource :: GroupVersionResource
  ri_Namespace :: "string option"

type_synonym duration = int

definition Second :: duration where "Second = 1000000000"

section \<open>The pure functions of the Kubernetes libraries\<close>

record kube_lib =
  FindCond :: find_fn
  SetCond :: set_fn
  IsNoMatchError :: "goerror \<Rightarrow> bool"
  IsNotFoundError :: "goerror \<Rightarrow> bool"
  UnmarshalObject :: "bytes \<Rightarrow> Unstructured result"
  GVK_String :: "GroupVersionKind \<Rightarrow> string"
  FormatRFC3339 :: "timestamp \<Rightarrow> string"

section \<open>The leader gate\<close>

record 'w LeaderGate =
  gate_CanWrite :: "('w, goerror option) state"
  gate_Remaining :: "('w, duration) state"

text \<open>
  The interfaces a controller calls: the run context with the gate it may carry, the two stores, the
  REST mapper (with \<open>Reset\<close> when it is resettable), the dynamic client and the clock
  \<open>SetStatusCondition\<close> reads. The first argument of a call to the API server is the timeout of the
  context it is made with.
\<close>

record 'w host =
  ctx_Err :: "('w, goerror option) state"
  ctx_gate :: "'w LeaderGate option"
  time_Now :: "('w, timestamp) state"
  spec_ListApplyDesires :: "string \<Rightarrow> ('w, ApplyDesire list result) state"
  spec_GetApplyDesire :: "Identity \<Rightarrow> ('w, ApplyDesire result) state"
  status_UpdateApplyDesireStatus :: "Identity \<Rightarrow> Status \<Rightarrow> int64 \<Rightarrow> ('w, ApplyDesire result) state"
  spec_ListDeleteDesires :: "string \<Rightarrow> ('w, DeleteDesire list result) state"
  spec_GetDeleteDesire :: "Identity \<Rightarrow> ('w, DeleteDesire result) state"
  status_UpdateDeleteDesireStatus :: "Identity \<Rightarrow> Status \<Rightarrow> int64 \<Rightarrow> ('w, DeleteDesire result) state"
  mapper_RESTMapping :: "GroupVersionKind \<Rightarrow> ('w, RESTMapping result) state"
  mapper_KindFor :: "GroupVersionResource \<Rightarrow> ('w, GroupVersionKind result) state"
  mapper_Reset :: "('w, unit) state option"
  dyn_Apply :: "duration \<Rightarrow> ResourceInterface \<Rightarrow> string \<Rightarrow> Unstructured \<Rightarrow> ApplyOptions \<Rightarrow> ('w, goerror option) state"
  dyn_Get :: "duration \<Rightarrow> ResourceInterface \<Rightarrow> string \<Rightarrow> ('w, Unstructured result) state"
  dyn_Delete :: "duration \<Rightarrow> ResourceInterface \<Rightarrow> string \<Rightarrow> ('w, goerror option) state"

definition CanWrite :: "'w host \<Rightarrow> ('w, goerror option) state" where
  "CanWrite h =
     (case ctx_gate h of
        Some gate \<Rightarrow> gate_CanWrite gate
      | None \<Rightarrow> State_Monad.return None)"

text \<open>\<open>WriteContext\<close>: the timeout of the derived context.\<close>

definition WriteContext :: "'w host \<Rightarrow> duration \<Rightarrow> ('w, duration) state" where
  "WriteContext h timeout =
     (case ctx_gate h of
        Some gate \<Rightarrow> do {
          remaining \<leftarrow> gate_Remaining gate;
          State_Monad.return (if remaining < timeout then remaining else timeout)
        }
      | None \<Rightarrow> State_Monad.return timeout)"

definition reset_mapper :: "'w host \<Rightarrow> ('w, unit) state" where
  "reset_mapper h = (case mapper_Reset h of Some reset \<Rightarrow> reset | None \<Rightarrow> State_Monad.return ())"

section \<open>Controller utilities\<close>

definition DescribeIdentity :: "Identity \<Rightarrow> string" where
  "DescribeIdentity i =
     ''managementCluster='' @ quote (ManagementCluster i) @ '' type='' @ quote (DesireTypeOf i) @
     '' group='' @ quote (Group i) @ '' resource='' @ quote (Resource i) @
     '' namespace='' @ quote (Namespace i) @ '' name='' @ quote (Name i)"

text \<open>\<open>WithCondition\<close> over the clock that \<open>SetStatusCondition\<close> reads, and on a host.\<close>

definition with_condition ::
  "kube_lib \<Rightarrow> ('w, timestamp) state \<Rightarrow> Status \<Rightarrow> Condition \<Rightarrow> ('w, Status) state" where
  "with_condition k clock status cond = do {
     now \<leftarrow> clock;
     State_Monad.return (\<lparr>Conditions = SetCond k now (Conditions status) cond\<rparr>)
   }"

definition WithCondition :: "kube_lib \<Rightarrow> 'w host \<Rightarrow> Status \<Rightarrow> Condition \<Rightarrow> ('w, Status) state" where
  "WithCondition k h status cond = with_condition k (time_Now h) status cond"

lemmas WithCondition_defs = WithCondition_def with_condition_def

definition EqualStatus :: "kube_lib \<Rightarrow> Status \<Rightarrow> Status \<Rightarrow> bool" where
  "EqualStatus k a b =
     (if length (Conditions a) \<noteq> length (Conditions b) then False
      else list_all (\<lambda>ac.
        case FindCond k (Conditions b) (cond_Type ac) of
          None \<Rightarrow> False
        | Some bc \<Rightarrow> ac\<lparr>cond_LastTransitionTime := 0\<rparr> = bc\<lparr>cond_LastTransitionTime := 0\<rparr>) (Conditions a))"

text \<open>The condition literal of the status functions; the fields it does not name are zero.\<close>

definition SuccessfulCondition :: "string \<Rightarrow> int64 \<Rightarrow> string \<Rightarrow> string \<Rightarrow> Condition" where
  "SuccessfulCondition status generation reason msg =
     \<lparr>cond_Type = TypeSuccessful, cond_Status = status, cond_ObservedGeneration = generation,
      cond_LastTransitionTime = 0, cond_Reason = reason, cond_Message = msg\<rparr>"

lemma SuccessfulCondition_sel [simp]:
  "cond_Type (SuccessfulCondition st g reason msg) = TypeSuccessful"
  "cond_Status (SuccessfulCondition st g reason msg) = st"
  "cond_ObservedGeneration (SuccessfulCondition st g reason msg) = g"
  "cond_Reason (SuccessfulCondition st g reason msg) = reason"
  "cond_Message (SuccessfulCondition st g reason msg) = msg"
  by (simp_all add: SuccessfulCondition_def)

section \<open>A host that keeps a log\<close>

text \<open>The calls a controller makes, with their results; the log has the newest call first.\<close>

datatype event =
    EvCtxErr "goerror option"
  | EvCanWrite "goerror option"
  | EvRemaining duration
  | EvNow timestamp
  | EvListApply string "ApplyDesire list result"
  | EvGetApply Identity "ApplyDesire result"
  | EvUpdateApply Identity Status int64 "ApplyDesire result"
  | EvListDelete string "DeleteDesire list result"
  | EvGetDelete Identity "DeleteDesire result"
  | EvUpdateDelete Identity Status int64 "DeleteDesire result"
  | EvMapping GroupVersionKind "RESTMapping result"
  | EvKindFor GroupVersionResource "GroupVersionKind result"
  | EvReset
  | EvApply duration ResourceInterface string Unstructured ApplyOptions "goerror option"
  | EvGet duration ResourceInterface string "Unstructured result"
  | EvDelete duration ResourceInterface string "goerror option"

type_synonym 'w logged = "'w \<times> event list"

definition log_call :: "('a \<Rightarrow> 'e) \<Rightarrow> ('w, 'a) state \<Rightarrow> ('w \<times> 'e list, 'a) state" where
  "log_call ev m = State (\<lambda>(w, tr). case run_state m w of (r, w') \<Rightarrow> (r, (w', ev r # tr)))"

definition logging_gate :: "'w LeaderGate \<Rightarrow> 'w logged LeaderGate" where
  "logging_gate g = \<lparr>gate_CanWrite = log_call EvCanWrite (gate_CanWrite g),
     gate_Remaining = log_call EvRemaining (gate_Remaining g)\<rparr>"

definition logging :: "'w host \<Rightarrow> 'w logged host" where
  "logging h = \<lparr>
     ctx_Err = log_call EvCtxErr (ctx_Err h),
     ctx_gate = map_option logging_gate (ctx_gate h),
     time_Now = log_call EvNow (time_Now h),
     spec_ListApplyDesires = (\<lambda>mc. log_call (EvListApply mc) (spec_ListApplyDesires h mc)),
     spec_GetApplyDesire = (\<lambda>i. log_call (EvGetApply i) (spec_GetApplyDesire h i)),
     status_UpdateApplyDesireStatus =
       (\<lambda>i st n. log_call (EvUpdateApply i st n) (status_UpdateApplyDesireStatus h i st n)),
     spec_ListDeleteDesires = (\<lambda>mc. log_call (EvListDelete mc) (spec_ListDeleteDesires h mc)),
     spec_GetDeleteDesire = (\<lambda>i. log_call (EvGetDelete i) (spec_GetDeleteDesire h i)),
     status_UpdateDeleteDesireStatus =
       (\<lambda>i st n. log_call (EvUpdateDelete i st n) (status_UpdateDeleteDesireStatus h i st n)),
     mapper_RESTMapping = (\<lambda>gvk. log_call (EvMapping gvk) (mapper_RESTMapping h gvk)),
     mapper_KindFor = (\<lambda>gvr. log_call (EvKindFor gvr) (mapper_KindFor h gvr)),
     mapper_Reset = map_option (log_call (\<lambda>u. EvReset)) (mapper_Reset h),
     dyn_Apply = (\<lambda>t ri n x opts. log_call (EvApply t ri n x opts) (dyn_Apply h t ri n x opts)),
     dyn_Get = (\<lambda>t ri n. log_call (EvGet t ri n) (dyn_Get h t ri n)),
     dyn_Delete = (\<lambda>t ri n. log_call (EvDelete t ri n) (dyn_Delete h t ri n))\<rparr>"

text \<open>Every event of a log satisfies a rule that sees what came before it.\<close>

primrec every :: "('e \<Rightarrow> 'e list \<Rightarrow> bool) \<Rightarrow> 'e list \<Rightarrow> bool" where
  "every P [] = True"
| "every P (e # older) = (P e older \<and> every P older)"

lemma every_iff: "every P tr \<longleftrightarrow> (\<forall>newer e older. tr = newer @ e # older \<longrightarrow> P e older)"
proof (induction tr)
  case (Cons a tr)
  show ?case by (auto simp: Cons.IH Cons_eq_append_conv)
qed simp

lemma every_append: "every P (newer @ older) \<Longrightarrow> every P older"
  by (induction newer) simp_all

lemma every_mono: "every P tr \<Longrightarrow> (\<And>e older. P e older \<Longrightarrow> Q e older) \<Longrightarrow> every Q tr"
  by (induction tr) simp_all

lemma wp_log_call [wp_rules]:
  "wp (log_call ev m) Q s = (case run_state m (fst s) of (r, w) \<Rightarrow> Q r (w, ev r # snd s))"
  by (simp add: log_call_def wp_State split: prod.split)

text \<open>Whatever the world answers, the call is in the log.\<close>

lemma wp_logI: "(\<And>r w. Q r (w, ev r # snd s)) \<Longrightarrow> wp (log_call ev m) Q s"
  by (simp add: wp_log_call split: prod.split)

lemma logging_sel [simp]:
  "ctx_Err (logging h) = log_call EvCtxErr (ctx_Err h)"
  "ctx_gate (logging h) = map_option logging_gate (ctx_gate h)"
  "time_Now (logging h) = log_call EvNow (time_Now h)"
  "spec_ListApplyDesires (logging h) mc = log_call (EvListApply mc) (spec_ListApplyDesires h mc)"
  "spec_GetApplyDesire (logging h) i = log_call (EvGetApply i) (spec_GetApplyDesire h i)"
  "status_UpdateApplyDesireStatus (logging h) i st n =
     log_call (EvUpdateApply i st n) (status_UpdateApplyDesireStatus h i st n)"
  "spec_ListDeleteDesires (logging h) mc = log_call (EvListDelete mc) (spec_ListDeleteDesires h mc)"
  "spec_GetDeleteDesire (logging h) i = log_call (EvGetDelete i) (spec_GetDeleteDesire h i)"
  "status_UpdateDeleteDesireStatus (logging h) i st n =
     log_call (EvUpdateDelete i st n) (status_UpdateDeleteDesireStatus h i st n)"
  "mapper_RESTMapping (logging h) gvk = log_call (EvMapping gvk) (mapper_RESTMapping h gvk)"
  "mapper_KindFor (logging h) gvr = log_call (EvKindFor gvr) (mapper_KindFor h gvr)"
  "mapper_Reset (logging h) = map_option (log_call (\<lambda>u. EvReset)) (mapper_Reset h)"
  "dyn_Apply (logging h) t ri nm x opts = log_call (EvApply t ri nm x opts) (dyn_Apply h t ri nm x opts)"
  "dyn_Get (logging h) t ri nm = log_call (EvGet t ri nm) (dyn_Get h t ri nm)"
  "dyn_Delete (logging h) t ri nm = log_call (EvDelete t ri nm) (dyn_Delete h t ri nm)"
  "gate_CanWrite (logging_gate g) = log_call EvCanWrite (gate_CanWrite g)"
  "gate_Remaining (logging_gate g) = log_call EvRemaining (gate_Remaining g)"
  by (simp_all add: logging_def logging_gate_def)

text \<open>
  A write with the timeout \<open>t\<close> passed the gate right before: the gate allowed it after the calls
  \<open>rest\<close>, and the timeout is what the gate had left, at most the controller's own. Without a gate
  the controller's timeout is used as it is.
\<close>

definition gate_passed :: "bool \<Rightarrow> duration \<Rightarrow> duration \<Rightarrow> event list \<Rightarrow> event list \<Rightarrow> bool" where
  "gate_passed b timeout t tr rest \<longleftrightarrow>
     (if b then (\<exists>remaining. tr = EvRemaining remaining # EvCanWrite None # rest \<and> t = min remaining timeout)
      else tr = rest \<and> t = timeout)"

definition gated :: "'w host \<Rightarrow> bool" where
  "gated h \<longleftrightarrow> ctx_gate h \<noteq> None"

text \<open>The check and the write context, as one step of the log.\<close>

lemma wp_gate:
  assumes "\<And>err w. Q1 (Some err) (w, EvCanWrite (Some err) # tr)"
    and "\<And>t w tr'. gate_passed (gated h) timeout t tr' tr \<Longrightarrow> Q2 t (w, tr')"
    and "\<And>s. wp (WriteContext (logging h) timeout) Q2 s \<Longrightarrow> Q1 None s"
  shows "wp (CanWrite (logging h)) Q1 (w, tr)"
proof (cases "ctx_gate h")
  case None
  then show ?thesis
    using assms(2) [of timeout tr] assms(3) [of "(w, tr)"]
    by (simp add: CanWrite_def WriteContext_def wp_rules gate_passed_def gated_def)
next
  case (Some g)
  have "Q1 None (w, EvCanWrite None # tr)" for w
    by (rule assms(3)) (auto simp: Some WriteContext_def wp_rules gate_passed_def gated_def min_def
        intro!: assms(2) split: prod.split)
  then show ?thesis
    using assms(1) by (auto simp: Some CanWrite_def intro!: wp_logI)
      (metis not_None_eq)
qed

text \<open>A log that has grown from \<open>tr\<close> and keeps a rule.\<close>

definition log_from :: "('e \<Rightarrow> 'e list \<Rightarrow> bool) \<Rightarrow> 'e list \<Rightarrow> 'e list \<Rightarrow> bool" where
  "log_from P tr tr' \<longleftrightarrow> every P tr' \<and> suffix tr tr'"

lemma log_from_refl: "every P tr \<Longrightarrow> log_from P tr tr"
  by (simp add: log_from_def)

lemma log_from_Cons: "log_from P tr tr' \<Longrightarrow> P e tr' \<Longrightarrow> log_from P tr (e # tr')"
  by (simp add: log_from_def suffix_Cons)

lemma log_from_trans: "log_from P tr tr' \<Longrightarrow> log_from P tr' tr'' \<Longrightarrow> log_from P tr tr''"
  by (auto simp: log_from_def intro: suffix_order.trans)

lemma log_from_every: "log_from P tr tr' \<Longrightarrow> every P tr'"
  by (simp add: log_from_def)

text \<open>The calls a rule does not restrict.\<close>

definition free_call :: "event \<Rightarrow> bool" where
  "free_call e \<longleftrightarrow>
     (case e of
        EvApply t ri n x opts res \<Rightarrow> False
      | EvDelete t ri n res \<Rightarrow> False
      | EvUpdateApply i st n res \<Rightarrow> False
      | EvUpdateDelete i st n res \<Rightarrow> False
      | _ \<Rightarrow> True)"

lemma free_call_simps [simp]:
  "free_call (EvCtxErr ce)" "free_call (EvCanWrite ce)" "free_call (EvRemaining rem)" "free_call (EvNow now)"
  "free_call (EvListApply mc la)" "free_call (EvGetApply i ga)" "free_call (EvListDelete mc ld)"
  "free_call (EvGetDelete i gd)" "free_call (EvMapping gvk mr)" "free_call (EvKindFor gvr kr)" "free_call EvReset"
  "free_call (EvGet t ri nm gr)"
  by (simp_all add: free_call_def)

lemma gate_passed_log:
  assumes "gate_passed b timeout t tr' tr" "log_from P tr0 tr" "\<And>e x. free_call e \<Longrightarrow> P e x"
  shows "log_from P tr0 tr'"
  using assms by (auto simp: gate_passed_def intro!: log_from_Cons split: if_splits)

text \<open>The calls that resolve the target of a desire.\<close>

definition mapping_call :: "event \<Rightarrow> bool" where
  "mapping_call e \<longleftrightarrow> (\<exists>gvk res. e = EvMapping gvk res) \<or> (\<exists>gvr res. e = EvKindFor gvr res) \<or> e = EvReset"

lemma mapping_call_free: "mapping_call e \<Longrightarrow> free_call e"
  by (auto simp: mapping_call_def)

lemma wp_WithCondition:
  assumes "\<And>now w'. Q \<lparr>Conditions = SetCond k now (Conditions status) c\<rparr> (w', EvNow now # tr)"
  shows "wp (WithCondition k (logging h) status c) Q (w, tr)"
  unfolding WithCondition_defs wp_bind logging_sel
  by (rule wp_logI) (simp add: wp_rules assms)

section \<open>Relations every call keeps\<close>

named_theorems keeps_rules \<open>code that keeps a relation between the worlds before and after\<close>

definition keeps :: "('w \<Rightarrow> 'w \<Rightarrow> bool) \<Rightarrow> ('w, 'a) state \<Rightarrow> bool" where
  "keeps R m \<longleftrightarrow> (\<forall>w. R w (snd (run_state m w)))"

definition host_keeps :: "('w \<Rightarrow> 'w \<Rightarrow> bool) \<Rightarrow> 'w host \<Rightarrow> bool" where
  "host_keeps R h \<longleftrightarrow>
     keeps R (ctx_Err h) \<and> keeps R (time_Now h) \<and>
     (\<forall>g. ctx_gate h = Some g \<longrightarrow> keeps R (gate_CanWrite g) \<and> keeps R (gate_Remaining g)) \<and>
     (\<forall>mc. keeps R (spec_ListApplyDesires h mc)) \<and> (\<forall>i. keeps R (spec_GetApplyDesire h i)) \<and>
     (\<forall>i st n. keeps R (status_UpdateApplyDesireStatus h i st n)) \<and>
     (\<forall>mc. keeps R (spec_ListDeleteDesires h mc)) \<and> (\<forall>i. keeps R (spec_GetDeleteDesire h i)) \<and>
     (\<forall>i st n. keeps R (status_UpdateDeleteDesireStatus h i st n)) \<and>
     (\<forall>gvk. keeps R (mapper_RESTMapping h gvk)) \<and> (\<forall>gvr. keeps R (mapper_KindFor h gvr)) \<and>
     (\<forall>m. mapper_Reset h = Some m \<longrightarrow> keeps R m) \<and>
     (\<forall>t ri n x opts. keeps R (dyn_Apply h t ri n x opts)) \<and> (\<forall>t ri n. keeps R (dyn_Get h t ri n)) \<and>
     (\<forall>t ri n. keeps R (dyn_Delete h t ri n))"

locale kept_order =
  fixes R :: "'w \<Rightarrow> 'w \<Rightarrow> bool"
  assumes refl: "R w w"
    and trans: "R w w' \<Longrightarrow> R w' w'' \<Longrightarrow> R w w''"
begin

lemma keeps_return [keeps_rules]: "keeps R (State_Monad.return x)"
  by (simp add: keeps_def refl)

lemma keeps_bind [keeps_rules]: "keeps R m \<Longrightarrow> (\<And>a. keeps R (f a)) \<Longrightarrow> keeps R (State_Monad.bind m f)"
  unfolding keeps_def by (simp split: prod.split) (metis snd_conv trans)

lemma keeps_case_option [keeps_rules]:
  "keeps R f \<Longrightarrow> (\<And>a. keeps R (g a)) \<Longrightarrow> keeps R (case x of None \<Rightarrow> f | Some a \<Rightarrow> g a)"
  by (cases x) simp_all

lemma keeps_case_sum [keeps_rules]:
  "(\<And>a. keeps R (f a)) \<Longrightarrow> (\<And>a. keeps R (g a)) \<Longrightarrow> keeps R (case x of Inl a \<Rightarrow> f a | Inr a \<Rightarrow> g a)"
  by (cases x) simp_all

lemma keeps_if [keeps_rules]: "keeps R f \<Longrightarrow> keeps R g \<Longrightarrow> keeps R (if b then f else g)"
  by simp

lemma keeps_case_prod [keeps_rules]: "(\<And>a b. keeps R (f a b)) \<Longrightarrow> keeps R (case p of (a, b) \<Rightarrow> f a b)"
  by (cases p) simp

end

locale kept_relation = kept_order R for R :: "'w \<Rightarrow> 'w \<Rightarrow> bool" +
  fixes h :: "'w host"
  assumes host: "host_keeps R h"
begin

lemma keeps_calls [keeps_rules]:
  "keeps R (ctx_Err h)" "keeps R (time_Now h)" "keeps R (spec_ListApplyDesires h mc)"
  "keeps R (spec_GetApplyDesire h i)" "keeps R (status_UpdateApplyDesireStatus h i st n)"
  "keeps R (spec_ListDeleteDesires h mc)" "keeps R (spec_GetDeleteDesire h i)"
  "keeps R (status_UpdateDeleteDesireStatus h i st n)" "keeps R (mapper_RESTMapping h gvk)"
  "keeps R (mapper_KindFor h gvr)" "keeps R (dyn_Apply h t ri nm x opts)" "keeps R (dyn_Get h t ri nm)"
  "keeps R (dyn_Delete h t ri nm)"
  using host by (simp_all add: host_keeps_def)

lemma keeps_shared [keeps_rules]:
  "keeps R (CanWrite h)" "keeps R (WriteContext h timeout)" "keeps R (reset_mapper h)"
  "keeps R (WithCondition k h status c)"
  using host unfolding CanWrite_def WriteContext_def reset_mapper_def WithCondition_defs host_keeps_def
  by (auto intro!: keeps_rules split: option.split)

end

section \<open>The run context\<close>

text \<open>
  What the controllers rely on of their context: once it has ended it stays so and \<open>Err\<close> says why, and
  a gate that denies a write has ended it.
\<close>

locale run_context =
  fixes h :: "'w host" and ended :: "'w \<Rightarrow> bool"
  assumes ctx_law: "run_state (ctx_Err h) w = (e, w') \<Longrightarrow>
      (ended w \<longrightarrow> e \<noteq> None) \<and> (\<forall>err. e = Some err \<longrightarrow> ended w' \<and> (err = Canceled \<or> err = DeadlineExceeded))"
    and gate_law: "ctx_gate h = Some g \<Longrightarrow> run_state (gate_CanWrite g) w = (Some err, w') \<Longrightarrow>
      ended w' \<and> (\<exists>p q. err = Wrapf p ErrLeadershipStale q)"
    and ended_stays: "host_keeps (\<lambda>w w'. ended w \<longrightarrow> ended w') h"

end
