(* ===== verification/ApplyReconciler.thy ===== *)
theory ApplyReconciler
  imports Reconciler
begin

text \<open>
  Package \<open>internal/controllers/applydesire\<close>: one pass of the apply controller, in the order of
  \<open>controller.go\<close> and \<open>status.go\<close>, and the rules its calls keep on every host. Log output is left
  out. Two kinds of results are told apart as in the code: a status to persist (\<open>Inr\<close>) and an error
  that is control flow (\<open>Inl\<close>).
\<close>

section \<open>Status\<close>

definition applied :: "kube_lib \<Rightarrow> 'w host \<Rightarrow> Status \<Rightarrow> int64 \<Rightarrow> ('w, Status) state" where
  "applied k h status generation =
     WithCondition k h status (SuccessfulCondition ConditionTrue generation ReasonApplied [])"

definition applyFailed :: "kube_lib \<Rightarrow> 'w host \<Rightarrow> Status \<Rightarrow> int64 \<Rightarrow> goerror \<Rightarrow> ('w, Status) state" where
  "applyFailed k h status generation err =
     WithCondition k h status (SuccessfulCondition ConditionFalse generation ReasonKubeAPIError (error_text err))"

definition apply_preCheckFailed :: "kube_lib \<Rightarrow> 'w host \<Rightarrow> Status \<Rightarrow> int64 \<Rightarrow> string \<Rightarrow> ('w, Status) state" where
  "apply_preCheckFailed k h status generation msg =
     WithCondition k h status (SuccessfulCondition ConditionFalse generation ReasonPreCheckFailed msg)"

section \<open>Reconciling one desire\<close>

definition fieldManager :: string where "fieldManager = ''hyperfleet-applier''"

definition applyTimeout :: duration where "applyTimeout = 30 * Second"

record ApplyReconciler =
  ar_managementCluster :: string
  ar_applyTimeout :: duration

definition apply_New :: "string \<Rightarrow> ApplyReconciler" where
  "apply_New mc = \<lparr>ar_managementCluster = mc, ar_applyTimeout = applyTimeout\<rparr>"

definition checkApplyTarget :: "Identity \<Rightarrow> Unstructured \<Rightarrow> RESTMapping \<Rightarrow> goerror option" where
  "checkApplyTarget i x mapping =
     (let gvr = rm_Resource mapping in
      if gvr_Group gvr \<noteq> Group i \<or> gvr_Resource gvr \<noteq> Resource i then
        Some (ErrorString (''apply: manifest resource '' @ quote (gvr_Group gvr) @ ''/'' @ quote (gvr_Resource gvr) @
          '' does not match identity '' @ quote (Group i) @ ''/'' @ quote (Resource i)))
      else if GetName x \<noteq> Name i then
        Some (ErrorString (''apply: manifest name '' @ quote (GetName x) @
          '' does not match identity name '' @ quote (Name i)))
      else if rm_Namespaced mapping then
        (if Namespace i = [] then
           Some (ErrorString (''apply: identity namespace must not be empty for namespaced resource '' @
             quote (Name i)))
         else if GetNamespace x \<noteq> [] \<and> GetNamespace x \<noteq> Namespace i then
           Some (ErrorString (''apply: manifest namespace '' @ quote (GetNamespace x) @
             '' does not match identity namespace '' @ quote (Namespace i)))
         else None)
      else if Namespace i \<noteq> [] then
        Some (ErrorString (''apply: identity namespace '' @ quote (Namespace i) @
          '' must be empty for cluster-scoped resource '' @ quote (Name i)))
      else None)"

text \<open>The lookup of the mapping, repeated once after a reset when nothing matches.\<close>

definition apply_mapping :: "kube_lib \<Rightarrow> 'w host \<Rightarrow> GroupVersionKind \<Rightarrow> ('w, RESTMapping result) state" where
  "apply_mapping k h gvk = do {
     first \<leftarrow> mapper_RESTMapping h gvk;
     (case first of
        Inl err \<Rightarrow>
          if IsNoMatchError k err then do {
            _ \<leftarrow> reset_mapper h;
            mapper_RESTMapping h gvk
          } else State_Monad.return (Inl err)
      | Inr mapping \<Rightarrow> State_Monad.return (Inr mapping))
   }"

definition apply_client :: "Identity \<Rightarrow> RESTMapping \<Rightarrow> ResourceInterface" where
  "apply_client i mapping = \<lparr>ri_Resource = rm_Resource mapping,
     ri_Namespace = (if rm_Namespaced mapping then Some (Namespace i) else None)\<rparr>"

text \<open>From the re-check of the desire to the outcome of the server-side apply.\<close>

definition apply_object ::
  "kube_lib \<Rightarrow> 'w host \<Rightarrow> ApplyReconciler \<Rightarrow> ApplyDesire \<Rightarrow> Unstructured \<Rightarrow> RESTMapping \<Rightarrow> ('w, Status result) state" where
  "apply_object k h r d x mapping =
     (let i = ad_Identity d;
          client = apply_client i mapping in
      do {
        found \<leftarrow> spec_GetApplyDesire h i;
        (case found of
           Inl err \<Rightarrow> State_Monad.return (Inl
             (if errors_Is err ErrNotFound
              then Wrapf (''apply: desire '' @ DescribeIdentity i @ '' deleted before apply: '') err []
              else Wrapf (''apply: verify desire '' @ DescribeIdentity i @ '' still exists: '') err []))
         | Inr _ \<Rightarrow> do {
             ctxErr \<leftarrow> ctx_Err h;
             (case ctxErr of
                Some err \<Rightarrow> State_Monad.return (Inl (wrap (''apply '' @ DescribeIdentity i) err))
              | None \<Rightarrow> do {
                  gateErr \<leftarrow> CanWrite h;
                  (case gateErr of
                     Some err \<Rightarrow> State_Monad.return (Inl (wrap (''apply '' @ DescribeIdentity i) err))
                   | None \<Rightarrow> do {
                       applyCtx \<leftarrow> WriteContext h (ar_applyTimeout r);
                       res \<leftarrow> dyn_Apply h applyCtx client (Name i) x \<lparr>FieldManager = fieldManager, Force = True\<rparr>;
                       (case res of
                          None \<Rightarrow> do {
                            st \<leftarrow> applied k h (ad_Status d) (ad_Generation d);
                            State_Monad.return (Inr st)
                          }
                        | Some err \<Rightarrow> do {
                            ctxErr \<leftarrow> ctx_Err h;
                            (case ctxErr of
                               Some cerr \<Rightarrow> State_Monad.return (Inl (wrap (''apply '' @ DescribeIdentity i) cerr))
                             | None \<Rightarrow> do {
                                 gateErr \<leftarrow> CanWrite h;
                                 (case gateErr of
                                    Some gerr \<Rightarrow> State_Monad.return (Inl (wrap (''apply '' @ DescribeIdentity i) gerr))
                                  | None \<Rightarrow> do {
                                      st \<leftarrow> applyFailed k h (ad_Status d) (ad_Generation d) err;
                                      State_Monad.return (Inr st)
                                    })
                               })
                          })
                     })
                })
           })
      })"

definition applyToCluster ::
  "kube_lib \<Rightarrow> 'w host \<Rightarrow> ApplyReconciler \<Rightarrow> ApplyDesire \<Rightarrow> ('w, Status result) state" where
  "applyToCluster k h r d =
     (let refuse = (\<lambda>msg. do {
            st \<leftarrow> apply_preCheckFailed k h (ad_Status d) (ad_Generation d) msg;
            State_Monad.return (Inr st)
          }) in
      case UnmarshalObject k (KubeContent (ad_Spec d)) of
        Inl err \<Rightarrow> refuse (''apply: manifest could not be decoded as a Kubernetes object (invalid JSON or missing kind): '' @
          error_text err)
      | Inr x \<Rightarrow>
          if GetAPIVersion x = [] \<or> GetKind x = [] \<or> GetName x = [] then
            refuse ''apply: manifest is missing apiVersion, kind, or metadata.name''
          else do {
            m \<leftarrow> apply_mapping k h (ObjGroupVersionKind x);
            (case m of
               Inl err \<Rightarrow> refuse (''apply: no resource mapping for '' @ GVK_String k (ObjGroupVersionKind x) @ '': '' @
                 error_text err)
             | Inr mapping \<Rightarrow>
                 (case checkApplyTarget (ad_Identity d) x mapping of
                    Some err \<Rightarrow> refuse (error_text err)
                  | None \<Rightarrow> apply_object k h r d x mapping))
          })"

definition apply_reconcileOne ::
  "kube_lib \<Rightarrow> 'w host \<Rightarrow> ApplyReconciler \<Rightarrow> ApplyDesire \<Rightarrow> ('w, goerror option) state" where
  "apply_reconcileOne k h r d = do {
     res \<leftarrow> applyToCluster k h r d;
     (case res of
        Inl err \<Rightarrow> State_Monad.return (if errors_Is err ErrNotFound then None else Some err)
      | Inr newStatus \<Rightarrow>
          if EqualStatus k newStatus (ad_Status d) then State_Monad.return None
          else do {
            upd \<leftarrow> status_UpdateApplyDesireStatus h (ad_Identity d) newStatus (ad_Version d);
            State_Monad.return
              (case upd of
                 Inr _ \<Rightarrow> None
               | Inl err \<Rightarrow>
                   if errors_Is err ErrVersionConflict then None
                   else Some (wrap (''apply: write status for '' @ DescribeIdentity (ad_Identity d)) err))
          })
   }"

section \<open>One pass\<close>

definition aborts_apply :: "goerror \<Rightarrow> bool" where
  "aborts_apply err \<longleftrightarrow>
     errors_Is err Canceled \<or> errors_Is err DeadlineExceeded \<or> errors_Is err ErrLeadershipStale"

primrec apply_loop ::
  "kube_lib \<Rightarrow> 'w host \<Rightarrow> ApplyReconciler \<Rightarrow> ApplyDesire list \<Rightarrow> goerror list \<Rightarrow> ('w, goerror option) state" where
  "apply_loop k h r [] errs = State_Monad.return (errors_Join errs)"
| "apply_loop k h r (d # ds) errs = do {
     ctxErr \<leftarrow> ctx_Err h;
     (case ctxErr of
        Some err \<Rightarrow> State_Monad.return (Some (wrap (''apply: reconcile aborted for management cluster '' @
          quote (ar_managementCluster r)) err))
      | None \<Rightarrow> do {
          res \<leftarrow> apply_reconcileOne k h r d;
          (case res of
             None \<Rightarrow> apply_loop k h r ds errs
           | Some err \<Rightarrow>
               if aborts_apply err then
                 State_Monad.return (Some (wrap (''apply: reconcile desire '' @ DescribeIdentity (ad_Identity d)) err))
               else apply_loop k h r ds (errs @ [err]))
        })
   }"

definition apply_RunOnce :: "kube_lib \<Rightarrow> 'w host \<Rightarrow> ApplyReconciler \<Rightarrow> ('w, goerror option) state" where
  "apply_RunOnce k h r = do {
     listed \<leftarrow> spec_ListApplyDesires h (ar_managementCluster r);
     (case listed of
        Inl err \<Rightarrow> State_Monad.return (Some (wrap (''apply: list apply desires for management cluster '' @
          quote (ar_managementCluster r)) err))
      | Inr desires \<Rightarrow> apply_loop k h r desires [])
   }"

section \<open>The rules the calls of a pass keep\<close>

text \<open>The status of a desire and the calls it follows from.\<close>

definition apply_outcome :: "kube_lib \<Rightarrow> ApplyDesire \<Rightarrow> Status \<Rightarrow> event list \<Rightarrow> bool" where
  "apply_outcome k d st tr \<longleftrightarrow>
     (\<exists>now older status reason msg. tr = EvNow now # older \<and>
        st = \<lparr>Conditions = SetCond k now (Conditions (ad_Status d))
                (SuccessfulCondition status (ad_Generation d) reason msg)\<rparr> \<and>
        ((status = ConditionTrue \<and> reason = ReasonApplied \<and>
            (\<exists>t ri n x opts rest. older = EvApply t ri n x opts None # rest)) \<or>
         (status = ConditionFalse \<and> reason = ReasonKubeAPIError \<and>
            (\<exists>t ri n x opts err gates rest. older = gates @ EvCtxErr None # EvApply t ri n x opts (Some err) # rest \<and>
               set gates \<subseteq> {EvCanWrite None} \<and> msg = error_text err)) \<or>
         (status = ConditionFalse \<and> reason = ReasonPreCheckFailed \<and>
            (\<exists>calls rest. older = calls @ EvCtxErr None # rest \<and> (\<forall>e\<in>set calls. mapping_call e)))))"

definition listed_apply :: "ApplyReconciler \<Rightarrow> event list \<Rightarrow> ApplyDesire \<Rightarrow> bool" where
  "listed_apply r tr d \<longleftrightarrow> (\<exists>ds. EvListApply (ar_managementCluster r) (Inr ds) \<in> set tr \<and> d \<in> set ds)"

text \<open>The object a call to the API server names is the one of the desire's identity.\<close>

definition names_target :: "Identity \<Rightarrow> ResourceInterface \<Rightarrow> string \<Rightarrow> bool" where
  "names_target i ri n \<longleftrightarrow>
     gvr_Group (ri_Resource ri) = Group i \<and> gvr_Resource (ri_Resource ri) = Resource i \<and> n = Name i \<and>
     ri_Namespace ri = (if Namespace i = [] then None else Some (Namespace i))"

definition apply_write_rule :: "kube_lib \<Rightarrow> bool \<Rightarrow> ApplyReconciler \<Rightarrow> event \<Rightarrow> event list \<Rightarrow> bool" where
  "apply_write_rule k g r e tr =
     (case e of
        EvApply t ri n x opts res \<Rightarrow>
          (\<exists>d found rest. listed_apply r tr d \<and> names_target (ad_Identity d) ri n \<and>
             UnmarshalObject k (KubeContent (ad_Spec d)) = Inr x \<and> GetName x = Name (ad_Identity d) \<and>
             opts = \<lparr>FieldManager = fieldManager, Force = True\<rparr> \<and>
             gate_passed g (ar_applyTimeout r) t tr (EvCtxErr None # EvGetApply (ad_Identity d) (Inr found) # rest))
      | EvDelete t ri n res \<Rightarrow> False
      | _ \<Rightarrow> True)"

definition apply_status_rule :: "kube_lib \<Rightarrow> ApplyReconciler \<Rightarrow> event \<Rightarrow> event list \<Rightarrow> bool" where
  "apply_status_rule k r e tr =
     (case e of
        EvUpdateApply i st n res \<Rightarrow>
          (\<exists>d. listed_apply r tr d \<and> i = ad_Identity d \<and> n = ad_Version d \<and> apply_outcome k d st tr \<and>
             \<not> EqualStatus k st (ad_Status d))
      | EvUpdateDelete i st n res \<Rightarrow> False
      | _ \<Rightarrow> True)"

definition apply_rule :: "kube_lib \<Rightarrow> bool \<Rightarrow> ApplyReconciler \<Rightarrow> event \<Rightarrow> event list \<Rightarrow> bool" where
  "apply_rule k g r e tr \<longleftrightarrow> apply_write_rule k g r e tr \<and> apply_status_rule k r e tr"

lemmas apply_rules = apply_rule_def apply_write_rule_def apply_status_rule_def

abbreviation apply_log :: "kube_lib \<Rightarrow> bool \<Rightarrow> ApplyReconciler \<Rightarrow> event list \<Rightarrow> event list \<Rightarrow> bool" where
  "apply_log k g r \<equiv> log_from (apply_rule k g r)"

lemma listed_apply_suffix: "listed_apply r tr d \<Longrightarrow> suffix tr tr' \<Longrightarrow> listed_apply r tr' d"
  by (auto simp: listed_apply_def dest: set_mono_suffix)

lemma apply_rule_free [simp]: "free_call e \<Longrightarrow> apply_rule k g r e tr"
  by (simp add: apply_rules free_call_def split: event.splits)

lemma apply_mapping_log:
  assumes "every (apply_rule k g r) tr"
  shows "wp (apply_mapping k (logging h) gvk) (\<lambda>res s. apply_log k g r tr (snd s) \<and>
    (\<exists>calls. snd s = calls @ tr \<and> (\<forall>e\<in>set calls. mapping_call e))) (w, tr)"
  unfolding apply_mapping_def wp_bind logging_sel reset_mapper_def
  by (rule wp_logI, simp split: sum.split option.split add: wp_rules, intro allI impI conjI)
    (auto intro!: wp_logI log_from_Cons log_from_refl simp: wp_rules mapping_call_def assms)

text \<open>From the re-check on, for a listed desire whose target was checked.\<close>

definition apply_settled ::
  "kube_lib \<Rightarrow> bool \<Rightarrow> ApplyReconciler \<Rightarrow> ApplyDesire \<Rightarrow> event list \<Rightarrow> Status result \<Rightarrow> 'w logged \<Rightarrow> bool" where
  "apply_settled k g r d tr res s \<longleftrightarrow>
     apply_log k g r tr (snd s) \<and> (\<forall>st. res = Inr st \<longrightarrow> apply_outcome k d st (snd s))"

lemma checkApplyTarget_names:
  "checkApplyTarget i x mapping = None \<Longrightarrow>
   GetName x = Name i \<and>
   names_target i (apply_client i mapping) (Name i)"
  by (auto simp: checkApplyTarget_def apply_client_def names_target_def Let_def split: if_splits)

text \<open>The three ways a status comes about.\<close>

lemma outcome_applied:
  "apply_outcome k d \<lparr>Conditions = SetCond k now (Conditions (ad_Status d))
     (SuccessfulCondition ConditionTrue (ad_Generation d) ReasonApplied msg)\<rparr> (EvNow now # EvApply t ri n x opts None # rest)"
  unfolding apply_outcome_def
  by ((rule exI)+, (rule conjI, rule refl)+, rule disjI1, (rule conjI, rule refl)+, (rule exI)+, rule refl)

lemma outcome_failed:
  "set gates \<subseteq> {EvCanWrite None} \<Longrightarrow> apply_outcome k d \<lparr>Conditions = SetCond k now (Conditions (ad_Status d))
     (SuccessfulCondition ConditionFalse (ad_Generation d) ReasonKubeAPIError (error_text err))\<rparr>
     (EvNow now # gates @ EvCtxErr None # EvApply t ri n x opts (Some err) # rest)"
  unfolding apply_outcome_def
  by ((rule exI)+, (rule conjI, rule refl)+, rule disjI2, rule disjI1, (rule conjI, rule refl)+, (rule exI)+,
      rule conjI, rule refl, rule conjI, assumption, rule refl)

lemma outcome_refused:
  "\<forall>e\<in>set calls. mapping_call e \<Longrightarrow> apply_outcome k d \<lparr>Conditions = SetCond k now (Conditions (ad_Status d))
     (SuccessfulCondition ConditionFalse (ad_Generation d) ReasonPreCheckFailed msg)\<rparr>
     (EvNow now # calls @ EvCtxErr None # rest)"
  unfolding apply_outcome_def
  by ((rule exI)+, (rule conjI, rule refl)+, rule disjI2, rule disjI2, (rule conjI, rule refl)+, (rule exI)+,
      rule conjI, rule refl)

lemma apply_result:
  assumes "apply_log k g r tr0 (EvApply t ri n x opts res # tr)"
  shows "wp (case res of
       None \<Rightarrow> State_Monad.bind (applied k (logging h) (ad_Status d) (ad_Generation d))
         (\<lambda>st. State_Monad.return (Inr st))
     | Some err \<Rightarrow> State_Monad.bind (log_call EvCtxErr (ctx_Err h)) (\<lambda>ctxErr.
         case ctxErr of
           None \<Rightarrow> State_Monad.bind (CanWrite (logging h)) (\<lambda>gateErr.
             case gateErr of
               None \<Rightarrow> State_Monad.bind (applyFailed k (logging h) (ad_Status d) (ad_Generation d) err)
                 (\<lambda>st. State_Monad.return (Inr st))
             | Some gerr \<Rightarrow> State_Monad.return (Inl (Wrapf p gerr [])))
         | Some cerr \<Rightarrow> State_Monad.return (Inl (Wrapf p cerr []))))
     (apply_settled k g r d tr0) (w, EvApply t ri n x opts res # tr)"
proof (cases res)
  case None
  then show ?thesis
    using assms unfolding applied_def
    by (auto simp: wp_rules apply_settled_def intro!: wp_WithCondition log_from_Cons outcome_applied)
next
  case (Some err)
  have failed: "wp (applyFailed k (logging h) (ad_Status d) (ad_Generation d) err)
      (\<lambda>a. wp (State_Monad.return (Inr a)) (apply_settled k g r d tr0))
      (w, gates @ EvCtxErr None # EvApply t ri n x opts (Some err) # tr)"
    if "set gates \<subseteq> {EvCanWrite None}" for w gates
  proof -
    have "apply_log k g r tr0 (gates @ EvCtxErr None # EvApply t ri n x opts (Some err) # tr)"
      using that assms Some by (induction gates) (auto intro!: log_from_Cons)
    then show ?thesis
      unfolding applyFailed_def
      by (intro wp_WithCondition)
        (simp add: wp_return apply_settled_def outcome_failed [OF that] log_from_Cons)
  qed
  have gates: "wp (CanWrite (logging h)) (\<lambda>gateErr. wp (case gateErr of
        None \<Rightarrow> State_Monad.bind (applyFailed k (logging h) (ad_Status d) (ad_Generation d) err)
          (\<lambda>st. State_Monad.return (Inr st))
      | Some gerr \<Rightarrow> State_Monad.return (Inl (Wrapf p gerr []))) (apply_settled k g r d tr0))
      (w, EvCtxErr None # EvApply t ri n x opts (Some err) # tr)" for w
    using failed [of "[]"] failed [of "[EvCanWrite None]"] assms Some
    by (auto simp: CanWrite_def wp_bind wp_return apply_settled_def split: option.split intro!: wp_logI log_from_Cons)
  show ?thesis
    unfolding Some option.case wp_bind logging_sel
    by (rule wp_logI) (use gates assms Some in
      \<open>auto simp: wp_bind wp_return apply_settled_def intro!: log_from_Cons split: option.split\<close>)
qed

lemma apply_object_log:
  assumes log: "every (apply_rule k (gated h) r) tr" and d: "listed_apply r tr d"
    and x: "UnmarshalObject k (KubeContent (ad_Spec d)) = Inr x"
    and target: "checkApplyTarget (ad_Identity d) x mapping = None"
  shows "wp (apply_object k (logging h) r d x mapping) (apply_settled k (gated h) r d tr) (w, tr)"
proof -
  let ?g = "gated h" and ?i = "ad_Identity d"
  let ?ri = "apply_client ?i mapping"
  have fin: "apply_settled k ?g r d tr (Inl err) s" if "apply_log k ?g r tr (snd s)" for err and s :: "'a logged"
    using that by (simp add: apply_settled_def)
  have rule: "apply_log k ?g r tr (EvApply t ?ri (Name ?i) x \<lparr>FieldManager = fieldManager, Force = True\<rparr> res # tr')"
    if gate: "gate_passed ?g (ar_applyTimeout r) t tr' (EvCtxErr None # EvGetApply ?i (Inr found) # tr)" for t tr' found res
  proof -
    have l: "apply_log k ?g r tr tr'"
      by (rule gate_passed_log [OF gate]) (simp_all add: log_from_Cons log_from_refl log)
    then have "listed_apply r tr' d" using d listed_apply_suffix by (auto simp: log_from_def)
    with checkApplyTarget_names [OF target] x gate have "apply_rule k ?g r
        (EvApply t ?ri (Name ?i) x \<lparr>FieldManager = fieldManager, Force = True\<rparr> res) tr'"
      unfolding apply_rules event.case by blast
    with l show ?thesis by (rule log_from_Cons)
  qed
  show ?thesis
    unfolding apply_object_def Let_def wp_bind logging_sel
  proof (rule wp_logI, goal_cases)
    case (1 found w)
    show ?case
    proof (cases found)
      case (Inl err)
      then show ?thesis by (simp add: wp_return fin log_from_Cons log_from_refl log)
    next
      case (Inr f)
      show ?thesis
        unfolding Inr sum.case wp_bind logging_sel
      proof (rule wp_logI, goal_cases)
        case (1 ctxErr w)
        show ?case
        proof (cases ctxErr)
          case (Some err)
          then show ?thesis by (simp add: wp_return fin log_from_Cons log_from_refl log)
        next
          case None
          show ?thesis
            unfolding None option.case wp_bind snd_conv
            by (rule wp_gate) (auto simp: wp_bind wp_return fin log_from_Cons log_from_refl log
                intro!: wp_logI apply_result rule)
        qed
      qed
    qed
  qed
qed

lemma apply_refuse_log:
  assumes "every (apply_rule k g r) (calls @ EvCtxErr None # tr)" "\<forall>e\<in>set calls. mapping_call e"
  shows "wp (State_Monad.bind (apply_preCheckFailed k (logging h) (ad_Status d) (ad_Generation d) msg)
      (\<lambda>st. State_Monad.return (Inr st)))
    (apply_settled k g r d (EvCtxErr None # tr)) (w, calls @ EvCtxErr None # tr)"
proof -
  have "apply_log k g r (EvCtxErr None # tr) (calls @ EvCtxErr None # tr)"
    using assms(1) by (simp add: log_from_def suffix_def)
  then show ?thesis
    unfolding apply_preCheckFailed_def wp_bind
    by (intro wp_WithCondition)
      (simp add: wp_return apply_settled_def outcome_refused [OF assms(2)] log_from_Cons)
qed

lemma applyToCluster_log:
  assumes log: "every (apply_rule k (gated h) r) (EvCtxErr None # tr)" and d: "listed_apply r tr d"
  shows "wp (applyToCluster k (logging h) r d) (apply_settled k (gated h) r d (EvCtxErr None # tr))
    (w, EvCtxErr None # tr)"
proof -
  let ?tr = "EvCtxErr None # tr"
  note refuse = apply_refuse_log [of k "gated h" r _ tr h d]
  show ?thesis
  proof (cases "UnmarshalObject k (KubeContent (ad_Spec d))")
    case (Inl err)
    then show ?thesis using refuse [of "[]"] log by (simp add: applyToCluster_def Let_def)
  next
    case (Inr x)
    show ?thesis
    proof (cases "GetAPIVersion x = [] \<or> GetKind x = [] \<or> GetName x = []")
      case True
      then show ?thesis using refuse [of "[]"] log Inr by (simp add: applyToCluster_def Let_def)
    next
      case False
      have later: "wp (apply_object k (logging h) r d x mapping) (apply_settled k (gated h) r d ?tr) (w', tr')"
        if t: "apply_log k (gated h) r ?tr tr'" "checkApplyTarget (ad_Identity d) x mapping = None" for w' tr' mapping
      proof -
        have "listed_apply r tr' d"
          using d t(1) by (auto simp: log_from_def intro: listed_apply_suffix suffix_ConsD)
        then have "wp (apply_object k (logging h) r d x mapping) (apply_settled k (gated h) r d tr') (w', tr')"
          using t Inr by (intro apply_object_log) (simp_all add: log_from_def)
        then show ?thesis
          by (rule wp_mono) (use t(1) log_from_trans in \<open>auto simp: apply_settled_def\<close>)
      qed
      show ?thesis
        unfolding applyToCluster_def Let_def Inr sum.case if_not_P [OF False] wp_bind
        by (rule wp_mono [OF apply_mapping_log [OF log]])
          (auto simp: log_from_def split: sum.split option.split intro!: refuse later)
    qed
  qed
qed

lemma apply_reconcileOne_log:
  assumes "every (apply_rule k (gated h) r) (EvCtxErr None # tr)" "listed_apply r tr d"
  shows "wp (apply_reconcileOne k (logging h) r d)
    (\<lambda>res s. apply_log k (gated h) r (EvCtxErr None # tr) (snd s)) (w, EvCtxErr None # tr)"
  unfolding apply_reconcileOne_def wp_bind
proof (rule wp_mono [OF applyToCluster_log [OF assms]], goal_cases)
  case (1 res s)
  then have log: "apply_log k (gated h) r (EvCtxErr None # tr) (snd s)" by (simp add: apply_settled_def)
  have upd: "apply_rule k (gated h) r (EvUpdateApply (ad_Identity d) st (ad_Version d) u) (snd s)"
    if "res = Inr st" "\<not> EqualStatus k st (ad_Status d)" for st u
  proof -
    have "listed_apply r (snd s) d"
      using assms(2) log by (auto simp: log_from_def intro: listed_apply_suffix suffix_ConsD)
    with 1 that show ?thesis by (auto simp: apply_rules apply_settled_def)
  qed
  show ?case
    using log upd by (cases res) (auto simp: wp_rules intro!: log_from_Cons split: prod.split)
qed

lemma apply_loop_log:
  assumes "every (apply_rule k (gated h) r) tr" "\<forall>d\<in>set ds. listed_apply r tr d"
  shows "wp (apply_loop k (logging h) r ds errs) (\<lambda>res s. every (apply_rule k (gated h) r) (snd s)) (w, tr)"
  using assms
proof (induction ds arbitrary: errs w tr)
  case Nil
  then show ?case by (simp add: wp_return)
next
  case (Cons d ds)
  have next_: "wp (apply_loop k (logging h) r ds errs') (\<lambda>res s. every (apply_rule k (gated h) r) (snd s)) s"
    if "apply_log k (gated h) r (EvCtxErr None # tr) (snd s)" for errs' s
    using Cons.IH [of "snd s" errs' "fst s"] Cons.prems(2) that
    by (auto simp: log_from_def intro: listed_apply_suffix suffix_ConsD)
  have one: "wp (apply_reconcileOne k (logging h) r d) (\<lambda>a. wp (case a of None \<Rightarrow> apply_loop k (logging h) r ds errs
      | Some err \<Rightarrow> if aborts_apply err
          then State_Monad.return (Some (wrap (''apply: reconcile desire '' @ DescribeIdentity (ad_Identity d)) err))
          else apply_loop k (logging h) r ds (errs @ [err]))
      (\<lambda>res s. every (apply_rule k (gated h) r) (snd s))) (w', EvCtxErr None # tr)" for w'
    by (rule wp_mono [OF apply_reconcileOne_log])
      (use Cons.prems next_ in \<open>auto simp: wp_rules log_from_def split: option.split\<close>)
  show ?case
    unfolding apply_loop.simps wp_bind logging_sel
    by (rule wp_logI) (use one Cons.prems in \<open>auto simp: wp_bind wp_return split: option.split\<close>)
qed

lemma apply_RunOnce_log:
  "wp (apply_RunOnce k (logging h) r) (\<lambda>res s. every (apply_rule k (gated h) r) (snd s)) (w, [])"
  unfolding apply_RunOnce_def wp_bind logging_sel
  by (rule wp_logI)
    (auto simp: wp_return listed_apply_def intro!: apply_loop_log split: sum.split)

end
