(* ===== verification/DeleteReconciler.thy ===== *)
theory DeleteReconciler
  imports Reconciler
begin

text \<open>
  Package \<open>internal/controllers/deletedesire\<close>: one pass of the delete controller, in the order of
  \<open>controller.go\<close> and \<open>status.go\<close>, and the rules its calls keep on every host.
\<close>

section \<open>Status\<close>

definition deleted :: "kube_lib \<Rightarrow> 'w host \<Rightarrow> Status \<Rightarrow> int64 \<Rightarrow> ('w, Status) state" where
  "deleted k h status generation =
     WithCondition k h status (SuccessfulCondition ConditionTrue generation ReasonDeleted [])"

definition waitingForDeletion :: "kube_lib \<Rightarrow> 'w host \<Rightarrow> Status \<Rightarrow> int64 \<Rightarrow> string \<Rightarrow> ('w, Status) state" where
  "waitingForDeletion k h status generation msg =
     WithCondition k h status (SuccessfulCondition ConditionFalse generation ReasonWaitingForDeletion msg)"

definition deleteFailed :: "kube_lib \<Rightarrow> 'w host \<Rightarrow> Status \<Rightarrow> int64 \<Rightarrow> goerror \<Rightarrow> ('w, Status) state" where
  "deleteFailed k h status generation err =
     WithCondition k h status (SuccessfulCondition ConditionFalse generation ReasonKubeAPIError (error_text err))"

definition delete_preCheckFailed :: "kube_lib \<Rightarrow> 'w host \<Rightarrow> Status \<Rightarrow> int64 \<Rightarrow> string \<Rightarrow> ('w, Status) state" where
  "delete_preCheckFailed k h status generation msg =
     WithCondition k h status (SuccessfulCondition ConditionFalse generation ReasonPreCheckFailed msg)"

section \<open>Deleting one object\<close>

definition deleteTimeout :: duration where "deleteTimeout = 30 * Second"

record DeleteReconciler =
  dr_managementCluster :: string
  dr_timeout :: duration

definition delete_New :: "string \<Rightarrow> DeleteReconciler" where
  "delete_New mc = \<lparr>dr_managementCluster = mc, dr_timeout = deleteTimeout\<rparr>"

text \<open>The lookup of the kind, repeated once after a reset when nothing matches.\<close>

definition kind_for :: "kube_lib \<Rightarrow> 'w host \<Rightarrow> GroupVersionResource \<Rightarrow> ('w, GroupVersionKind result) state" where
  "kind_for k h gvr = do {
     first \<leftarrow> mapper_KindFor h gvr;
     (case first of
        Inl err \<Rightarrow>
          if IsNoMatchError k err then do {
            _ \<leftarrow> reset_mapper h;
            mapper_KindFor h gvr
          } else State_Monad.return (Inl err)
      | Inr gvk \<Rightarrow> State_Monad.return (Inr gvk))
   }"

definition setupResourceClient ::
  "kube_lib \<Rightarrow> 'w host \<Rightarrow> Identity \<Rightarrow> ('w, ResourceInterface result) state" where
  "setupResourceClient k h i = do {
     kind \<leftarrow> kind_for k h \<lparr>gvr_Group = Group i, gvr_Version = [], gvr_Resource = Resource i\<rparr>;
     (case kind of
        Inl err \<Rightarrow> State_Monad.return (Inl err)
      | Inr gvk \<Rightarrow> do {
          m \<leftarrow> mapper_RESTMapping h gvk;
          State_Monad.return
            (case m of
               Inl err \<Rightarrow> Inl (wrap ''failed to resolve REST mapping'' err)
             | Inr mapping \<Rightarrow>
                 if rm_Namespaced mapping then
                   (if Namespace i = [] then
                      Inl (ErrorString (''delete: identity namespace must not be empty for namespaced resource '' @
                        quote (Name i)))
                    else Inr \<lparr>ri_Resource = rm_Resource mapping, ri_Namespace = Some (Namespace i)\<rparr>)
                 else Inr \<lparr>ri_Resource = rm_Resource mapping, ri_Namespace = None\<rparr>)
        })
   }"

text \<open>\<open>getResourceIfExist\<close>: the object, or \<^term>\<open>None\<close> when it does not exist.\<close>

definition getResourceIfExist ::
  "kube_lib \<Rightarrow> 'w host \<Rightarrow> DeleteReconciler \<Rightarrow> ResourceInterface \<Rightarrow> string \<Rightarrow> ('w, Unstructured option result) state" where
  "getResourceIfExist k h r client nm = do {
     got \<leftarrow> dyn_Get h (dr_timeout r) client nm;
     State_Monad.return
       (case got of
          Inl err \<Rightarrow> if IsNotFoundError k err then Inr None else Inl err
        | Inr x \<Rightarrow> Inr (Some x))
   }"

definition deletion_message :: "kube_lib \<Rightarrow> timestamp \<Rightarrow> Unstructured \<Rightarrow> string" where
  "deletion_message k ts x = ''deletion timestamp: '' @ FormatRFC3339 k ts @ '', uid: '' @ GetUID x"

definition as_status :: "('w, Status) state \<Rightarrow> ('w, Status result) state" where
  "as_status m = do { st \<leftarrow> m; State_Monad.return (Inr st) }"

text \<open>The final GET, after a DELETE that was accepted.\<close>

definition confirm_deletion ::
  "kube_lib \<Rightarrow> 'w host \<Rightarrow> DeleteReconciler \<Rightarrow> ResourceInterface \<Rightarrow> DeleteDesire \<Rightarrow> ('w, Status result) state" where
  "confirm_deletion k h r client d =
     (let i = dd_Identity d in
      do {
        got \<leftarrow> getResourceIfExist k h r client (Name i);
        (case got of
           Inl err \<Rightarrow> do {
             ctxErr \<leftarrow> ctx_Err h;
             (case ctxErr of
                Some cerr \<Rightarrow> State_Monad.return (Inl (wrap (''delete '' @ DescribeIdentity i) cerr))
              | None \<Rightarrow> as_status (deleteFailed k h (dd_Status d) (dd_Generation d)
                  (wrap ''failed to confirm deletion'' err)))
           }
         | Inr None \<Rightarrow> as_status (deleted k h (dd_Status d) (dd_Generation d))
         | Inr (Some x) \<Rightarrow>
             (case GetDeletionTimestamp x of
                None \<Rightarrow> as_status (deleteFailed k h (dd_Status d) (dd_Generation d)
                  (ErrorString ''delete accepted but object has no deletion timestamp''))
              | Some ts \<Rightarrow> as_status (waitingForDeletion k h (dd_Status d) (dd_Generation d)
                  (deletion_message k ts x))))
      })"

text \<open>The gated DELETE of an object that exists and is not being deleted yet.\<close>

definition issue_delete ::
  "kube_lib \<Rightarrow> 'w host \<Rightarrow> DeleteReconciler \<Rightarrow> ResourceInterface \<Rightarrow> DeleteDesire \<Rightarrow> ('w, Status result) state" where
  "issue_delete k h r client d =
     (let i = dd_Identity d in
      do {
        ctxErr \<leftarrow> ctx_Err h;
        (case ctxErr of
           Some err \<Rightarrow> State_Monad.return (Inl err)
         | None \<Rightarrow> do {
             gateErr \<leftarrow> CanWrite h;
             (case gateErr of
                Some err \<Rightarrow> State_Monad.return (Inl (wrap (''delete '' @ DescribeIdentity i) err))
              | None \<Rightarrow> do {
                  deleteCtx \<leftarrow> WriteContext h (dr_timeout r);
                  res \<leftarrow> dyn_Delete h deleteCtx client (Name i);
                  (case res of
                     Some err \<Rightarrow>
                       if IsNotFoundError k err then as_status (deleted k h (dd_Status d) (dd_Generation d))
                       else do {
                         ctxErr \<leftarrow> ctx_Err h;
                         (case ctxErr of
                            Some cerr \<Rightarrow> State_Monad.return (Inl (wrap (''delete '' @ DescribeIdentity i) cerr))
                          | None \<Rightarrow> do {
                              gateErr \<leftarrow> CanWrite h;
                              (case gateErr of
                                 Some gerr \<Rightarrow> State_Monad.return (Inl (wrap (''delete '' @ DescribeIdentity i) gerr))
                               | None \<Rightarrow> as_status (deleteFailed k h (dd_Status d) (dd_Generation d) err))
                            })
                       }
                   | None \<Rightarrow> confirm_deletion k h r client d)
                })
           })
      })"

definition executeDelete ::
  "kube_lib \<Rightarrow> 'w host \<Rightarrow> DeleteReconciler \<Rightarrow> ResourceInterface \<Rightarrow> DeleteDesire \<Rightarrow> ('w, Status result) state" where
  "executeDelete k h r client d =
     (let i = dd_Identity d in
      do {
        got \<leftarrow> getResourceIfExist k h r client (Name i);
        (case got of
           Inl err \<Rightarrow> do {
             ctxErr \<leftarrow> ctx_Err h;
             (case ctxErr of
                Some cerr \<Rightarrow> State_Monad.return (Inl (wrap (''delete '' @ DescribeIdentity i) cerr))
              | None \<Rightarrow> as_status (deleteFailed k h (dd_Status d) (dd_Generation d)
                  (wrap ''failed to check existence'' err)))
           }
         | Inr None \<Rightarrow> as_status (deleted k h (dd_Status d) (dd_Generation d))
         | Inr (Some x) \<Rightarrow>
             (case GetDeletionTimestamp x of
                Some ts \<Rightarrow> as_status (waitingForDeletion k h (dd_Status d) (dd_Generation d)
                  (deletion_message k ts x))
              | None \<Rightarrow> issue_delete k h r client d))
      })"

section \<open>Reconciling one desire\<close>

text \<open>
  The status to write, with the status and the version it is compared with and written against: those
  of the listed desire, or of the re-checked one when that is completed already.
\<close>

definition delete_newStatus ::
  "kube_lib \<Rightarrow> 'w host \<Rightarrow> DeleteReconciler \<Rightarrow> DeleteDesire \<Rightarrow> ('w, (Status \<times> Status \<times> int64) result) state" where
  "delete_newStatus k h r d = do {
     setup \<leftarrow> setupResourceClient k h (dd_Identity d);
     (case setup of
        Inl err \<Rightarrow> do {
          st \<leftarrow> delete_preCheckFailed k h (dd_Status d) (dd_Generation d) (error_text err);
          State_Monad.return (Inr (st, dd_Status d, dd_Version d))
        }
      | Inr client \<Rightarrow> do {
          again \<leftarrow> spec_GetDeleteDesire h (dd_Identity d);
          (case again of
             Inl err \<Rightarrow> State_Monad.return (Inl
               (wrap (''delete: re-check desire '' @ DescribeIdentity (dd_Identity d)) err))
           | Inr dd \<Rightarrow>
               if IsDeleted (FindCond k) (dd_Status dd) then do {
                 st \<leftarrow> deleted k h (dd_Status dd) (dd_Generation dd);
                 State_Monad.return (Inr (st, dd_Status dd, dd_Version dd))
               } else do {
                 res \<leftarrow> executeDelete k h r client d;
                 State_Monad.return
                   (case res of Inl err \<Rightarrow> Inl err | Inr st \<Rightarrow> Inr (st, dd_Status d, dd_Version d))
               })
        })
   }"

definition delete_reconcileOne ::
  "kube_lib \<Rightarrow> 'w host \<Rightarrow> DeleteReconciler \<Rightarrow> DeleteDesire \<Rightarrow> ('w, goerror option) state" where
  "delete_reconcileOne k h r d = do {
     res \<leftarrow> delete_newStatus k h r d;
     (case res of
        Inl err \<Rightarrow> State_Monad.return (Some err)
      | Inr (newStatus, baseStatus, version) \<Rightarrow>
          if EqualStatus k newStatus baseStatus then State_Monad.return None
          else do {
            upd \<leftarrow> status_UpdateDeleteDesireStatus h (dd_Identity d) newStatus version;
            (case upd of
               Inr _ \<Rightarrow> State_Monad.return None
             | Inl err \<Rightarrow>
                 if errors_Is err ErrVersionConflict then State_Monad.return None
                 else do {
                   ctxErr \<leftarrow> ctx_Err h;
                   (case ctxErr of
                      Some _ \<Rightarrow> ctx_Err h
                    | None \<Rightarrow> State_Monad.return (Some
                        (wrap (''delete: write status for '' @ DescribeIdentity (dd_Identity d)) err)))
                 })
          })
   }"

section \<open>One pass\<close>

primrec delete_loop ::
  "kube_lib \<Rightarrow> 'w host \<Rightarrow> DeleteReconciler \<Rightarrow> DeleteDesire list \<Rightarrow> goerror list \<Rightarrow> ('w, goerror option) state" where
  "delete_loop k h r [] errs = State_Monad.return (errors_Join errs)"
| "delete_loop k h r (d # ds) errs = do {
     ctxErr \<leftarrow> ctx_Err h;
     (case ctxErr of
        Some err \<Rightarrow> State_Monad.return (Some (wrap (''delete: reconcile aborted for partition '' @
          quote (dr_managementCluster r)) err))
      | None \<Rightarrow> do {
          res \<leftarrow> delete_reconcileOne k h r d;
          (case res of
             None \<Rightarrow> delete_loop k h r ds errs
           | Some err \<Rightarrow> do {
               ctxErr \<leftarrow> ctx_Err h;
               (case ctxErr of
                  Some _ \<Rightarrow> State_Monad.return (Some err)
                | None \<Rightarrow> delete_loop k h r ds (errs @ [err]))
             })
        })
   }"

definition delete_RunOnce :: "kube_lib \<Rightarrow> 'w host \<Rightarrow> DeleteReconciler \<Rightarrow> ('w, goerror option) state" where
  "delete_RunOnce k h r = do {
     listed \<leftarrow> spec_ListDeleteDesires h (dr_managementCluster r);
     (case listed of
        Inl err \<Rightarrow> State_Monad.return (Some (wrap (''delete: list desires for partition '' @
          quote (dr_managementCluster r)) err))
      | Inr desires \<Rightarrow> delete_loop k h r desires [])
   }"

section \<open>The rules the calls of a pass keep\<close>

text \<open>The last call found the object of the desire missing.\<close>

definition confirmed_absent :: "kube_lib \<Rightarrow> Identity \<Rightarrow> event list \<Rightarrow> bool" where
  "confirmed_absent k i tr \<longleftrightarrow>
     (\<exists>t ri err rest. IsNotFoundError k err \<and>
        (tr = EvGet t ri (Name i) (Inl err) # rest \<or> tr = EvDelete t ri (Name i) (Some err) # rest))"

definition found_terminating :: "Identity \<Rightarrow> event list \<Rightarrow> bool" where
  "found_terminating i tr \<longleftrightarrow>
     (\<exists>t ri x rest. tr = EvGet t ri (Name i) (Inr x) # rest \<and> GetDeletionTimestamp x \<noteq> None)"

text \<open>
  What the status of a listed desire follows from: a completed record read again is restamped, all
  else is based on the listed desire.
\<close>

definition restamped :: "kube_lib \<Rightarrow> DeleteDesire \<Rightarrow> Status \<Rightarrow> int64 \<Rightarrow> int64 \<Rightarrow> event list \<Rightarrow> bool" where
  "restamped k d base n gen tr \<longleftrightarrow>
     (\<exists>dd rest. tr = EvGetDelete (dd_Identity d) (Inr dd) # rest \<and> IsDeleted (FindCond k) (dd_Status dd) \<and>
        base = dd_Status dd \<and> n = dd_Version dd \<and> gen = dd_Generation dd)"

definition delete_finding :: "kube_lib \<Rightarrow> DeleteDesire \<Rightarrow> string \<Rightarrow> string \<Rightarrow> event list \<Rightarrow> bool" where
  "delete_finding k d status reason tr \<longleftrightarrow>
     (status = ConditionTrue \<and> reason = ReasonDeleted \<and> confirmed_absent k (dd_Identity d) tr) \<or>
     (status = ConditionFalse \<and> reason = ReasonWaitingForDeletion \<and> found_terminating (dd_Identity d) tr) \<or>
     (status = ConditionFalse \<and> reason = ReasonKubeAPIError) \<or>
     (status = ConditionFalse \<and> reason = ReasonPreCheckFailed \<and>
        (\<exists>calls rest. tr = calls @ EvCtxErr None # rest \<and> (\<forall>e\<in>set calls. mapping_call e)))"

definition delete_outcome :: "kube_lib \<Rightarrow> DeleteDesire \<Rightarrow> Status \<Rightarrow> Status \<Rightarrow> int64 \<Rightarrow> event list \<Rightarrow> bool" where
  "delete_outcome k d st base n tr \<longleftrightarrow>
     (\<exists>now older status reason msg gen. tr = EvNow now # older \<and>
        st = \<lparr>Conditions = SetCond k now (Conditions base) (SuccessfulCondition status gen reason msg)\<rparr> \<and>
        ((status = ConditionTrue \<and> reason = ReasonDeleted \<and> restamped k d base n gen older) \<or>
         (base = dd_Status d \<and> n = dd_Version d \<and> gen = dd_Generation d \<and> delete_finding k d status reason older)))"

definition listed_delete :: "DeleteReconciler \<Rightarrow> event list \<Rightarrow> DeleteDesire \<Rightarrow> bool" where
  "listed_delete r tr d \<longleftrightarrow> (\<exists>ds. EvListDelete (dr_managementCluster r) (Inr ds) \<in> set tr \<and> d \<in> set ds)"

text \<open>
  The client of a desire is what the mapper made of the group and resource of its identity, in the
  namespace of the identity when the mapper says the resource has one.
\<close>

definition resolved :: "Identity \<Rightarrow> ResourceInterface \<Rightarrow> event list \<Rightarrow> bool" where
  "resolved i ri tr \<longleftrightarrow>
     (\<exists>gvk mapping rest. tr = EvMapping gvk (Inr mapping) #
          EvKindFor \<lparr>gvr_Group = Group i, gvr_Version = [], gvr_Resource = Resource i\<rparr> (Inr gvk) # rest \<and>
        ri_Resource ri = rm_Resource mapping \<and>
        (if rm_Namespaced mapping then Namespace i \<noteq> [] \<and> ri_Namespace ri = Some (Namespace i)
         else ri_Namespace ri = None))"

definition delete_write_rule :: "kube_lib \<Rightarrow> bool \<Rightarrow> DeleteReconciler \<Rightarrow> event \<Rightarrow> event list \<Rightarrow> bool" where
  "delete_write_rule k g r e tr =
     (case e of
        EvDelete t ri n res \<Rightarrow>
          (\<exists>d dd x rest. listed_delete r tr d \<and> n = Name (dd_Identity d) \<and> resolved (dd_Identity d) ri rest \<and>
             \<not> IsDeleted (FindCond k) (dd_Status dd) \<and> GetDeletionTimestamp x = None \<and>
             gate_passed g (dr_timeout r) t tr (EvCtxErr None # EvGet (dr_timeout r) ri n (Inr x) #
               EvGetDelete (dd_Identity d) (Inr dd) # rest))
      | EvApply t ri n x opts res \<Rightarrow> False
      | _ \<Rightarrow> True)"

definition delete_status_rule :: "kube_lib \<Rightarrow> DeleteReconciler \<Rightarrow> event \<Rightarrow> event list \<Rightarrow> bool" where
  "delete_status_rule k r e tr =
     (case e of
        EvUpdateDelete i st n res \<Rightarrow>
          (\<exists>d base. listed_delete r tr d \<and> i = dd_Identity d \<and> delete_outcome k d st base n tr \<and>
             \<not> EqualStatus k st base)
      | EvUpdateApply i st n res \<Rightarrow> False
      | _ \<Rightarrow> True)"

definition delete_rule :: "kube_lib \<Rightarrow> bool \<Rightarrow> DeleteReconciler \<Rightarrow> event \<Rightarrow> event list \<Rightarrow> bool" where
  "delete_rule k g r e tr \<longleftrightarrow> delete_write_rule k g r e tr \<and> delete_status_rule k r e tr"

lemmas delete_rules = delete_rule_def delete_write_rule_def delete_status_rule_def

abbreviation delete_log :: "kube_lib \<Rightarrow> bool \<Rightarrow> DeleteReconciler \<Rightarrow> event list \<Rightarrow> event list \<Rightarrow> bool" where
  "delete_log k g r \<equiv> log_from (delete_rule k g r)"

lemma listed_delete_suffix: "listed_delete r tr d \<Longrightarrow> suffix tr tr' \<Longrightarrow> listed_delete r tr' d"
  by (auto simp: listed_delete_def dest: set_mono_suffix)

lemma delete_rule_free [simp]: "free_call e \<Longrightarrow> delete_rule k g r e tr"
  by (simp add: delete_rules free_call_def split: event.splits)

lemma delete_log_free: "delete_log k g r tr tr' \<Longrightarrow> free_call e \<Longrightarrow> delete_log k g r tr (e # tr')"
  by (simp add: log_from_Cons)

section \<open>A pass keeps the rules\<close>

text \<open>What a step that yields a status from the listed desire leaves behind.\<close>

definition delete_settled ::
  "kube_lib \<Rightarrow> bool \<Rightarrow> DeleteReconciler \<Rightarrow> DeleteDesire \<Rightarrow> event list \<Rightarrow> Status result \<Rightarrow> 'w logged \<Rightarrow> bool" where
  "delete_settled k g r d tr res s \<longleftrightarrow>
     delete_log k g r tr (snd s) \<and>
     (\<forall>st. res = Inr st \<longrightarrow> delete_outcome k d st (dd_Status d) (dd_Version d) (snd s))"

lemma settled_Inl: "delete_log k g r tr (snd s) \<Longrightarrow> delete_settled k g r d tr (Inl err) s"
  by (simp add: delete_settled_def)

lemma settle:
  assumes "delete_log k g r tr0 tr" "delete_finding k d status reason tr"
  shows "wp (as_status (WithCondition k (logging h) (dd_Status d) (SuccessfulCondition status (dd_Generation d) reason msg)))
    (delete_settled k g r d tr0) (w, tr)"
proof -
  have "delete_outcome k d \<lparr>Conditions = SetCond k now (Conditions (dd_Status d))
      (SuccessfulCondition status (dd_Generation d) reason msg)\<rparr> (dd_Status d) (dd_Version d) (EvNow now # tr)" for now
    unfolding delete_outcome_def
    by ((rule exI)+, (rule conjI, rule refl)+, rule disjI2, (rule conjI, rule refl)+, rule assms(2))
  then show ?thesis
    unfolding as_status_def wp_bind
    by (intro wp_WithCondition) (simp add: wp_return delete_settled_def delete_log_free assms(1))
qed

lemma settle_failed:
  "delete_log k g r tr0 tr \<Longrightarrow>
   wp (as_status (deleteFailed k (logging h) (dd_Status d) (dd_Generation d) err)) (delete_settled k g r d tr0) (w, tr)"
  unfolding deleteFailed_def by (rule settle) (simp_all add: delete_finding_def)

lemma settle_deleted:
  "delete_log k g r tr0 tr \<Longrightarrow> confirmed_absent k (dd_Identity d) tr \<Longrightarrow>
   wp (as_status (deleted k (logging h) (dd_Status d) (dd_Generation d))) (delete_settled k g r d tr0) (w, tr)"
  unfolding deleted_def by (rule settle) (simp_all add: delete_finding_def)

lemma settle_waiting:
  "delete_log k g r tr0 tr \<Longrightarrow> found_terminating (dd_Identity d) tr \<Longrightarrow>
   wp (as_status (waitingForDeletion k (logging h) (dd_Status d) (dd_Generation d) msg)) (delete_settled k g r d tr0) (w, tr)"
  unfolding waitingForDeletion_def by (rule settle) (simp_all add: delete_finding_def)

lemmas settle_rules = settle_failed settle_deleted settle_waiting

text \<open>A failed call is control flow when the context has ended, and a failure of the desire otherwise.\<close>

lemma ctx_or_failed:
  assumes "delete_log k g r tr0 tr"
  shows "wp (State_Monad.bind (log_call EvCtxErr (ctx_Err h)) (\<lambda>ctxErr. case ctxErr of
       None \<Rightarrow> as_status (deleteFailed k (logging h) (dd_Status d) (dd_Generation d) err)
     | Some cerr \<Rightarrow> State_Monad.return (Inl (Wrapf p cerr q)))) (delete_settled k g r d tr0) (w, tr)"
  unfolding wp_bind
  by (rule wp_logI) (use assms in \<open>auto simp: wp_return settled_Inl delete_log_free split: option.split intro!: settle_failed\<close>)

lemma confirm_deletion_log:
  assumes log: "delete_log k g r tr0 tr"
  shows "wp (confirm_deletion k (logging h) r client d) (delete_settled k g r d tr0) (w, tr)"
  unfolding confirm_deletion_def getResourceIfExist_def Let_def wp_bind logging_sel
proof (rule wp_logI, goal_cases)
  case (1 got w)
  show ?case
  proof (cases got)
    case (Inl err)
    then show ?thesis using log
      by (simp add: wp_return ctx_or_failed delete_log_free)
        (auto simp: confirmed_absent_def delete_log_free intro!: settle_deleted)
  next
    case (Inr x)
    then show ?thesis using log
      by (auto simp: wp_return found_terminating_def delete_log_free intro!: settle_rules split: option.split)
  qed
qed

text \<open>The DELETE itself, for an object that was read after the desire was re-checked.\<close>

lemma delete_result:
  assumes log: "delete_log k g r tr0 (EvDelete t client (Name (dd_Identity d)) res # tr)"
  shows "wp (case res of
       None \<Rightarrow> confirm_deletion k (logging h) r client d
     | Some err \<Rightarrow>
         if IsNotFoundError k err then as_status (deleted k (logging h) (dd_Status d) (dd_Generation d))
         else State_Monad.bind (log_call EvCtxErr (ctx_Err h)) (\<lambda>ctxErr. case ctxErr of
             None \<Rightarrow> State_Monad.bind (CanWrite (logging h)) (\<lambda>gateErr. case gateErr of
                 None \<Rightarrow> as_status (deleteFailed k (logging h) (dd_Status d) (dd_Generation d) err)
               | Some gerr \<Rightarrow> State_Monad.return (Inl (Wrapf p gerr [])))
           | Some cerr \<Rightarrow> State_Monad.return (Inl (Wrapf p cerr []))))
     (delete_settled k g r d tr0) (w, EvDelete t client (Name (dd_Identity d)) res # tr)"
proof (cases res)
  case None
  then show ?thesis using log by (simp add: confirm_deletion_log)
next
  case (Some err)
  have gates: "wp (CanWrite (logging h)) (\<lambda>gateErr. wp (case gateErr of
        None \<Rightarrow> as_status (deleteFailed k (logging h) (dd_Status d) (dd_Generation d) err)
      | Some gerr \<Rightarrow> State_Monad.return (Inl (Wrapf p gerr []))) (delete_settled k g r d tr0)) (w', tr')"
    if "delete_log k g r tr0 tr'" for w' tr'
    using that by (auto simp: CanWrite_def wp_return settled_Inl delete_log_free
        split: option.split intro!: wp_logI settle_failed)
  have absent: "IsNotFoundError k err \<Longrightarrow> confirmed_absent k (dd_Identity d)
      (EvDelete t client (Name (dd_Identity d)) (Some err) # tr)"
    unfolding confirmed_absent_def by blast
  show ?thesis
    using log absent unfolding Some
    by (auto simp: wp_bind wp_return settled_Inl delete_log_free split: option.split intro!: wp_logI gates settle_deleted)
qed

lemma issue_delete_log:
  assumes log: "delete_log k (gated h) r tr0 (EvGet (dr_timeout r) client (Name (dd_Identity d)) (Inr x) #
      EvGetDelete (dd_Identity d) (Inr dd) # rest)"
    and d: "listed_delete r tr0 d" "resolved (dd_Identity d) client rest"
    and dd: "\<not> IsDeleted (FindCond k) (dd_Status dd)" "GetDeletionTimestamp x = None"
  shows "wp (issue_delete k (logging h) r client d) (delete_settled k (gated h) r d tr0)
    (w, EvGet (dr_timeout r) client (Name (dd_Identity d)) (Inr x) # EvGetDelete (dd_Identity d) (Inr dd) # rest)"
proof -
  let ?g = "gated h" and ?i = "dd_Identity d"
  let ?tr = "EvGet (dr_timeout r) client (Name ?i) (Inr x) # EvGetDelete ?i (Inr dd) # rest"
  have rule: "delete_log k ?g r tr0 (EvDelete t client (Name ?i) res # tr')"
    if gate: "gate_passed ?g (dr_timeout r) t tr' (EvCtxErr None # ?tr)" for t tr' res
  proof -
    have l: "delete_log k ?g r tr0 tr'"
      by (rule gate_passed_log [OF gate]) (simp_all add: delete_log_free log)
    then have "listed_delete r tr' d" using d(1) listed_delete_suffix by (auto simp: log_from_def)
    with d(2) dd gate have "delete_rule k ?g r (EvDelete t client (Name ?i) res) tr'"
      unfolding delete_rules event.case by blast
    with l show ?thesis by (rule log_from_Cons)
  qed
  show ?thesis
    unfolding issue_delete_def Let_def wp_bind logging_sel
  proof (rule wp_logI, goal_cases)
    case (1 ctxErr w)
    show ?case
    proof (cases ctxErr)
      case (Some err)
      then show ?thesis using log by (simp add: wp_return settled_Inl delete_log_free)
    next
      case None
      show ?thesis
        unfolding None option.case wp_bind snd_conv
        by (rule wp_gate) (auto simp: wp_bind wp_return settled_Inl delete_log_free log
            intro!: wp_logI delete_result rule)
    qed
  qed
qed

lemma executeDelete_log:
  assumes log: "delete_log k (gated h) r tr0 (EvGetDelete (dd_Identity d) (Inr dd) # rest)"
    and d: "listed_delete r tr0 d" "resolved (dd_Identity d) client rest"
    and dd: "\<not> IsDeleted (FindCond k) (dd_Status dd)"
  shows "wp (executeDelete k (logging h) r client d) (delete_settled k (gated h) r d tr0)
    (w, EvGetDelete (dd_Identity d) (Inr dd) # rest)"
  unfolding executeDelete_def getResourceIfExist_def Let_def wp_bind logging_sel
proof (rule wp_logI, goal_cases)
  case (1 got w)
  show ?case
  proof (cases got)
    case (Inl err)
    then show ?thesis using log
      by (simp add: wp_return ctx_or_failed delete_log_free)
        (auto simp: confirmed_absent_def delete_log_free intro!: settle_deleted)
  next
    case (Inr x)
    show ?thesis
    proof (cases "GetDeletionTimestamp x")
      case None
      then show ?thesis
        using Inr issue_delete_log [of k h r tr0 client d x dd rest w] assms by (simp add: wp_return delete_log_free)
    next
      case (Some ts)
      then show ?thesis using Inr log
        by (auto simp: wp_return found_terminating_def delete_log_free intro!: settle_waiting)
    qed
  qed
qed

section \<open>One desire\<close>

definition delete_ready ::
  "kube_lib \<Rightarrow> bool \<Rightarrow> DeleteReconciler \<Rightarrow> DeleteDesire \<Rightarrow> event list \<Rightarrow> (Status \<times> Status \<times> int64) result \<Rightarrow> 'w logged \<Rightarrow> bool" where
  "delete_ready k g r d tr res s \<longleftrightarrow>
     delete_log k g r tr (snd s) \<and>
     (\<forall>st base n. res = Inr (st, base, n) \<longrightarrow> delete_outcome k d st base n (snd s))"

lemma resolvedI:
  "rm_Namespaced mapping \<Longrightarrow> Namespace i \<noteq> [] \<Longrightarrow>
     resolved i \<lparr>ri_Resource = rm_Resource mapping, ri_Namespace = Some (Namespace i)\<rparr> (EvMapping gvk (Inr mapping) #
       EvKindFor \<lparr>gvr_Group = Group i, gvr_Version = [], gvr_Resource = Resource i\<rparr> (Inr gvk) # rest)"
  "\<not> rm_Namespaced mapping \<Longrightarrow>
     resolved i \<lparr>ri_Resource = rm_Resource mapping, ri_Namespace = None\<rparr> (EvMapping gvk (Inr mapping) #
       EvKindFor \<lparr>gvr_Group = Group i, gvr_Version = [], gvr_Resource = Resource i\<rparr> (Inr gvk) # rest)"
  unfolding resolved_def by auto

lemma setupResourceClient_log:
  assumes "every (delete_rule k g r) tr"
  shows "wp (setupResourceClient k (logging h) i) (\<lambda>res s. \<exists>calls. snd s = calls @ tr \<and>
    (\<forall>e\<in>set calls. mapping_call e) \<and> delete_log k g r tr (snd s) \<and>
    (\<forall>client. res = Inr client \<longrightarrow> resolved i client (snd s))) (w, tr)"
proof -
  let ?gvr = "\<lparr>gvr_Group = Group i, gvr_Version = [], gvr_Resource = Resource i\<rparr>"
  have log: "delete_log k g r tr (calls @ tr)" if "\<forall>e\<in>set calls. mapping_call e" for calls
    using that assms by (induction calls) (auto intro!: log_from_refl log_from_Cons simp: mapping_call_free)
  have kind: "wp (kind_for k (logging h) ?gvr) (\<lambda>res s. \<exists>calls. snd s = calls @ tr \<and>
      (\<forall>e\<in>set calls. mapping_call e) \<and> (\<forall>gvk. res = Inr gvk \<longrightarrow> (\<exists>rest. calls = EvKindFor ?gvr (Inr gvk) # rest))) (w, tr)"
    unfolding kind_for_def wp_bind logging_sel reset_mapper_def
    by (rule wp_logI, simp split: sum.split option.split add: wp_rules, intro allI impI conjI)
      (auto intro!: wp_logI simp: wp_rules mapping_call_def)
  show ?thesis
    unfolding setupResourceClient_def wp_bind logging_sel
  proof (rule wp_mono [OF kind], elim exE conjE, goal_cases)
    case (1 res s calls)
    show ?case
    proof (cases res)
      case (Inl err)
      then show ?thesis using 1 log by (auto simp: wp_return)
    next
      case (Inr gvk)
      then obtain rest where calls: "calls = EvKindFor ?gvr (Inr gvk) # rest" using 1 by blast
      have fin: "\<exists>calls. EvMapping gvk m # snd s = calls @ tr \<and> (\<forall>e\<in>set calls. mapping_call e) \<and>
          delete_log k g r tr (EvMapping gvk m # snd s)" for m
        using 1 log [of "EvMapping gvk m # calls"] by (intro exI [of _ "EvMapping gvk m # calls"]) (auto simp: mapping_call_def)
      show ?thesis
        unfolding Inr sum.case wp_bind logging_sel
      proof (rule wp_logI, goal_cases)
        case (1 m w)
        show ?case
          using fin [of m] \<open>snd s = calls @ tr\<close> calls
          by (cases m) (auto simp: wp_return intro: resolvedI)
      qed
    qed
  qed
qed

lemma delete_newStatus_log:
  assumes log: "every (delete_rule k (gated h) r) (EvCtxErr None # tr)" and d: "listed_delete r tr d"
  shows "wp (delete_newStatus k (logging h) r d) (delete_ready k (gated h) r d (EvCtxErr None # tr))
    (w, EvCtxErr None # tr)"
  unfolding delete_newStatus_def wp_bind
proof (rule wp_mono [OF setupResourceClient_log [OF log]], elim exE conjE, goal_cases)
  case (1 res s calls)
  let ?g = "gated h" and ?tr = "EvCtxErr None # tr"
  have d': "listed_delete r ?tr d" by (rule listed_delete_suffix [OF d]) (simp add: suffix_ConsI)
  show ?case
  proof (cases res)
    case (Inl err)
    have "delete_finding k d ConditionFalse ReasonPreCheckFailed (calls @ ?tr)"
      using 1(2) unfolding delete_finding_def by blast
    then have "wp (as_status (delete_preCheckFailed k (logging h) (dd_Status d) (dd_Generation d) (error_text err)))
        (delete_settled k ?g r d ?tr) (fst s, snd s)"
      using 1(1,3) unfolding delete_preCheckFailed_def by (intro settle) simp_all
    then show ?thesis
      unfolding Inl sum.case wp_bind as_status_def prod.collapse
      by (rule wp_mono) (simp add: wp_return delete_settled_def delete_ready_def)
  next
    case (Inr client)
    have logged: "delete_log k ?g r ?tr (EvGetDelete (dd_Identity d) dd # snd s)" for dd
      using 1(3) by (simp add: delete_log_free)
    have exec: "wp (executeDelete k (logging h) r client d)
        (\<lambda>a. delete_ready k ?g r d ?tr (case a of Inl err \<Rightarrow> Inl err | Inr st \<Rightarrow> Inr (st, dd_Status d, dd_Version d)))
        (w, EvGetDelete (dd_Identity d) (Inr dd) # snd s)"
      if "\<not> IsDeleted (FindCond k) (dd_Status dd)" for w dd
      by (rule wp_mono [OF executeDelete_log [OF logged d' _ that]])
        (use 1(4) Inr in \<open>auto simp: delete_settled_def delete_ready_def split: sum.splits\<close>)
    have restamp: "delete_outcome k d \<lparr>Conditions = SetCond k now (Conditions (dd_Status dd))
        (SuccessfulCondition ConditionTrue (dd_Generation dd) ReasonDeleted [])\<rparr> (dd_Status dd) (dd_Version dd)
        (EvNow now # EvGetDelete (dd_Identity d) (Inr dd) # snd s)"
      if "IsDeleted (FindCond k) (dd_Status dd)" for now dd
      unfolding delete_outcome_def
      by ((rule exI)+, (rule conjI, rule refl)+, rule disjI1, (rule conjI, rule refl)+)
        (use that in \<open>auto simp: restamped_def\<close>)
    show ?thesis
      unfolding Inr sum.case wp_bind logging_sel
    proof (rule wp_logI, goal_cases)
      case (1 again w)
      have "wp (deleted k (logging h) (dd_Status dd) (dd_Generation dd)) (\<lambda>st. delete_ready k ?g r d ?tr
          (Inr (st, dd_Status dd, dd_Version dd))) (w, EvGetDelete (dd_Identity d) (Inr dd) # snd s)"
        if "IsDeleted (FindCond k) (dd_Status dd)" for dd
        unfolding deleted_def
        by (rule wp_WithCondition) (simp add: delete_ready_def delete_log_free logged restamp [OF that])
      moreover have "delete_ready k ?g r d ?tr (Inl err) (w, EvGetDelete (dd_Identity d) again # snd s)" for err
        using logged by (simp add: delete_ready_def)
      ultimately show ?case
        using exec by (cases again) (auto simp: wp_bind wp_return wp_return_eta)
    qed
  qed
qed

lemma delete_reconcileOne_log:
  assumes "every (delete_rule k (gated h) r) (EvCtxErr None # tr)" "listed_delete r tr d"
  shows "wp (delete_reconcileOne k (logging h) r d)
    (\<lambda>res s. delete_log k (gated h) r (EvCtxErr None # tr) (snd s)) (w, EvCtxErr None # tr)"
  unfolding delete_reconcileOne_def wp_bind
proof (rule wp_mono [OF delete_newStatus_log [OF assms]], goal_cases)
  case (1 res s)
  then have log: "delete_log k (gated h) r (EvCtxErr None # tr) (snd s)" by (simp add: delete_ready_def)
  have upd: "delete_rule k (gated h) r (EvUpdateDelete (dd_Identity d) st n u) (snd s)"
    if "res = Inr (st, base, n)" "\<not> EqualStatus k st base" for st base n u
  proof -
    have "listed_delete r (snd s) d"
      using assms(2) log by (auto simp: log_from_def intro: listed_delete_suffix suffix_ConsD)
    with 1 that show ?thesis by (auto simp: delete_rules delete_ready_def)
  qed
  show ?case
  proof (cases res)
    case (Inr p)
    then show ?thesis
      using log upd by (cases p) (auto simp: wp_rules intro!: log_from_Cons split: prod.split sum.split option.split)
  qed (use log in \<open>simp add: wp_return\<close>)
qed

lemma delete_loop_log:
  assumes "every (delete_rule k (gated h) r) tr" "\<forall>d\<in>set ds. listed_delete r tr d"
  shows "wp (delete_loop k (logging h) r ds errs) (\<lambda>res s. every (delete_rule k (gated h) r) (snd s)) (w, tr)"
  using assms
proof (induction ds arbitrary: errs w tr)
  case Nil
  then show ?case by (simp add: wp_return)
next
  case (Cons d ds)
  let ?Q = "\<lambda>res s. every (delete_rule k (gated h) r) (snd s)"
  have next_: "wp (delete_loop k (logging h) r ds errs') ?Q s"
    if "delete_log k (gated h) r (EvCtxErr None # tr) (snd s)" for errs' s
    using Cons.IH [of "snd s" errs' "fst s"] Cons.prems(2) that
    by (auto simp: log_from_def intro: listed_delete_suffix suffix_ConsD)
  have after: "wp (case a of None \<Rightarrow> delete_loop k (logging h) r ds errs
      | Some err \<Rightarrow> State_Monad.bind (log_call EvCtxErr (ctx_Err h)) (\<lambda>ctxErr. case ctxErr of
            None \<Rightarrow> delete_loop k (logging h) r ds (errs @ [err])
          | Some u \<Rightarrow> State_Monad.return (Some err))) ?Q s"
    if "delete_log k (gated h) r (EvCtxErr None # tr) (snd s)" for a s
    using that next_ log_from_every
    by (cases a) (auto simp: wp_bind wp_return delete_log_free intro!: wp_logI split: option.split)
  have one: "wp (delete_reconcileOne k (logging h) r d) (\<lambda>a. wp (case a of None \<Rightarrow> delete_loop k (logging h) r ds errs
      | Some err \<Rightarrow> State_Monad.bind (log_call EvCtxErr (ctx_Err h)) (\<lambda>ctxErr. case ctxErr of
            None \<Rightarrow> delete_loop k (logging h) r ds (errs @ [err])
          | Some u \<Rightarrow> State_Monad.return (Some err))) ?Q) (w', EvCtxErr None # tr)" for w'
    by (rule wp_mono [OF delete_reconcileOne_log]) (use Cons.prems after in auto)
  show ?case
    unfolding delete_loop.simps wp_bind logging_sel
    by (rule wp_logI) (use one Cons.prems in \<open>auto simp: wp_bind wp_return split: option.split\<close>)
qed

lemma delete_RunOnce_log:
  "wp (delete_RunOnce k (logging h) r) (\<lambda>res s. every (delete_rule k (gated h) r) (snd s)) (w, [])"
  unfolding delete_RunOnce_def wp_bind logging_sel
  by (rule wp_logI)
    (auto simp: wp_return listed_delete_def intro!: delete_loop_log split: sum.split)

end
