(* ===== verification/ControllerStore.thy ===== *)
theory ControllerStore
  imports ApplyReconciler DeleteReconciler MemoryStore
begin

text \<open>
  The controllers on top of a store. What every call keeps, a pass keeps; so a pass over the in-memory
  store changes nothing but statuses and versions. And a pass of the apply controller that reports no
  error has settled every desire it listed: the status in the store is that of the current generation.
\<close>

context kept_relation
begin

lemma keeps_apply: "keeps R (apply_RunOnce k h r)"
proof -
  have "keeps R (apply_reconcileOne k h r d)" for d
    unfolding apply_reconcileOne_def applyToCluster_def apply_object_def apply_mapping_def applied_def
      applyFailed_def apply_preCheckFailed_def Let_def
    by (intro keeps_rules)
  then have "keeps R (apply_loop k h r ds errs)" for ds errs
    by (induction ds arbitrary: errs) (auto intro!: keeps_rules)
  then show ?thesis unfolding apply_RunOnce_def by (intro keeps_rules)
qed

lemma keeps_delete: "keeps R (delete_RunOnce k h r)"
proof -
  have "keeps R (executeDelete k h r client d)" for client d
    unfolding executeDelete_def issue_delete_def confirm_deletion_def getResourceIfExist_def as_status_def deleted_def
      deleteFailed_def waitingForDeletion_def Let_def
    by (intro keeps_rules)
  then have "keeps R (delete_reconcileOne k h r d)" for d
    unfolding delete_reconcileOne_def delete_newStatus_def setupResourceClient_def kind_for_def deleted_def
      delete_preCheckFailed_def
    by (intro keeps_rules)
  then have "keeps R (delete_loop k h r ds errs)" for ds errs
    by (induction ds arbitrary: errs) (auto intro!: keeps_rules)
  then show ?thesis unfolding delete_RunOnce_def by (intro keeps_rules)
qed

end

section \<open>The in-memory store behind the controllers\<close>

definition on_rest :: "('k, 'a) state \<Rightarrow> ('k \<times> 's, 'a) state" where
  "on_rest m = State (\<lambda>(w, s). case run_state m w of (a, w') \<Rightarrow> (a, (w', s)))"

definition on_store :: "('s \<Rightarrow> 'a \<times> 's) \<Rightarrow> ('k \<times> 's, 'a) state" where
  "on_store f = State (\<lambda>(w, s). case f s of (a, s') \<Rightarrow> (a, (w, s')))"

text \<open>The host \<open>h\<close> with its two stores replaced by the in-memory one.\<close>

definition memory_host :: "'k host \<Rightarrow> ('k \<times> Store) host" where
  "memory_host h = \<lparr>
     ctx_Err = on_rest (ctx_Err h),
     ctx_gate = map_option (\<lambda>g. \<lparr>gate_CanWrite = on_rest (gate_CanWrite g),
       gate_Remaining = on_rest (gate_Remaining g)\<rparr>) (ctx_gate h),
     time_Now = on_rest (time_Now h),
     spec_ListApplyDesires = (\<lambda>mc. on_store (\<lambda>s. (mem_ListApplyDesires mc s, s))),
     spec_GetApplyDesire = (\<lambda>i. on_store (\<lambda>s. (mem_GetApplyDesire i s, s))),
     status_UpdateApplyDesireStatus = (\<lambda>i st n. on_store (mem_UpdateApplyDesireStatus i st n)),
     spec_ListDeleteDesires = (\<lambda>mc. on_store (\<lambda>s. (mem_ListDeleteDesires mc s, s))),
     spec_GetDeleteDesire = (\<lambda>i. on_store (\<lambda>s. (mem_GetDeleteDesire i s, s))),
     status_UpdateDeleteDesireStatus = (\<lambda>i st n. on_store (mem_UpdateDeleteDesireStatus i st n)),
     mapper_RESTMapping = (\<lambda>gvk. on_rest (mapper_RESTMapping h gvk)),
     mapper_KindFor = (\<lambda>gvr. on_rest (mapper_KindFor h gvr)),
     mapper_Reset = map_option on_rest (mapper_Reset h),
     dyn_Apply = (\<lambda>t ri n x opts. on_rest (dyn_Apply h t ri n x opts)),
     dyn_Get = (\<lambda>t ri n. on_rest (dyn_Get h t ri n)),
     dyn_Delete = (\<lambda>t ri n. on_rest (dyn_Delete h t ri n))\<rparr>"

text \<open>Two stores that differ in statuses and versions only.\<close>

definition status_erased :: "resourceRecord \<Rightarrow> resourceRecord" where
  "status_erased r = r\<lparr>rec_Status := zero_Status, rec_Version := 0\<rparr>"

definition same_specs :: "Store \<Rightarrow> Store \<Rightarrow> bool" where
  "same_specs s s' \<longleftrightarrow> map_option status_erased \<circ> lookup_item s = map_option status_erased \<circ> lookup_item s'"

lemma keeps_on_rest: "(\<And>s. R s s) \<Longrightarrow> keeps (\<lambda>x y. R (snd x) (snd y)) (on_rest m)"
  by (simp add: keeps_def on_rest_def split: prod.split)

lemma keeps_on_store: "(\<And>s. R s (snd (f s))) \<Longrightarrow> keeps (\<lambda>x y. R (snd x) (snd y)) (on_store f)"
  by (simp add: keeps_def on_store_def split: prod.split) (metis snd_conv)

lemma same_specs_refl: "same_specs s s"
  by (simp add: same_specs_def)

lemma status_updates_keep_specs:
  "same_specs s (snd (mem_UpdateApplyDesireStatus i st n s))"
  "same_specs s (snd (mem_UpdateDeleteDesireStatus i st n s))"
  by (auto simp: same_specs_def mem_UpdateApplyDesireStatus_def mem_UpdateDeleteDesireStatus_def Let_def fun_eq_iff
      status_erased_def simp del: map_of_eq_Some_iff split: option.split)

interpretation specs_kept: kept_relation "\<lambda>x y. same_specs (snd x) (snd y)" "memory_host h" for h
proof unfold_locales
  show "host_keeps (\<lambda>x y. same_specs (snd x) (snd y)) (memory_host h)"
    by (auto simp: host_keeps_def memory_host_def same_specs_refl status_updates_keep_specs
        intro!: keeps_on_rest keeps_on_store)
qed (auto simp: same_specs_def)

section \<open>A pass settles the desires of the store\<close>

text \<open>The status says something about the given generation.\<close>

definition observed :: "kube_lib \<Rightarrow> Status \<Rightarrow> int64 \<Rightarrow> bool" where
  "observed k st gen \<longleftrightarrow>
     (\<exists>c. FindCond k (Conditions st) TypeSuccessful = Some c \<and> cond_ObservedGeneration c = gen)"

lemma observed_set:
  assumes "condition_api (FindCond k) (SetCond k)"
  shows "observed k \<lparr>Conditions = SetCond k now cs (SuccessfulCondition st gen reason msg)\<rparr> gen"
proof -
  obtain c where "FindCond k (SetCond k now cs (SuccessfulCondition st gen reason msg)) TypeSuccessful = Some c"
    "same_outcome c (SuccessfulCondition st gen reason msg)"
    using condition_api.set_same [OF assms, of now cs "SuccessfulCondition st gen reason msg"] by auto
  moreover from this(2) have "cond_ObservedGeneration c = gen"
    unfolding same_outcome_def
    by (metis Condition.select_convs(3) Condition.surjective Condition.update_convs(4) SuccessfulCondition_sel(3))
  ultimately show ?thesis by (auto simp: observed_def)
qed

lemma observed_equal:
  assumes api: "condition_api (FindCond k) (SetCond k)" and eq: "EqualStatus k st base" and st: "observed k st gen"
  shows "observed k base gen"
proof -
  obtain c where c: "FindCond k (Conditions st) TypeSuccessful = Some c" "cond_ObservedGeneration c = gen"
    using st by (auto simp: observed_def)
  have "c \<in> set (Conditions st)" "cond_Type c = TypeSuccessful"
    using condition_api.find_member [OF api c(1)] condition_api.find_type [OF api c(1)] by auto
  then obtain b where "FindCond k (Conditions base) TypeSuccessful = Some b" "same_outcome c b"
    using eq by (force simp: EqualStatus_def list_all_iff same_outcome_def split: if_splits option.splits)
  moreover from this(2) have "cond_ObservedGeneration b = gen"
    using c(2) unfolding same_outcome_def
    by (metis Condition.select_convs(3) Condition.surjective Condition.update_convs(4))
  ultimately show ?thesis by (auto simp: observed_def)
qed

lemma wp_on_restI: "(\<And>a w'. Q a (w', snd x)) \<Longrightarrow> wp (on_rest m) Q x"
  by (cases x) (simp add: on_rest_def wp_State split: prod.split)

lemma wp_on_store [wp_rules]: "wp (on_store f) Q x = (case f (snd x) of (a, s) \<Rightarrow> Q a (fst x, s))"
  by (simp add: on_store_def wp_State split: prod.split)

lemma memory_host_sel [simp]:
  "ctx_Err (memory_host h) = on_rest (ctx_Err h)"
  "time_Now (memory_host h) = on_rest (time_Now h)"
  "spec_ListApplyDesires (memory_host h) mc = on_store (\<lambda>s. (mem_ListApplyDesires mc s, s))"
  "spec_GetApplyDesire (memory_host h) i = on_store (\<lambda>s. (mem_GetApplyDesire i s, s))"
  "status_UpdateApplyDesireStatus (memory_host h) i st n = on_store (mem_UpdateApplyDesireStatus i st n)"
  "spec_ListDeleteDesires (memory_host h) mc = on_store (\<lambda>s. (mem_ListDeleteDesires mc s, s))"
  "spec_GetDeleteDesire (memory_host h) i = on_store (\<lambda>s. (mem_GetDeleteDesire i s, s))"
  "status_UpdateDeleteDesireStatus (memory_host h) i st n = on_store (mem_UpdateDeleteDesireStatus i st n)"
  "mapper_RESTMapping (memory_host h) gvk = on_rest (mapper_RESTMapping h gvk)"
  "mapper_KindFor (memory_host h) gvr = on_rest (mapper_KindFor h gvr)"
  "dyn_Apply (memory_host h) t ri nm x opts = on_rest (dyn_Apply h t ri nm x opts)"
  "dyn_Get (memory_host h) t ri nm = on_rest (dyn_Get h t ri nm)"
  "dyn_Delete (memory_host h) t ri nm = on_rest (dyn_Delete h t ri nm)"
  by (simp_all add: memory_host_def)

text \<open>The calls that leave the store alone, and what is known of their results.\<close>

lemma wp_mem_ctx:
  assumes "run_context h ended" "\<And>w'. Q None (w', snd x)"
    and "\<And>err w'. \<not> errors_Is err ErrNotFound \<Longrightarrow> Q (Some err) (w', snd x)"
  shows "wp (on_rest (ctx_Err h)) Q x"
proof (cases x)
  case (Pair w s)
  obtain e w' where run: "run_state (ctx_Err h) w = (e, w')" by fastforce
  show ?thesis
    using assms(2) [of w'] assms(3) [of _ w'] run_context.ctx_law [OF assms(1) run] run Pair
    by (cases e) (auto simp: on_rest_def wp_State)
qed

lemma wp_mem_gate:
  assumes "run_context h ended" "\<And>w'. Q None (w', snd x)"
    and "\<And>err w'. \<not> errors_Is err ErrNotFound \<Longrightarrow> Q (Some err) (w', snd x)"
  shows "wp (CanWrite (memory_host h)) Q x"
proof (cases "ctx_gate h")
  case None
  then show ?thesis using assms(2) [of "fst x"] by (simp add: CanWrite_def memory_host_def wp_return)
next
  case (Some g)
  obtain e w' where run: "run_state (gate_CanWrite g) (fst x) = (e, w')" by fastforce
  show ?thesis
  proof (cases e)
    case None
    then show ?thesis
      using run Some assms(2) by (cases x) (simp add: CanWrite_def memory_host_def on_rest_def wp_State)
  next
    case (Some err)
    then have "run_state (gate_CanWrite g) (fst x) = (Some err, w')" using run by simp
    from run_context.gate_law [OF assms(1) \<open>ctx_gate h = Some g\<close> this] have "\<not> errors_Is err ErrNotFound" by auto
    then show ?thesis
      using run Some \<open>ctx_gate h = Some g\<close> assms(3)
      by (cases x) (simp add: CanWrite_def memory_host_def on_rest_def wp_State)
  qed
qed

lemma wp_mem_window: "(\<And>t w'. Q t (w', snd x)) \<Longrightarrow> wp (WriteContext (memory_host h) timeout) Q x"
  by (auto simp: WriteContext_def memory_host_def wp_rules intro!: wp_on_restI split: option.split)
    (metis prod.collapse)

lemma wp_mem_reset: "(\<And>w'. Q () (w', snd x)) \<Longrightarrow> wp (reset_mapper (memory_host h)) Q x"
  by (auto simp: reset_mapper_def memory_host_def wp_rules intro!: wp_on_restI split: option.split)
    (metis prod.collapse)

lemma wp_mem_condition:
  "(\<And>now w'. Q \<lparr>Conditions = SetCond k now (Conditions st) c\<rparr> (w', snd x)) \<Longrightarrow>
   wp (WithCondition k (memory_host h) st c) Q x"
  unfolding WithCondition_defs wp_bind memory_host_sel by (rule wp_on_restI) (simp add: wp_return)

lemmas wp_mem_rules = wp_on_restI wp_mem_window wp_mem_reset wp_mem_condition

lemma apply_object_mem:
  assumes api: "condition_api (FindCond k) (SetCond k)" and ctx: "run_context h ended"
    and get: "mem_GetApplyDesire (ad_Identity d) (snd x) = Inr d'"
  shows "wp (apply_object k (memory_host h) r d y mapping) (\<lambda>res x'. snd x' = snd x \<and>
    (case res of Inl err \<Rightarrow> \<not> errors_Is err ErrNotFound | Inr st \<Rightarrow> observed k st (ad_Generation d))) x"
  unfolding apply_object_def Let_def wp_bind memory_host_sel wp_on_store
proof (simp add: get wp_bind_eta, rule wp_mem_ctx [OF ctx], goal_cases)
  case (1 w)
  let ?Q = "\<lambda>res x'. snd x' = snd x \<and>
    (case res of Inl err \<Rightarrow> \<not> errors_Is err ErrNotFound | Inr st \<Rightarrow> observed k st (ad_Generation d))"
  have cond: "wp (WithCondition k (memory_host h) (ad_Status d) (SuccessfulCondition st (ad_Generation d) reason msg))
      (\<lambda>a. ?Q (Inr a)) x'" if "snd x' = snd x" for st reason msg x'
    by (rule wp_mem_condition) (simp add: that observed_set [OF api])
  show ?case
  proof (simp add: wp_bind_eta, rule wp_mem_gate [OF ctx], goal_cases)
    case (1 w)
    show ?case
    proof (simp add: wp_bind_eta, rule wp_mem_window, rule wp_on_restI, goal_cases)
      case (1 t w3 res w4)
      show ?case
      proof (cases res)
        case None
        then show ?thesis using cond by (simp add: wp_bind wp_return_eta applied_def)
      next
        case (Some err)
        show ?thesis
          unfolding Some option.case wp_bind
        proof (rule wp_mem_ctx [OF ctx], goal_cases)
          case (1 w5)
          show ?case
            unfolding option.case wp_bind
            by (rule wp_mem_gate [OF ctx]) (use cond in \<open>simp_all add: wp_bind wp_return wp_return_eta applyFailed_def\<close>)
        qed (simp add: wp_return)
      qed
    qed
  qed (simp add: wp_return)
qed (simp add: wp_return)

lemma applyToCluster_mem:
  assumes api: "condition_api (FindCond k) (SetCond k)" and ctx: "run_context h ended"
    and get: "mem_GetApplyDesire (ad_Identity d) (snd x) = Inr d'"
  shows "wp (applyToCluster k (memory_host h) r d) (\<lambda>res x'. snd x' = snd x \<and>
    (case res of Inl err \<Rightarrow> \<not> errors_Is err ErrNotFound | Inr st \<Rightarrow> observed k st (ad_Generation d))) x"
proof -
  let ?Q = "\<lambda>res x'. snd x' = snd x \<and>
    (case res of Inl err \<Rightarrow> \<not> errors_Is err ErrNotFound | Inr st \<Rightarrow> observed k st (ad_Generation d))"
  have refuse: "wp (apply_preCheckFailed k (memory_host h) (ad_Status d) (ad_Generation d) msg)
      (\<lambda>a b. snd b = snd x \<and> observed k a (ad_Generation d)) x'"
    if "snd x' = snd x" for msg x'
    unfolding apply_preCheckFailed_def by (rule wp_mem_condition) (simp add: that observed_set [OF api])
  have apply_ok: "wp (apply_object k (memory_host h) r d y mapping) ?Q x'" if "snd x' = snd x" for y mapping x'
    using apply_object_mem [OF api ctx, of d x'] get that by simp
  have mapped: "wp (apply_mapping k (memory_host h) gvk) (\<lambda>m x'. snd x' = snd x) x" for gvk
    unfolding apply_mapping_def wp_bind memory_host_sel
    by (rule wp_on_restI) (auto simp: wp_bind wp_return split: sum.split intro!: wp_mem_reset wp_on_restI)
  show ?thesis
    unfolding applyToCluster_def Let_def
    by (auto simp: wp_bind_eta wp_return_eta refuse apply_ok split: sum.split option.split
        intro!: wp_mono [OF mapped])
qed

text \<open>What a step on one listed desire does to the store.\<close>

definition settles ::
  "kube_lib \<Rightarrow> (Store \<Rightarrow> bool) \<Rightarrow> (Identity \<Rightarrow> Store \<Rightarrow> 'd result) \<Rightarrow> ('d \<Rightarrow> Status) \<Rightarrow> ('d \<Rightarrow> int64) \<Rightarrow> Identity \<Rightarrow>
   Store \<Rightarrow> goerror option \<Rightarrow> Store \<Rightarrow> bool" where
  "settles k ok get status_of generation i s res s' \<longleftrightarrow>
     ok s' \<and> (\<forall>j. j \<noteq> i \<longrightarrow> get j s' = get j s) \<and>
     (res = None \<longrightarrow> (\<exists>d. get i s' = Inr d \<and> observed k (status_of d) (generation d)))"

lemma settles_put:
  assumes store: "status_store lst get put ident status_of generation version_of ok"
    and "ok s" "get i s = Inr d" and st: "observed k st (generation d)"
    and put: "put i st (version_of d) s = (u, s')"
  shows "settles k ok get status_of generation i s res s'"
proof -
  obtain d' t where "put i st (version_of d) s = (Inr d', t)" "get i t = Inr d'" "ok t" "status_of d' = st"
    "generation d' = generation d" "\<forall>j. j \<noteq> i \<longrightarrow> get j t = get j s"
    using status_store.put_current [OF store assms(2,3) refl, of st] by blast
  with st put show ?thesis unfolding settles_def by (metis Pair_inject)
qed

lemma settles_skip:
  "ok s \<Longrightarrow> (res = None \<Longrightarrow> get i s = Inr d \<and> observed k (status_of d) (generation d)) \<Longrightarrow>
   settles k ok get status_of generation i s res s"
  by (auto simp: settles_def)

lemma apply_reconcileOne_mem:
  assumes api: "condition_api (FindCond k) (SetCond k)" and ctx: "run_context h ended"
    and inv: "mem_inv v (snd x)" and get: "mem_GetApplyDesire (ad_Identity d) (snd x) = Inr d"
  shows "wp (apply_reconcileOne k (memory_host h) r d) (\<lambda>res x'. settles k (mem_inv v) mem_GetApplyDesire ad_Status
    ad_Generation (ad_Identity d) (snd x) res (snd x')) x"
  unfolding apply_reconcileOne_def wp_bind
proof (rule wp_mono [OF applyToCluster_mem [OF api ctx get]], goal_cases)
  case (1 res x')
  show ?case
  proof (cases res)
    case (Inl err)
    with 1 show ?thesis by (simp add: wp_return settles_def inv)
  next
    case (Inr st)
    have skip: "settles k (mem_inv v) mem_GetApplyDesire ad_Status ad_Generation (ad_Identity d) (snd x) None (snd x)"
      if "EqualStatus k st (ad_Status d)"
      using observed_equal [OF api that] 1 Inr get inv by (intro settles_skip) auto
    obtain u s' where put: "mem_UpdateApplyDesireStatus (ad_Identity d) st (ad_Version d) (snd x) = (u, s')" by fastforce
    have "settles k (mem_inv v) mem_GetApplyDesire ad_Status ad_Generation (ad_Identity d) (snd x) out s'" for out
      using settles_put [OF mem_apply.status_store_axioms inv get _ put] 1 Inr by simp
    with 1 Inr skip put show ?thesis by (simp add: wp_rules)
  qed
qed

text \<open>The loop: the desires behind it are settled, the ones ahead are as they were listed.\<close>

definition all_settled ::
  "kube_lib \<Rightarrow> (Identity \<Rightarrow> Store \<Rightarrow> 'd result) \<Rightarrow> ('d \<Rightarrow> Status) \<Rightarrow> ('d \<Rightarrow> int64) \<Rightarrow> Identity set \<Rightarrow>
   goerror option \<Rightarrow> Store \<Rightarrow> bool" where
  "all_settled k get status_of generation ids res s \<longleftrightarrow>
     (res = None \<longrightarrow> (\<forall>i\<in>ids. \<exists>d. get i s = Inr d \<and> observed k (status_of d) (generation d)))"

lemma settles_frame: "settles k ok get status_of generation i s res s' \<Longrightarrow> j \<noteq> i \<Longrightarrow> get j s' = get j s"
  by (simp add: settles_def)

lemma all_settled_step:
  assumes one: "settles k ok get status_of generation i s res s'"
    and before: "all_settled k get status_of generation ids (errors_Join errs) s" and new: "i \<notin> ids"
  shows "all_settled k get status_of generation (insert i ids)
    (errors_Join (case res of None \<Rightarrow> errs | Some e \<Rightarrow> errs @ [e])) s'"
proof (cases res)
  case None
  have "get j s' = get j s" if "j \<in> ids" for j
    using one new that unfolding settles_def by metis
  with None one before show ?thesis by (simp add: all_settled_def settles_def)
qed (simp add: all_settled_def)

lemma apply_loop_mem:
  assumes api: "condition_api (FindCond k) (SetCond k)" and ctx: "run_context h ended"
  shows "mem_inv v (snd x) \<Longrightarrow> distinct (map ad_Identity ds) \<Longrightarrow>
    \<forall>d\<in>set ds. mem_GetApplyDesire (ad_Identity d) (snd x) = Inr d \<Longrightarrow> ids \<inter> ad_Identity ` set ds = {} \<Longrightarrow>
    all_settled k mem_GetApplyDesire ad_Status ad_Generation ids (errors_Join errs) (snd x) \<Longrightarrow>
    wp (apply_loop k (memory_host h) r ds errs) (\<lambda>res x'. mem_inv v (snd x') \<and>
      all_settled k mem_GetApplyDesire ad_Status ad_Generation (ids \<union> ad_Identity ` set ds) res (snd x')) x"
proof (induction ds arbitrary: ids errs x)
  case Nil
  then show ?case by (simp add: wp_return)
next
  case (Cons d ds)
  let ?S = "all_settled k mem_GetApplyDesire ad_Status ad_Generation"
  let ?Q = "\<lambda>res x'. mem_inv v (snd x') \<and> ?S (ids \<union> ad_Identity ` set (d # ds)) res (snd x')"
  have step: "wp (apply_loop k (memory_host h) r ds errs') ?Q x'"
    if one: "settles k (mem_inv v) mem_GetApplyDesire ad_Status ad_Generation (ad_Identity d) (snd x) res (snd x')"
      and errs': "errs' = (case res of None \<Rightarrow> errs | Some e \<Rightarrow> errs @ [e])" for res x' errs'
  proof -
    have "?S (insert (ad_Identity d) ids) (errors_Join errs') (snd x')"
      unfolding errs' by (rule all_settled_step [OF one Cons.prems(5)]) (use Cons.prems(4) in auto)
    moreover have "\<forall>e\<in>set ds. mem_GetApplyDesire (ad_Identity e) (snd x') = Inr e"
    proof
      fix e assume e: "e \<in> set ds"
      from imageI [OF e, of ad_Identity] Cons.prems(2) have "ad_Identity e \<noteq> ad_Identity d" by auto
      with e show "mem_GetApplyDesire (ad_Identity e) (snd x') = Inr e"
        using Cons.prems(3) settles_frame [OF one, of "ad_Identity e"] by simp
    qed
    moreover have "mem_inv v (snd x')" using one by (simp add: settles_def)
    moreover have "insert (ad_Identity d) ids \<inter> ad_Identity ` set ds = {}" using Cons.prems(2,4) by auto
    ultimately show ?thesis
      using Cons.IH [of x' "insert (ad_Identity d) ids" errs'] Cons.prems(2) by simp
  qed
  have get: "mem_GetApplyDesire (ad_Identity d) (snd x) = Inr d" using Cons.prems(3) by simp
  have one: "wp (apply_reconcileOne k (memory_host h) r d) (\<lambda>a. wp (case a of None \<Rightarrow> apply_loop k (memory_host h) r ds errs
      | Some err \<Rightarrow> if aborts_apply err
          then State_Monad.return (Some (Wrapf p err [])) else apply_loop k (memory_host h) r ds (errs @ [err])) ?Q) x'"
    if "snd x' = snd x" for p x'
  proof (rule wp_mono [OF apply_reconcileOne_mem [OF api ctx, of v x' d]], goal_cases)
    case (3 res x'')
    then have r: "settles k (mem_inv v) mem_GetApplyDesire ad_Status ad_Generation (ad_Identity d) (snd x) res (snd x'')"
      using that by simp
    then have "mem_inv v (snd x'')" by (simp add: settles_def)
    with step [OF r refl] show ?case by (cases res) (auto simp: wp_return all_settled_def)
  qed (use that Cons.prems(1) get in simp_all)
  show ?case
    unfolding apply_loop.simps wp_bind memory_host_sel
    by (rule wp_on_restI)
      (use one Cons.prems(1) in \<open>auto simp: wp_bind wp_return all_settled_def split: option.split\<close>)
qed

lemma apply_RunOnce_mem:
  assumes api: "condition_api (FindCond k) (SetCond k)" and ctx: "run_context h ended" and inv: "mem_inv v (snd x)"
  shows "wp (apply_RunOnce k (memory_host h) r) (\<lambda>res x'. mem_inv v (snd x') \<and>
    all_settled k mem_GetApplyDesire ad_Status ad_Generation
      {i. ManagementCluster i = ar_managementCluster r \<and> (\<exists>d. mem_GetApplyDesire i (snd x) = Inr d)} res (snd x')) x"
proof -
  obtain ds where ds: "mem_ListApplyDesires (ar_managementCluster r) (snd x) = Inr ds" "distinct (map ad_Identity ds)"
    "\<And>d. d \<in> set ds \<longleftrightarrow> ManagementCluster (ad_Identity d) = ar_managementCluster r \<and>
       mem_GetApplyDesire (ad_Identity d) (snd x) = Inr d"
    using mem_apply.list_complete [OF inv, of "ar_managementCluster r"] by blast
  have "{i. ManagementCluster i = ar_managementCluster r \<and> (\<exists>d. mem_GetApplyDesire i (snd x) = Inr d)} =
      {} \<union> ad_Identity ` set ds"
    using ds(3) mem_apply.get_ident [OF inv] by (auto simp: image_iff)
  then show ?thesis
    using apply_loop_mem [OF api ctx inv ds(2), of "{}" "[]" r] ds
    by (simp add: apply_RunOnce_def wp_rules all_settled_def)
qed

section \<open>The delete controller on the store\<close>

lemma settled_condition:
  assumes api: "condition_api (FindCond k) (SetCond k)" and "snd x' = s"
  shows "wp (WithCondition k (memory_host h) st (SuccessfulCondition status gen reason msg))
    (\<lambda>a b. snd b = s \<and> observed k a gen) x'"
  using assms(2) by (intro wp_mem_condition) (simp add: observed_set [OF api])

lemma executeDelete_mem:
  assumes api: "condition_api (FindCond k) (SetCond k)"
  shows "wp (executeDelete k (memory_host h) r client d) (\<lambda>res x'. snd x' = snd x \<and>
    (\<forall>st. res = Inr st \<longrightarrow> observed k st (dd_Generation d))) x"
proof -
  define here where "here x' \<longleftrightarrow> snd x' = snd x" for x' :: "'a \<times> Store"
  let ?Q = "\<lambda>res x'. here x' \<and> (\<forall>st. res = Inr st \<longrightarrow> observed k st (dd_Generation d))"
  have moved: "here (w, snd x')" if "here x'" for w x' using that by (simp add: here_def)
  have start: "here x" by (simp add: here_def)
  have status: "wp (as_status (WithCondition k (memory_host h) (dd_Status d)
      (SuccessfulCondition status (dd_Generation d) reason msg))) ?Q x'" if "here x'" for status reason msg x'
    unfolding as_status_def wp_bind
    by (rule wp_mono [OF settled_condition [OF api]]) (use that in \<open>auto simp: wp_return here_def\<close>)
  have done_: "wp (as_status (deleteFailed k (memory_host h) (dd_Status d) (dd_Generation d) e)) ?Q x'"
      "wp (as_status (deleted k (memory_host h) (dd_Status d) (dd_Generation d))) ?Q x'"
      "wp (as_status (waitingForDeletion k (memory_host h) (dd_Status d) (dd_Generation d) m)) ?Q x'"
    if "here x'" for e m x'
    using status [OF that] by (simp_all add: deleteFailed_def deleted_def waitingForDeletion_def)
  have ctx: "wp (State_Monad.bind (on_rest (ctx_Err h)) (\<lambda>ctxErr. case ctxErr of
        None \<Rightarrow> m | Some cerr \<Rightarrow> State_Monad.return (Inl (f cerr)))) ?Q x'"
    if "here x'" "\<And>x'. here x' \<Longrightarrow> wp m ?Q x'" for f m x'
    unfolding wp_bind by (rule wp_on_restI) (use that moved in \<open>auto simp: wp_return split: option.split\<close>)
  have gate: "wp (State_Monad.bind (CanWrite (memory_host h)) (\<lambda>gateErr. case gateErr of
        None \<Rightarrow> m | Some gerr \<Rightarrow> State_Monad.return (Inl (f gerr)))) ?Q x'"
    if "here x'" "\<And>x'. here x' \<Longrightarrow> wp m ?Q x'" for f m x'
    using that moved [OF that(1)]
    by (auto simp: CanWrite_def memory_host_def wp_bind wp_return split: option.split intro!: wp_on_restI)
  have confirm: "wp (confirm_deletion k (memory_host h) r client d) ?Q x'" if "here x'" for x'
    unfolding confirm_deletion_def getResourceIfExist_def Let_def wp_bind memory_host_sel
    by (rule wp_on_restI)
      (use moved [OF that] done_ in \<open>auto simp: wp_return split: sum.split option.split intro!: ctx\<close>)
  have window: "wp (State_Monad.bind (WriteContext (memory_host h) t) (\<lambda>a. State_Monad.bind (on_rest (n a)) m)) ?Q x'"
    if "here x'" "\<And>x' res. here x' \<Longrightarrow> wp (m res) ?Q x'" for t n m x'
    unfolding wp_bind_eta by (rule wp_mem_window, rule wp_on_restI) (use that moved in auto)
  have issue: "wp (issue_delete k (memory_host h) r client d) ?Q x'" if "here x'" for x'
    unfolding issue_delete_def Let_def memory_host_sel
    by (intro ctx gate window that) (auto simp: done_ confirm intro!: ctx gate split: option.split)
  have "wp (executeDelete k (memory_host h) r client d) ?Q x"
    unfolding executeDelete_def getResourceIfExist_def Let_def wp_bind memory_host_sel
    by (rule wp_on_restI)
      (use moved [OF start] done_ issue in \<open>auto simp: wp_return split: sum.split option.split intro!: ctx\<close>)
  then show ?thesis by (simp add: here_def)
qed

lemma delete_newStatus_mem:
  assumes api: "condition_api (FindCond k) (SetCond k)" and get: "mem_GetDeleteDesire (dd_Identity d) (snd x) = Inr d"
  shows "wp (delete_newStatus k (memory_host h) r d) (\<lambda>res x'. snd x' = snd x \<and>
    (\<forall>st base n. res = Inr (st, base, n) \<longrightarrow> base = dd_Status d \<and> n = dd_Version d \<and> observed k st (dd_Generation d))) x"
proof -
  let ?Q = "\<lambda>res x'. snd x' = snd x \<and>
    (\<forall>st base n. res = Inr (st, base, n) \<longrightarrow> base = dd_Status d \<and> n = dd_Version d \<and> observed k st (dd_Generation d))"
  have kind: "wp (kind_for k (memory_host h) gvr) (\<lambda>m x'. snd x' = snd x) x" for gvr
    unfolding kind_for_def wp_bind memory_host_sel
    by (rule wp_on_restI) (auto simp: wp_bind wp_return split: sum.split intro!: wp_mem_reset wp_on_restI)
  have client: "wp (setupResourceClient k (memory_host h) i) (\<lambda>m x'. snd x' = snd x) x" for i
    unfolding setupResourceClient_def wp_bind memory_host_sel
    by (rule wp_mono [OF kind]) (auto simp: wp_bind wp_return split: sum.split intro!: wp_on_restI)
  have cond: "wp (WithCondition k (memory_host h) (dd_Status d) (SuccessfulCondition st (dd_Generation d) reason msg))
      (\<lambda>st. ?Q (Inr (st, dd_Status d, dd_Version d))) x'" if "snd x' = snd x" for st reason msg x'
    by (rule wp_mono [OF settled_condition [OF api that]]) simp
  have exec: "wp (executeDelete k (memory_host h) r client d)
      (\<lambda>res. ?Q (case res of Inl err \<Rightarrow> Inl err | Inr st \<Rightarrow> Inr (st, dd_Status d, dd_Version d))) x'"
    if "snd x' = snd x" for client x'
    by (rule wp_mono [OF executeDelete_mem [OF api]]) (use that in \<open>auto split: sum.splits\<close>)
  show ?thesis
    unfolding delete_newStatus_def wp_bind
  proof (rule wp_mono [OF client], goal_cases)
    case (1 res x')
    show ?case
    proof (cases res)
      case (Inl err)
      then show ?thesis
        using cond [OF 1] by (simp add: wp_bind wp_return_eta delete_preCheckFailed_def)
    next
      case (Inr c)
      have here: "snd (fst x', snd x) = snd x" by simp
      show ?thesis
        unfolding Inr sum.case wp_bind memory_host_sel wp_on_store
        using cond [OF here] exec [OF here] 1 by (simp add: get wp_bind wp_return_eta deleted_def)
    qed
  qed
qed

lemma delete_reconcileOne_mem:
  assumes api: "condition_api (FindCond k) (SetCond k)"
    and inv: "mem_inv v (snd x)" and get: "mem_GetDeleteDesire (dd_Identity d) (snd x) = Inr d"
  shows "wp (delete_reconcileOne k (memory_host h) r d) (\<lambda>res x'. settles k (mem_inv v) mem_GetDeleteDesire dd_Status
    dd_Generation (dd_Identity d) (snd x) res (snd x')) x"
  unfolding delete_reconcileOne_def wp_bind
proof (rule wp_mono [OF delete_newStatus_mem [OF api get]], goal_cases)
  case (1 res x')
  show ?case
  proof (cases res)
    case (Inl err)
    with 1 show ?thesis by (simp add: wp_return settles_def inv)
  next
    case (Inr p)
    then obtain st where p: "res = Inr (st, dd_Status d, dd_Version d)" "observed k st (dd_Generation d)"
      using 1 by (cases p) auto
    have skip: "settles k (mem_inv v) mem_GetDeleteDesire dd_Status dd_Generation (dd_Identity d) (snd x) None (snd x)"
      if "EqualStatus k st (dd_Status d)"
      using observed_equal [OF api that] p get inv by (intro settles_skip) auto
    obtain u s' where put: "mem_UpdateDeleteDesireStatus (dd_Identity d) st (dd_Version d) (snd x) = (u, s')" by fastforce
    have ok: "settles k (mem_inv v) mem_GetDeleteDesire dd_Status dd_Generation (dd_Identity d) (snd x) out s'" for out
      using settles_put [OF mem_delete.status_store_axioms inv get _ put] p by simp
    show ?thesis
      using 1 p skip put ok
      by (cases u) (auto simp: wp_bind wp_return wp_on_store split: option.split intro!: wp_on_restI)
  qed
qed

lemma delete_loop_mem:
  assumes api: "condition_api (FindCond k) (SetCond k)"
  shows "mem_inv v (snd x) \<Longrightarrow> distinct (map dd_Identity ds) \<Longrightarrow>
    \<forall>d\<in>set ds. mem_GetDeleteDesire (dd_Identity d) (snd x) = Inr d \<Longrightarrow> ids \<inter> dd_Identity ` set ds = {} \<Longrightarrow>
    all_settled k mem_GetDeleteDesire dd_Status dd_Generation ids (errors_Join errs) (snd x) \<Longrightarrow>
    wp (delete_loop k (memory_host h) r ds errs) (\<lambda>res x'. mem_inv v (snd x') \<and>
      all_settled k mem_GetDeleteDesire dd_Status dd_Generation (ids \<union> dd_Identity ` set ds) res (snd x')) x"
proof (induction ds arbitrary: ids errs x)
  case Nil
  then show ?case by (simp add: wp_return)
next
  case (Cons d ds)
  let ?S = "all_settled k mem_GetDeleteDesire dd_Status dd_Generation"
  let ?Q = "\<lambda>res x'. mem_inv v (snd x') \<and> ?S (ids \<union> dd_Identity ` set (d # ds)) res (snd x')"
  have step: "wp (delete_loop k (memory_host h) r ds errs') ?Q x'"
    if one: "settles k (mem_inv v) mem_GetDeleteDesire dd_Status dd_Generation (dd_Identity d) (snd x) res (snd x')"
      and errs': "errs' = (case res of None \<Rightarrow> errs | Some e \<Rightarrow> errs @ [e])" for res x' errs'
  proof -
    have "?S (insert (dd_Identity d) ids) (errors_Join errs') (snd x')"
      unfolding errs' by (rule all_settled_step [OF one Cons.prems(5)]) (use Cons.prems(4) in auto)
    moreover have "\<forall>e\<in>set ds. mem_GetDeleteDesire (dd_Identity e) (snd x') = Inr e"
    proof
      fix e assume e: "e \<in> set ds"
      from imageI [OF e, of dd_Identity] Cons.prems(2) have "dd_Identity e \<noteq> dd_Identity d" by auto
      with e show "mem_GetDeleteDesire (dd_Identity e) (snd x') = Inr e"
        using Cons.prems(3) settles_frame [OF one, of "dd_Identity e"] by simp
    qed
    moreover have "mem_inv v (snd x')" using one by (simp add: settles_def)
    moreover have "insert (dd_Identity d) ids \<inter> dd_Identity ` set ds = {}" using Cons.prems(2,4) by auto
    ultimately show ?thesis
      using Cons.IH [of x' "insert (dd_Identity d) ids" errs'] Cons.prems(2) by simp
  qed
  have get: "mem_GetDeleteDesire (dd_Identity d) (snd x) = Inr d" using Cons.prems(3) by simp
  have one: "wp (delete_reconcileOne k (memory_host h) r d) (\<lambda>a. wp (case a of None \<Rightarrow> delete_loop k (memory_host h) r ds errs
      | Some err \<Rightarrow> State_Monad.bind (on_rest (ctx_Err h)) (\<lambda>ctxErr. case ctxErr of
            None \<Rightarrow> delete_loop k (memory_host h) r ds (errs @ [err]) | Some u \<Rightarrow> State_Monad.return (Some err))) ?Q) x'"
    if "snd x' = snd x" for x'
  proof (rule wp_mono [OF delete_reconcileOne_mem [OF api, of v x' d]], goal_cases)
    case (3 res x'')
    then have r: "settles k (mem_inv v) mem_GetDeleteDesire dd_Status dd_Generation (dd_Identity d) (snd x) res (snd x'')"
      using that by simp
    then have inv: "mem_inv v (snd x'')" by (simp add: settles_def)
    have next_: "wp (delete_loop k (memory_host h) r ds (case res of None \<Rightarrow> errs | Some e \<Rightarrow> errs @ [e])) ?Q (w, snd x'')" for w
      by (rule step [OF _ refl]) (use r in simp)
    show ?case
      using inv next_ [of "fst x''"] next_
      by (cases res) (auto simp: wp_bind wp_return all_settled_def split: option.split intro!: wp_on_restI)
  qed (use that Cons.prems(1) get in simp_all)
  show ?case
    unfolding delete_loop.simps wp_bind memory_host_sel
    by (rule wp_on_restI)
      (use one Cons.prems(1) in \<open>auto simp: wp_bind wp_return all_settled_def split: option.split\<close>)
qed

lemma delete_RunOnce_mem:
  assumes api: "condition_api (FindCond k) (SetCond k)" and inv: "mem_inv v (snd x)"
  shows "wp (delete_RunOnce k (memory_host h) r) (\<lambda>res x'. mem_inv v (snd x') \<and>
    all_settled k mem_GetDeleteDesire dd_Status dd_Generation
      {i. ManagementCluster i = dr_managementCluster r \<and> (\<exists>d. mem_GetDeleteDesire i (snd x) = Inr d)} res (snd x')) x"
proof -
  obtain ds where ds: "mem_ListDeleteDesires (dr_managementCluster r) (snd x) = Inr ds" "distinct (map dd_Identity ds)"
    "\<And>d. d \<in> set ds \<longleftrightarrow> ManagementCluster (dd_Identity d) = dr_managementCluster r \<and>
       mem_GetDeleteDesire (dd_Identity d) (snd x) = Inr d"
    using mem_delete.list_complete [OF inv, of "dr_managementCluster r"] by blast
  have "{i. ManagementCluster i = dr_managementCluster r \<and> (\<exists>d. mem_GetDeleteDesire i (snd x) = Inr d)} =
      {} \<union> dd_Identity ` set ds"
    using ds(3) mem_delete.get_ident [OF inv] by (auto simp: image_iff)
  then show ?thesis
    using delete_loop_mem [OF api inv ds(2), of "{}" "[]" h r] ds
    by (simp add: delete_RunOnce_def wp_rules all_settled_def)
qed

end
