(* ===== verification/Leadership.thy ===== *)
theory Leadership
  imports Reconciler
begin

text \<open>
  Package \<open>internal/leadership\<close>: the lock that remembers when the last successful Lease write was
  issued, the gate built on it, and the life cycle of the elected process. The elector of
  \<open>k8s.io/client-go\<close>, the Lease API and the process clock are arguments.
\<close>

section \<open>Constants and durations\<close>

definition LeaseDuration :: duration where "LeaseDuration = 120 * Second"
definition RenewDeadline :: duration where "RenewDeadline = 60 * Second"
definition RetryPeriod :: duration where "RetryPeriod = 10 * Second"
definition handOverLeaseDurationSeconds :: int where "handOverLeaseDurationSeconds = 1"

definition MaxInt64 :: int where "MaxInt64 = 2 ^ 63 - 1"
definition MinInt64 :: int where "MinInt64 = - (2 ^ 63)"

text \<open>\<open>time.Since\<close>: the difference of two times, saturated at the range of a duration.\<close>

definition time_Since :: "timestamp \<Rightarrow> timestamp \<Rightarrow> duration" where
  "time_Since now t = max MinInt64 (min MaxInt64 (now - t))"

text \<open>\<open>Duration.Truncate\<close> and \<open>Duration.String\<close>.\<close>

definition Duration_Truncate :: "duration \<Rightarrow> duration \<Rightarrow> duration" where
  "Duration_Truncate d m = (if m \<le> 0 then d else d - sgn d * (\<bar>d\<bar> mod m))"

fun decimal :: "nat \<Rightarrow> string" where
  "decimal n = (if n < 10 then [char_of (48 + n)] else decimal (n div 10) @ [char_of (48 + n mod 10)])"

declare decimal.simps [simp del]

text \<open>\<open>fmtFrac\<close>: \<open>prec\<close> digits after the point, with trailing zeros and a lone point dropped.\<close>

primrec fraction_digits :: "nat \<Rightarrow> nat \<Rightarrow> string" where
  "fraction_digits v 0 = []"
| "fraction_digits v (Suc prec) = fraction_digits (v div 10) prec @ [char_of (48 + v mod 10)]"

definition fraction :: "nat \<Rightarrow> nat \<Rightarrow> string" where
  "fraction v prec =
     (let ds = rev (dropWhile ((=) CHR ''0'') (rev (fraction_digits v prec))) in
      if ds = [] then [] else CHR ''.'' # ds)"

definition Duration_String :: "duration \<Rightarrow> string" where
  "Duration_String d =
     (let u = nat \<bar>d\<bar>; neg = (if d < 0 then ''-'' else []) in
      if u = 0 then ''0s''
      else if u < 1000 then neg @ decimal u @ ''ns''
      else if u < 1000000 then neg @ decimal (u div 1000) @ fraction (u mod 1000) 3 @ [CHR 0xC2, CHR 0xB5, CHR ''s'']
      else if u < 1000000000 then neg @ decimal (u div 1000000) @ fraction (u mod 1000000) 6 @ ''ms''
      else
        (let secs = u div 1000000000; mins = secs div 60; hours = mins div 60 in
         neg @ (if hours > 0 then decimal hours @ ''h'' else []) @
         (if mins > 0 then decimal (mins mod 60) @ ''m'' else []) @
         decimal (secs mod 60) @ fraction (u mod 1000000000) 9 @ ''s''))"

section \<open>The tracking lock\<close>

record trackingLock =
  lastSuccess :: timestamp

definition markSuccess :: "timestamp \<Rightarrow> trackingLock \<Rightarrow> trackingLock" where
  "markSuccess at l = (if lastSuccess l < at then l\<lparr>lastSuccess := at\<rparr> else l)"

definition sinceLastSuccess :: "timestamp \<Rightarrow> trackingLock \<Rightarrow> duration" where
  "sinceLastSuccess now l = (if lastSuccess l = 0 then MaxInt64 else time_Since now (lastSuccess l))"

definition everSucceeded :: "trackingLock \<Rightarrow> bool" where
  "everSucceeded l \<longleftrightarrow> lastSuccess l \<noteq> 0"

record LeaderElectionRecord =
  HolderIdentity :: string
  LeaseDurationSeconds :: int
  AcquireTime :: timestamp
  RenewTime :: timestamp
  LeaderTransitions :: int

text \<open>
  The process: the lock, whether the run context of the controllers was cancelled, and the world
  behind it; and what it calls: the clock, the Lease API (\<open>Create\<close>, \<open>Update\<close>, \<open>Get\<close> of the wrapped
  lock), the context of the process, the elector (whether its configuration is accepted, and a run
  of it), and the receive from \<open>finished\<close>, which delivers what \<open>runControllers\<close> returned.
\<close>

record 'w process =
  pr_lock :: trackingLock
  pr_cancelled :: bool
  pr_world :: 'w

record 'w election =
  el_Now :: "('w, timestamp) state"
  el_Create :: "LeaderElectionRecord \<Rightarrow> ('w, goerror option) state"
  el_Update :: "LeaderElectionRecord \<Rightarrow> ('w, goerror option) state"
  el_Get :: "('w, LeaderElectionRecord result) state"
  el_Identity :: string
  el_ctx_Err :: "('w, goerror option) state"
  el_config_error :: "goerror option"
  el_Run :: "('w process, unit) state"
  el_finished :: "('w process, goerror option) state"

definition in_world :: "('w, 'a) state \<Rightarrow> ('w process, 'a) state" where
  "in_world m = State (\<lambda>p. case run_state m (pr_world p) of (a, w) \<Rightarrow> (a, p\<lparr>pr_world := w\<rparr>))"

definition get_lock :: "('w process, trackingLock) state" where
  "get_lock = State (\<lambda>p. (pr_lock p, p))"

definition mark_lock :: "timestamp \<Rightarrow> ('w process, unit) state" where
  "mark_lock at = State (\<lambda>p. ((), p\<lparr>pr_lock := markSuccess at (pr_lock p)\<rparr>))"

text \<open>\<open>Create\<close> and \<open>Update\<close> of the tracking lock.\<close>

definition lock_Create :: "'w election \<Rightarrow> LeaderElectionRecord \<Rightarrow> ('w process, goerror option) state" where
  "lock_Create e ler = do {
     started \<leftarrow> in_world (el_Now e);
     res \<leftarrow> in_world (el_Create e ler);
     (case res of
        Some err \<Rightarrow> State_Monad.return (Some err)
      | None \<Rightarrow> do { _ \<leftarrow> mark_lock started; State_Monad.return None })
   }"

definition lock_Update :: "'w election \<Rightarrow> LeaderElectionRecord \<Rightarrow> ('w process, goerror option) state" where
  "lock_Update e ler = do {
     started \<leftarrow> in_world (el_Now e);
     res \<leftarrow> in_world (el_Update e ler);
     (case res of
        Some err \<Rightarrow> State_Monad.return (Some err)
      | None \<Rightarrow> do { _ \<leftarrow> mark_lock started; State_Monad.return None })
   }"

section \<open>The gate\<close>

record staleGate =
  sg_cancel :: bool
  sg_bound :: duration
  sg_watchInterval :: duration

definition start_gate :: staleGate where
  "start_gate = \<lparr>sg_cancel = False, sg_bound = LeaseDuration - RetryPeriod, sg_watchInterval = RetryPeriod\<rparr>"

text \<open>\<open>sg_cancel\<close> says whether the cancel function is set, which calls end the run context.\<close>

definition cancel_run :: "staleGate \<Rightarrow> ('w process, unit) state" where
  "cancel_run g = State (\<lambda>p. ((), if sg_cancel g then p\<lparr>pr_cancelled := True\<rparr> else p))"

definition stale_error :: "staleGate \<Rightarrow> duration \<Rightarrow> goerror" where
  "stale_error g age =
     Wrapf [] ErrLeadershipStale ('': last successful renewal '' @ Duration_String (Duration_Truncate age 1000000) @
       '' ago, freshness bound '' @ Duration_String (sg_bound g))"

definition stale_CanWrite :: "'w election \<Rightarrow> staleGate \<Rightarrow> ('w process, goerror option) state" where
  "stale_CanWrite e g = do {
     now \<leftarrow> in_world (el_Now e);
     l \<leftarrow> get_lock;
     (let age = sinceLastSuccess now l in
      if sg_bound g < age then do {
        _ \<leftarrow> cancel_run g;
        State_Monad.return (Some (stale_error g age))
      } else State_Monad.return None)
   }"

definition stale_Remaining :: "'w election \<Rightarrow> staleGate \<Rightarrow> ('w process, duration) state" where
  "stale_Remaining e g = do {
     now \<leftarrow> in_world (el_Now e);
     l \<leftarrow> get_lock;
     State_Monad.return (sg_bound g - sinceLastSuccess now l)
   }"

definition stale_gate :: "'w election \<Rightarrow> staleGate \<Rightarrow> 'w process LeaderGate" where
  "stale_gate e g = \<lparr>gate_CanWrite = stale_CanWrite e g, gate_Remaining = stale_Remaining e g\<rparr>"

section \<open>The life of an elected process\<close>

definition releaseLease :: "'w election \<Rightarrow> ('w process, unit) state" where
  "releaseLease e = do {
     l \<leftarrow> get_lock;
     if \<not> everSucceeded l then State_Monad.return ()
     else do {
       got \<leftarrow> in_world (el_Get e);
       (case got of
          Inl err \<Rightarrow> State_Monad.return ()
        | Inr record \<Rightarrow>
            if HolderIdentity record \<noteq> el_Identity e then State_Monad.return ()
            else do {
              now \<leftarrow> in_world (el_Now e);
              _ \<leftarrow> lock_Update e \<lparr>HolderIdentity = [], LeaseDurationSeconds = handOverLeaseDurationSeconds,
                AcquireTime = now, RenewTime = now, LeaderTransitions = LeaderTransitions record\<rparr>;
              State_Monad.return ()
            })
     }
   }"

definition leadership_Start :: "'w election \<Rightarrow> ('w process, goerror option) state" where
  "leadership_Start e =
     (case el_config_error e of
        Some err \<Rightarrow> State_Monad.return (Some (wrap ''initialize leader election'' err))
      | None \<Rightarrow> do {
          _ \<leftarrow> el_Run e;
          l \<leftarrow> get_lock;
          controllerErr \<leftarrow> (if everSucceeded l then el_finished e else State_Monad.return None);
          ctxErr \<leftarrow> in_world (el_ctx_Err e);
          if ctxErr \<noteq> None then do {
            _ \<leftarrow> releaseLease e;
            State_Monad.return controllerErr
          }
          else if controllerErr \<noteq> None then do {
            _ \<leftarrow> releaseLease e;
            State_Monad.return controllerErr
          }
          else State_Monad.return (Some ErrLeadershipLost)
        })"

text \<open>\<open>New\<close>: the arguments are checked; the rest of it wires the values above.\<close>

definition leadership_New :: "string \<Rightarrow> string \<Rightarrow> string \<Rightarrow> goerror option" where
  "leadership_New namespace managementCluster identity =
     (if namespace = [] \<or> managementCluster = [] \<or> identity = [] then
        Some (ErrorString ''leader election requires namespace, management cluster and identity'')
      else None)"

section \<open>Freshness\<close>

lemma wp_in_world [wp_rules]:
  "wp (in_world m) Q p = (case run_state m (pr_world p) of (a, w) \<Rightarrow> Q a (p\<lparr>pr_world := w\<rparr>))"
  by (simp add: in_world_def wp_State split: prod.split)

lemma wp_lock [wp_rules]:
  "wp get_lock Q p = Q (pr_lock p) p"
  "wp (mark_lock at) R p = R () (p\<lparr>pr_lock := markSuccess at (pr_lock p)\<rparr>)"
  "wp (cancel_run g) R p = R () (if sg_cancel g then p\<lparr>pr_cancelled := True\<rparr> else p)"
  by (simp_all add: get_lock_def mark_lock_def cancel_run_def wp_State)

lemma lastSuccess_mark: "lastSuccess (markSuccess at l) = max at (lastSuccess l)"
  by (simp add: markSuccess_def max_def)

lemma markSuccess_commute: "markSuccess a (markSuccess b l) = markSuccess b (markSuccess a l)"
  by (auto simp: markSuccess_def)

lemma since_fresh:
  assumes "sinceLastSuccess now l \<le> bound" "bound < MaxInt64"
  shows "everSucceeded l \<and> now \<le> lastSuccess l + bound"
  using assms by (auto simp: sinceLastSuccess_def everSucceeded_def time_Since_def split: if_splits)

lemma since_bounds: "MinInt64 \<le> sinceLastSuccess now l \<and> sinceLastSuccess now l \<le> MaxInt64"
  by (simp add: sinceLastSuccess_def time_Since_def MinInt64_def MaxInt64_def)

text \<open>A lock write records the time it was issued at, and only when it succeeded.\<close>

lemma lock_write_marks:
  assumes "run_state (el_Now e) (pr_world p) = (started, w1)"
  shows "wp (lock_Update e ler) (\<lambda>res p'. pr_lock p' = (if res = None then markSuccess started (pr_lock p) else pr_lock p)) p"
    and "wp (lock_Create e ler) (\<lambda>res p'. pr_lock p' = (if res = None then markSuccess started (pr_lock p) else pr_lock p)) p"
  using assms by (auto simp: lock_Update_def lock_Create_def wp_rules split: prod.split option.split)

text \<open>
  What the gate promises about a write: it was allowed while the last renewal was young, and the time
  it may be sent by, counted from when the write context was made, ends with the freshness bound.
\<close>

lemma gate_allows:
  assumes now: "run_state (el_Now e) (pr_world p) = (t, w)" and bound: "sg_bound g < MaxInt64"
  shows "wp (stale_CanWrite e g) (\<lambda>res p'. pr_lock p' = pr_lock p \<and>
    (res = None \<longrightarrow> everSucceeded (pr_lock p) \<and> t \<le> lastSuccess (pr_lock p) + sg_bound g) \<and>
    (res \<noteq> None \<longrightarrow> sg_cancel g \<longrightarrow> pr_cancelled p')) p"
  using now since_fresh [OF _ bound] by (auto simp: stale_CanWrite_def wp_rules Let_def not_less)

lemma window_ends:
  assumes now: "run_state (el_Now e) (pr_world p) = (t, w)" and gate: "ctx_gate h = Some (stale_gate e g)"
    and led: "everSucceeded (pr_lock p)" and clock: "t - lastSuccess (pr_lock p) \<le> MaxInt64"
  shows "wp (WriteContext h timeout) (\<lambda>d p'. d \<le> timeout \<and> t + d \<le> lastSuccess (pr_lock p) + sg_bound g) p"
  using assms
  by (simp add: WriteContext_def stale_gate_def stale_Remaining_def wp_rules sinceLastSuccess_def everSucceeded_def
      time_Since_def)
    (auto simp: max_def min_def split: if_splits)

section \<open>Handing the Lease over\<close>

datatype lease_event =
    LeRun
  | LeFinished "goerror option"
  | LeCtxErr "goerror option"
  | LeNow timestamp
  | LeCreate LeaderElectionRecord "goerror option"
  | LeUpdate LeaderElectionRecord "goerror option"
  | LeGet "LeaderElectionRecord result"

definition log_process :: "('a \<Rightarrow> 'e) \<Rightarrow> ('w process, 'a) state \<Rightarrow> (('w \<times> 'e list) process, 'a) state" where
  "log_process ev m = State (\<lambda>p.
     case run_state m \<lparr>pr_lock = pr_lock p, pr_cancelled = pr_cancelled p, pr_world = fst (pr_world p)\<rparr> of
       (a, q) \<Rightarrow> (a, \<lparr>pr_lock = pr_lock q, pr_cancelled = pr_cancelled q,
                      pr_world = (pr_world q, ev a # snd (pr_world p))\<rparr>))"

definition logging_election :: "'w election \<Rightarrow> ('w \<times> lease_event list) election" where
  "logging_election e = \<lparr>
     el_Now = log_call LeNow (el_Now e),
     el_Create = (\<lambda>r. log_call (LeCreate r) (el_Create e r)),
     el_Update = (\<lambda>r. log_call (LeUpdate r) (el_Update e r)),
     el_Get = log_call LeGet (el_Get e),
     el_Identity = el_Identity e,
     el_ctx_Err = log_call LeCtxErr (el_ctx_Err e),
     el_config_error = el_config_error e,
     el_Run = log_process (\<lambda>u. LeRun) (el_Run e),
     el_finished = log_process LeFinished (el_finished e)\<rparr>"

lemma logging_election_sel [simp]:
  "el_Now (logging_election e) = log_call LeNow (el_Now e)"
  "el_Update (logging_election e) r = log_call (LeUpdate r) (el_Update e r)"
  "el_Get (logging_election e) = log_call LeGet (el_Get e)"
  "el_Identity (logging_election e) = el_Identity e"
  "el_ctx_Err (logging_election e) = log_call LeCtxErr (el_ctx_Err e)"
  "el_config_error (logging_election e) = el_config_error e"
  "el_Run (logging_election e) = log_process (\<lambda>u. LeRun) (el_Run e)"
  "el_finished (logging_election e) = log_process LeFinished (el_finished e)"
  by (simp_all add: logging_election_def)

abbreviation lease_log :: "('w \<times> lease_event list) process \<Rightarrow> lease_event list" where
  "lease_log p \<equiv> snd (pr_world p)"

lemma wp_log_world:
  "(\<And>r w. Q r (p\<lparr>pr_world := (w, ev r # lease_log p)\<rparr>)) \<Longrightarrow> wp (in_world (log_call ev m)) Q p"
  by (cases "pr_world p") (simp add: wp_in_world log_call_def split: prod.split)

lemma wp_log_process:
  "(\<And>r q w. lease_log q = ev r # lease_log p \<Longrightarrow> Q r q) \<Longrightarrow> wp (log_process ev m) Q p"
  by (simp add: log_process_def wp_State split: prod.split)

text \<open>The Lease is written by a hand-over only, and what a hand-over follows.\<close>

definition hand_over_rule :: "string \<Rightarrow> lease_event \<Rightarrow> lease_event list \<Rightarrow> bool" where
  "hand_over_rule self ev older =
     (case ev of
        LeUpdate r res \<Rightarrow>
          (\<exists>t1 t2 record ctxErr fin rest.
             older = [LeNow t1, LeNow t2, LeGet (Inr record), LeCtxErr ctxErr, LeFinished fin] @ rest \<and>
             HolderIdentity record = self \<and> (ctxErr \<noteq> None \<or> fin \<noteq> None) \<and>
             HolderIdentity r = [] \<and> LeaseDurationSeconds r = handOverLeaseDurationSeconds \<and>
             LeaderTransitions r = LeaderTransitions record)
      | LeCreate r res \<Rightarrow> False
      | _ \<Rightarrow> True)"

definition start_outcome :: "goerror option \<Rightarrow> lease_event list \<Rightarrow> bool" where
  "start_outcome res tr \<longleftrightarrow>
     (res = None \<longrightarrow> (\<exists>err. LeCtxErr (Some err) \<in> set tr)) \<and>
     (\<forall>err. LeFinished (Some err) \<in> set tr \<longrightarrow> res = Some err) \<and>
     ((\<exists>r u. LeUpdate r u \<in> set tr) \<longrightarrow> (\<exists>d. LeFinished d \<in> set tr))"

lemma releaseLease_log:
  assumes "lease_log p = LeCtxErr ctxErr # LeFinished fin # tr" "every (hand_over_rule (el_Identity e)) (lease_log p)"
    and "ctxErr \<noteq> None \<or> fin \<noteq> None"
  shows "wp (releaseLease (logging_election e)) (\<lambda>u p'. every (hand_over_rule (el_Identity e)) (lease_log p') \<and>
    (\<exists>new. lease_log p' = new @ lease_log p \<and> (\<forall>x\<in>set new. \<forall>d. x \<noteq> LeFinished d))) p"
  using assms
  by (auto simp: releaseLease_def lock_Update_def wp_bind wp_return wp_lock hand_over_rule_def
      intro!: wp_log_world split: sum.split option.split)

lemma releaseLease_never_led:
  "\<not> everSucceeded (pr_lock p) \<Longrightarrow> wp (releaseLease e) (\<lambda>u p'. p' = p) p"
  by (simp add: releaseLease_def wp_rules)

lemma start_log:
  assumes "lease_log p = []"
  shows "wp (leadership_Start (logging_election e)) (\<lambda>res p'. every (hand_over_rule (el_Identity e)) (lease_log p') \<and>
    (el_config_error e = None \<longrightarrow> start_outcome res (lease_log p'))) p"
proof (cases "el_config_error e")
  case None
  let ?Q = "\<lambda>res p'. every (hand_over_rule (el_Identity e)) (lease_log p') \<and> start_outcome res (lease_log p')"
  have release: "wp (releaseLease (logging_election e)) (\<lambda>u. ?Q fin) p'"
    if p': "lease_log p' = [LeCtxErr ctxErr, LeFinished fin, LeRun]" "ctxErr \<noteq> None \<or> fin \<noteq> None" for p' ctxErr fin
  proof (rule wp_mono [OF releaseLease_log [OF p'(1) _ p'(2)]], goal_cases)
    case 1
    show ?case by (simp add: p' hand_over_rule_def)
  next
    case (2 u p'')
    then show ?case using p' by (auto simp: start_outcome_def)
  qed
  have lost: "start_outcome (Some ErrLeadershipLost) [LeCtxErr None, LeFinished None, LeRun]"
    by (simp add: start_outcome_def)
  have first: "wp (log_process (\<lambda>u. LeRun) (el_Run e)) (\<lambda>u p'. lease_log p' = [LeRun]) p"
    by (rule wp_log_process) (simp add: assms)
  have led: "wp (State_Monad.bind (in_world (log_call LeCtxErr (el_ctx_Err e))) (\<lambda>ctxErr.
        if ctxErr \<noteq> None then State_Monad.bind (releaseLease (logging_election e)) (\<lambda>u. State_Monad.return fin)
        else if fin \<noteq> None then State_Monad.bind (releaseLease (logging_election e)) (\<lambda>u. State_Monad.return fin)
        else State_Monad.return (Some ErrLeadershipLost))) ?Q p'"
    if "lease_log p' = [LeFinished fin, LeRun]" for p' fin
    unfolding wp_bind
    by (rule wp_log_world)
      (use that lost in \<open>auto simp: wp_bind wp_return wp_return_eta hand_over_rule_def intro!: release\<close>)
  have not_led: "wp (State_Monad.bind (in_world (log_call LeCtxErr (el_ctx_Err e))) (\<lambda>ctxErr.
        if ctxErr \<noteq> None then State_Monad.bind (releaseLease (logging_election e)) (\<lambda>u. State_Monad.return None)
        else State_Monad.return (Some ErrLeadershipLost))) ?Q p'"
    if "lease_log p' = [LeRun]" "\<not> everSucceeded (pr_lock p')" for p'
    unfolding wp_bind
    by (rule wp_log_world) (use that in \<open>auto simp: wp_bind wp_return wp_return_eta hand_over_rule_def start_outcome_def
        intro!: wp_mono [OF releaseLease_never_led]\<close>)
  have "wp (leadership_Start (logging_election e)) ?Q p"
    unfolding leadership_Start_def None option.case logging_election_sel wp_bind
  proof (rule wp_mono [OF first], goal_cases)
    case (1 u p')
    show ?case
    proof (cases "everSucceeded (pr_lock p')")
      case True
      then show ?thesis
        using 1 led unfolding wp_lock if_P [OF True] wp_bind by (intro wp_log_process) simp
    next
      case False
      then show ?thesis using 1 not_led by (simp add: wp_lock wp_return wp_bind)
    qed
  qed
  then show ?thesis using None by simp
qed (use assms in \<open>simp add: leadership_Start_def wp_return\<close>)

end
