(* ===== verification/ControllerContext.thy ===== *)
theory ControllerContext
  imports ApplyReconciler DeleteReconciler
begin

text \<open>
  The end of a pass: once the context was found ended, or the gate denied a write, a pass of either
  controller makes no further call but to ask the context again, so nothing is sent to the API server
  or to the stores. The proofs are over the interface \<open>run_context\<close>.
\<close>

definition denial :: "event \<Rightarrow> bool" where
  "denial e \<longleftrightarrow> (\<exists>err. e = EvCtxErr (Some err) \<or> e = EvCanWrite (Some err))"

definition silent_rule :: "event \<Rightarrow> event list \<Rightarrow> bool" where
  "silent_rule e older \<longleftrightarrow> list_ex denial older \<longrightarrow> (\<exists>c. e = EvCtxErr c)"

lemma denial_simps [simp]:
  "denial (EvCtxErr ce) \<longleftrightarrow> ce \<noteq> None" "denial (EvCanWrite ce) \<longleftrightarrow> ce \<noteq> None"
  "\<not> denial (EvRemaining rem)" "\<not> denial (EvNow now)" "\<not> denial (EvListApply mc la)" "\<not> denial (EvGetApply i ga)"
  "\<not> denial (EvUpdateApply i st n ua)" "\<not> denial (EvListDelete mc ld)" "\<not> denial (EvGetDelete i gd)"
  "\<not> denial (EvUpdateDelete i st n ud)" "\<not> denial (EvMapping gvk mr)" "\<not> denial (EvKindFor gvr kr)" "\<not> denial EvReset"
  "\<not> denial (EvApply t ri nm x opts ar)" "\<not> denial (EvGet t ri nm gr)" "\<not> denial (EvDelete t ri nm dr)"
  by (auto simp: denial_def)

context run_context
begin

text \<open>Before and after the first denial.\<close>

definition clear :: "'w logged \<Rightarrow> bool" where
  "clear s \<longleftrightarrow> every silent_rule (snd s) \<and> \<not> list_ex denial (snd s)"

definition stopped :: "'w logged \<Rightarrow> bool" where
  "stopped s \<longleftrightarrow> every silent_rule (snd s) \<and> ended (fst s)"

lemma clear_call:
  "clear s \<Longrightarrow> (\<And>r. \<not> denial (ev r)) \<Longrightarrow> (\<And>r s'. clear s' \<Longrightarrow> Q r s') \<Longrightarrow> wp (log_call ev m) Q s"
  by (rule wp_logI) (simp add: clear_def silent_rule_def)

lemma clear_ctx:
  assumes "clear s" "\<And>s'. clear s' \<Longrightarrow> Q None s'"
    and "\<And>err s'. stopped s' \<Longrightarrow> err = Canceled \<or> err = DeadlineExceeded \<Longrightarrow> Q (Some err) s'"
  shows "wp (log_call EvCtxErr (ctx_Err h)) Q s"
proof -
  obtain e w where run: "run_state (ctx_Err h) (fst s) = (e, w)" by fastforce
  show ?thesis
    using ctx_law [OF run] run assms(2) [of "(w, EvCtxErr None # snd s)"] assms(1,3)
    by (cases e) (auto simp: wp_log_call clear_def stopped_def silent_rule_def)
qed

lemma stopped_ctx:
  assumes "stopped s" "\<And>err s'. stopped s' \<Longrightarrow> Q (Some err) s'"
  shows "wp (log_call EvCtxErr (ctx_Err h)) Q s"
proof -
  obtain e w where run: "run_state (ctx_Err h) (fst s) = (e, w)" by fastforce
  show ?thesis
    using ctx_law [OF run] run assms by (cases e) (auto simp: wp_log_call stopped_def silent_rule_def)
qed

lemma clear_gate:
  assumes "clear s" "\<And>s'. clear s' \<Longrightarrow> Q None s'"
    and "\<And>p q s'. stopped s' \<Longrightarrow> Q (Some (Wrapf p ErrLeadershipStale q)) s'"
  shows "wp (CanWrite (logging h)) Q s"
proof (cases "ctx_gate h")
  case None
  then show ?thesis using assms(1,2) by (simp add: CanWrite_def wp_return)
next
  case (Some g)
  obtain e w where run: "run_state (gate_CanWrite g) (fst s) = (e, w)" by fastforce
  show ?thesis
  proof (cases e)
    case None
    then show ?thesis
      using run Some assms(1,2) by (simp add: CanWrite_def wp_log_call clear_def silent_rule_def)
  next
    case (Some err)
    obtain p q where err: "err = Wrapf p ErrLeadershipStale q" "ended w"
      using gate_law [OF \<open>ctx_gate h = Some g\<close>] run Some by blast
    then have "stopped (w, EvCanWrite (Some err) # snd s)"
      using assms(1) by (simp add: stopped_def clear_def silent_rule_def)
    with err run Some \<open>ctx_gate h = Some g\<close> assms(3) show ?thesis by (simp add: CanWrite_def wp_log_call)
  qed
qed

lemma clear_shared:
  "clear s \<Longrightarrow> (\<And>d s'. clear s' \<Longrightarrow> Q d s') \<Longrightarrow> wp (WriteContext (logging h) timeout) Q s"
  "clear s \<Longrightarrow> (\<And>u s'. clear s' \<Longrightarrow> R u s') \<Longrightarrow> wp (reset_mapper (logging h)) R s"
  "clear s \<Longrightarrow> (\<And>st s'. clear s' \<Longrightarrow> T st s') \<Longrightarrow> wp (WithCondition k (logging h) status c) T s"
  by (auto simp: WriteContext_def reset_mapper_def WithCondition_defs wp_bind wp_return split: option.split
      intro!: clear_call)

section \<open>The apply controller\<close>

definition apply_quiet :: "'a result \<Rightarrow> 'w logged \<Rightarrow> bool" where
  "apply_quiet res s \<longleftrightarrow> clear s \<or>
     (stopped s \<and> (\<exists>err. res = Inl err \<and> aborts_apply err \<and> \<not> errors_Is err ErrNotFound))"

lemma apply_quietI:
  "clear s \<Longrightarrow> apply_quiet res s"
  "stopped s \<Longrightarrow> apply_quiet (Inl (Wrapf p Canceled q)) s"
  "stopped s \<Longrightarrow> apply_quiet (Inl (Wrapf p DeadlineExceeded q)) s"
  "stopped s \<Longrightarrow> apply_quiet (Inl (Wrapf p (Wrapf p' ErrLeadershipStale q') q)) s"
  by (auto simp: apply_quiet_def aborts_apply_def)

lemma apply_object_quiet:
  assumes "clear s"
  shows "wp (apply_object k (logging h) r d x mapping) apply_quiet s"
  using assms unfolding apply_object_def Let_def applied_def applyFailed_def
  by (auto simp: wp_bind_eta wp_return apply_quietI intro!: clear_call clear_ctx clear_gate clear_shared
      split: sum.split option.split)

lemma applyToCluster_quiet:
  assumes "clear s"
  shows "wp (applyToCluster k (logging h) r d) apply_quiet s"
  using assms unfolding applyToCluster_def apply_mapping_def apply_preCheckFailed_def Let_def
  by (auto simp: wp_bind_eta wp_return apply_quietI intro!: clear_call clear_shared apply_object_quiet
      split: sum.split option.split)

definition apply_ended :: "goerror option \<Rightarrow> 'w logged \<Rightarrow> bool" where
  "apply_ended res s \<longleftrightarrow> clear s \<or> (stopped s \<and> (\<exists>err. res = Some err \<and> aborts_apply err))"

lemma apply_reconcileOne_quiet:
  assumes "clear s"
  shows "wp (apply_reconcileOne k (logging h) r d) apply_ended s"
  unfolding apply_reconcileOne_def wp_bind
proof (rule wp_mono [OF applyToCluster_quiet [OF assms]], goal_cases)
  case (1 res s)
  then show ?case
  proof (cases res)
    case (Inl err)
    with 1 show ?thesis by (auto simp: wp_return apply_quiet_def apply_ended_def)
  next
    case (Inr st)
    with 1 have c: "clear s" by (simp add: apply_quiet_def)
    then show ?thesis
      using Inr by (auto simp: wp_bind_eta wp_return apply_ended_def intro!: clear_call)
  qed
qed

lemma clear_silent: "clear s \<Longrightarrow> every silent_rule (snd s)" "clear (w, tr) \<Longrightarrow> every silent_rule tr"
  by (simp_all add: clear_def)

lemma stopped_silent: "stopped s \<Longrightarrow> every silent_rule (snd s)" "stopped (w, tr) \<Longrightarrow> every silent_rule tr"
  by (simp_all add: stopped_def)

lemma apply_loop_silent:
  "clear s \<Longrightarrow> wp (apply_loop k (logging h) r ds errs) (\<lambda>res s. every silent_rule (snd s)) s"
proof (induction ds arbitrary: errs s)
  case (Cons d ds)
  have one: "wp (apply_reconcileOne k (logging h) r d) (\<lambda>a. wp (case a of None \<Rightarrow> apply_loop k (logging h) r ds errs
      | Some err \<Rightarrow> if aborts_apply err
          then State_Monad.return (Some (Wrapf p err [])) else apply_loop k (logging h) r ds (errs @ [err]))
      (\<lambda>res s. every silent_rule (snd s))) s'" if "clear s'" for p s'
    by (rule wp_mono [OF apply_reconcileOne_quiet [OF that]])
      (auto simp: apply_ended_def wp_return clear_silent stopped_silent Cons.IH split: option.split)
  show ?case
    unfolding apply_loop.simps wp_bind logging_sel
    by (rule clear_ctx [OF Cons.prems]) (auto simp: wp_bind wp_return stopped_silent intro!: one)
qed (simp add: wp_return clear_silent)

lemma clear_start: "clear (w, [])"
  by (simp add: clear_def)

lemma apply_RunOnce_silent:
  "wp (apply_RunOnce k (logging h) r) (\<lambda>res s. every silent_rule (snd s)) (w, [])"
  unfolding apply_RunOnce_def
  by (auto simp: wp_bind wp_return clear_silent intro!: clear_call clear_start apply_loop_silent split: sum.split)

section \<open>The delete controller\<close>

definition delete_quiet :: "'a result \<Rightarrow> 'w logged \<Rightarrow> bool" where
  "delete_quiet res s \<longleftrightarrow> clear s \<or> (stopped s \<and> (\<exists>err. res = Inl err))"

lemma delete_quietI: "clear s \<Longrightarrow> delete_quiet res s" "stopped s \<Longrightarrow> delete_quiet (Inl err) s"
  by (auto simp: delete_quiet_def)

lemmas delete_defs = as_status_def deleted_def deleteFailed_def waitingForDeletion_def

lemma confirm_deletion_quiet: "clear s \<Longrightarrow> wp (confirm_deletion k (logging h) r client d) delete_quiet s"
  unfolding confirm_deletion_def getResourceIfExist_def delete_defs Let_def
  by (auto simp: wp_bind_eta wp_return delete_quietI intro!: clear_call clear_ctx clear_shared
      split: sum.split option.split)

lemma issue_delete_quiet: "clear s \<Longrightarrow> wp (issue_delete k (logging h) r client d) delete_quiet s"
  unfolding issue_delete_def delete_defs Let_def
  by (auto simp: wp_bind_eta wp_return delete_quietI intro!: clear_call clear_ctx clear_gate clear_shared
      confirm_deletion_quiet split: option.split)

lemma executeDelete_quiet: "clear s \<Longrightarrow> wp (executeDelete k (logging h) r client d) delete_quiet s"
  unfolding executeDelete_def getResourceIfExist_def delete_defs Let_def
  by (auto simp: wp_bind_eta wp_return delete_quietI intro!: clear_call clear_ctx clear_shared issue_delete_quiet
      split: sum.split option.split)

lemma delete_newStatus_quiet:
  assumes "clear s"
  shows "wp (delete_newStatus k (logging h) r d) delete_quiet s"
proof -
  have exec: "wp (executeDelete k (logging h) r client d)
      (\<lambda>a. delete_quiet (case a of Inl err \<Rightarrow> Inl err | Inr st \<Rightarrow> Inr (st, base, n))) s'"
    if "clear s'" for client base n s'
    by (rule wp_mono [OF executeDelete_quiet [OF that]]) (auto simp: delete_quiet_def)
  show ?thesis
    using assms unfolding delete_newStatus_def setupResourceClient_def kind_for_def delete_preCheckFailed_def deleted_def
    by (auto simp: wp_bind_eta wp_return wp_return_eta delete_quietI intro!: clear_call clear_shared exec
        split: sum.split)
qed

definition delete_ended :: "goerror option \<Rightarrow> 'w logged \<Rightarrow> bool" where
  "delete_ended res s \<longleftrightarrow> clear s \<or> (stopped s \<and> res \<noteq> None)"

lemma stopped_again: "stopped s \<Longrightarrow> wp (log_call EvCtxErr (ctx_Err h)) delete_ended s"
  by (auto simp: delete_ended_def intro!: stopped_ctx)

lemma delete_reconcileOne_quiet:
  assumes "clear s"
  shows "wp (delete_reconcileOne k (logging h) r d) delete_ended s"
  unfolding delete_reconcileOne_def wp_bind
proof (rule wp_mono [OF delete_newStatus_quiet [OF assms]], goal_cases)
  case (1 res s)
  then show ?case
  proof (cases res)
    case (Inl err)
    with 1 show ?thesis by (auto simp: wp_return delete_quiet_def delete_ended_def)
  next
    case (Inr p)
    with 1 have c: "clear s" by (simp add: delete_quiet_def)
    then show ?thesis
      using Inr
      by (cases p) (auto simp: wp_bind_eta wp_return delete_ended_def [of None] delete_ended_def [of "Some _"] stopped_again
          intro!: clear_call clear_ctx split: sum.split)
  qed
qed

lemma delete_loop_silent:
  "clear s \<Longrightarrow> wp (delete_loop k (logging h) r ds errs) (\<lambda>res s. every silent_rule (snd s)) s"
proof (induction ds arbitrary: errs s)
  case (Cons d ds)
  have after: "wp (case a of None \<Rightarrow> delete_loop k (logging h) r ds errs
      | Some err \<Rightarrow> State_Monad.bind (log_call EvCtxErr (ctx_Err h)) (\<lambda>ctxErr. case ctxErr of
            None \<Rightarrow> delete_loop k (logging h) r ds (errs @ [err])
          | Some u \<Rightarrow> State_Monad.return (Some err))) (\<lambda>res s. every silent_rule (snd s)) s'"
    if "delete_ended a s'" for a s'
  proof (cases "clear s'")
    case True
    then show ?thesis
      by (auto simp: wp_bind wp_return stopped_silent Cons.IH intro!: clear_ctx split: option.split)
  next
    case False
    with that obtain err where "stopped s'" "a = Some err" by (auto simp: delete_ended_def)
    then show ?thesis by (auto simp: wp_bind wp_return stopped_silent intro!: stopped_ctx)
  qed
  show ?case
    unfolding delete_loop.simps wp_bind logging_sel
    by (rule clear_ctx [OF Cons.prems])
      (auto simp: wp_bind wp_return stopped_silent intro!: wp_mono [OF delete_reconcileOne_quiet] after)
qed (simp add: wp_return clear_silent)

lemma delete_RunOnce_silent:
  "wp (delete_RunOnce k (logging h) r) (\<lambda>res s. every silent_rule (snd s)) (w, [])"
  unfolding delete_RunOnce_def
  by (auto simp: wp_bind wp_return clear_silent intro!: clear_call clear_start delete_loop_silent split: sum.split)

end

end
