(* ===== verification/LeaderContext.thy ===== *)
theory LeaderContext
  imports Leadership ControllerContext
begin

text \<open>
  The controllers under leadership: \<open>runControllers\<close> gives them a context that carries the gate of the
  tracking lock and that the gate cancels. Such a host satisfies the interface \<open>run_context\<close>, for
  any cluster and any stores, as long as the context of the process behaves as contexts do.
\<close>

definition run_gate :: staleGate where
  "run_gate = start_gate\<lparr>sg_cancel := True\<rparr>"

text \<open>
  \<open>runCtx.Err()\<close>: the context derived by \<open>WithCancel\<close> reports the error of its parent, given by the
  state of the world, or \<open>Canceled\<close> once its cancel function was called.
\<close>

definition run_ctx_Err :: "('w \<Rightarrow> goerror option) \<Rightarrow> ('w process, goerror option) state" where
  "run_ctx_Err parent = State (\<lambda>p. (case parent (pr_world p) of
       Some err \<Rightarrow> Some err
     | None \<Rightarrow> if pr_cancelled p then Some Canceled else None, p))"

definition led_host :: "'w election \<Rightarrow> staleGate \<Rightarrow> ('w \<Rightarrow> goerror option) \<Rightarrow> 'w host \<Rightarrow> 'w process host" where
  "led_host e g parent h = \<lparr>
     ctx_Err = run_ctx_Err parent,
     ctx_gate = Some (stale_gate e g),
     time_Now = in_world (time_Now h),
     spec_ListApplyDesires = (\<lambda>mc. in_world (spec_ListApplyDesires h mc)),
     spec_GetApplyDesire = (\<lambda>i. in_world (spec_GetApplyDesire h i)),
     status_UpdateApplyDesireStatus = (\<lambda>i st n. in_world (status_UpdateApplyDesireStatus h i st n)),
     spec_ListDeleteDesires = (\<lambda>mc. in_world (spec_ListDeleteDesires h mc)),
     spec_GetDeleteDesire = (\<lambda>i. in_world (spec_GetDeleteDesire h i)),
     status_UpdateDeleteDesireStatus = (\<lambda>i st n. in_world (status_UpdateDeleteDesireStatus h i st n)),
     mapper_RESTMapping = (\<lambda>gvk. in_world (mapper_RESTMapping h gvk)),
     mapper_KindFor = (\<lambda>gvr. in_world (mapper_KindFor h gvr)),
     mapper_Reset = map_option in_world (mapper_Reset h),
     dyn_Apply = (\<lambda>t ri n x opts. in_world (dyn_Apply h t ri n x opts)),
     dyn_Get = (\<lambda>t ri n. in_world (dyn_Get h t ri n)),
     dyn_Delete = (\<lambda>t ri n. in_world (dyn_Delete h t ri n))\<rparr>"

definition run_ended :: "('w \<Rightarrow> goerror option) \<Rightarrow> 'w process \<Rightarrow> bool" where
  "run_ended parent p \<longleftrightarrow> pr_cancelled p \<or> parent (pr_world p) \<noteq> None"

locale leader_context =
  fixes h :: "'w host" and e :: "'w election" and g :: staleGate and parent :: "'w \<Rightarrow> goerror option"
  assumes cancels: "sg_cancel g"
    and parent_error: "parent w = Some err \<Longrightarrow> err = Canceled \<or> err = DeadlineExceeded"
    and parent_stays: "host_keeps (\<lambda>w w'. parent w \<noteq> None \<longrightarrow> parent w' \<noteq> None) h"
    and clock_stays: "keeps (\<lambda>w w'. parent w \<noteq> None \<longrightarrow> parent w' \<noteq> None) (el_Now e)"
begin

lemma keeps_in_world:
  "keeps (\<lambda>w w'. parent w \<noteq> None \<longrightarrow> parent w' \<noteq> None) m \<Longrightarrow>
   keeps (\<lambda>p p'. run_ended parent p \<longrightarrow> run_ended parent p') (in_world m)"
  by (auto simp: keeps_def in_world_def run_ended_def split: prod.split)

lemma keeps_gate:
  "keeps (\<lambda>p p'. run_ended parent p \<longrightarrow> run_ended parent p') (stale_CanWrite e g)"
  "keeps (\<lambda>p p'. run_ended parent p \<longrightarrow> run_ended parent p') (stale_Remaining e g)"
  using keeps_in_world [OF clock_stays]
  by (auto simp: keeps_def stale_CanWrite_def stale_Remaining_def get_lock_def cancel_run_def run_ended_def Let_def
      split: prod.splits)

end

sublocale leader_context \<subseteq> leader: run_context "led_host e g parent h" "run_ended parent"
proof unfold_locales
  fix w err w' x
  show "run_state (ctx_Err (led_host e g parent h)) w = (x, w') \<Longrightarrow>
      (run_ended parent w \<longrightarrow> x \<noteq> None) \<and>
      (\<forall>err. x = Some err \<longrightarrow> run_ended parent w' \<and> (err = Canceled \<or> err = DeadlineExceeded))"
    using parent_error
    by (cases "parent (pr_world w)") (auto simp: led_host_def run_ctx_Err_def run_ended_def split: if_splits, metis)
  fix gate
  show "ctx_gate (led_host e g parent h) = Some gate \<Longrightarrow> run_state (gate_CanWrite gate) w = (Some err, w') \<Longrightarrow>
      run_ended parent w' \<and> (\<exists>p q. err = Wrapf p ErrLeadershipStale q)"
    using cancels
    by (auto simp: led_host_def stale_gate_def stale_CanWrite_def cancel_run_def get_lock_def run_ended_def stale_error_def
        Let_def split: prod.splits if_splits)
  show "host_keeps (\<lambda>w w'. run_ended parent w \<longrightarrow> run_ended parent w') (led_host e g parent h)"
    using parent_stays keeps_gate unfolding host_keeps_def
    by (auto simp: led_host_def stale_gate_def intro!: keeps_in_world) (simp add: keeps_def run_ctx_Err_def)
qed

text \<open>The host of a process whose own context never ends, with the gate \<open>runControllers\<close> installs.\<close>

interpretation unending: leader_context h e run_gate "\<lambda>w. None" for h e
  by unfold_locales (auto simp: run_gate_def host_keeps_def keeps_def)

end
