(* ===== verification/RunControllers.thy ===== *)
theory RunControllers
  imports Prelude "HOL-Library.Multiset"
begin

text \<open>
  \<open>runControllers\<close> of \<open>internal/leadership/runnable.go\<close> as a step relation: one goroutine per runnable
  that reports its error, cancels the run context and stops the election, the watcher of the gate, and
  the function itself, which waits for all of them. Steps of different goroutines interleave freely.
\<close>

section \<open>States and steps\<close>

text \<open>
  Where the goroutine of a runnable is: \<open>Start\<close> has not returned; it returned and the error is to be
  sent; it is to cancel; it is to stop the election; it ended.
\<close>

datatype runnable_pc =
    Running
  | Exited "goerror option"
  | Sent "goerror option"
  | Cancelled "goerror option"
  | Finished "goerror option"

datatype main_pc = Waiting | Draining | Returned "goerror option"

record controllers =
  rc_pcs :: "runnable_pc list"
  rc_cancelled :: bool
  rc_election_stopped :: bool
  rc_errs :: "goerror list"
  rc_watch_done :: bool
  rc_main :: main_pc

definition rc_start :: "nat \<Rightarrow> controllers" where
  "rc_start n = \<lparr>rc_pcs = replicate n Running, rc_cancelled = False, rc_election_stopped = False, rc_errs = [],
     rc_watch_done = False, rc_main = Waiting\<rparr>"

definition sent_error :: "goerror option \<Rightarrow> goerror list" where
  "sent_error e = (case e of None \<Rightarrow> [] | Some err \<Rightarrow> [err])"

definition is_finished :: "runnable_pc \<Rightarrow> bool" where
  "is_finished pc = (case pc of Finished e \<Rightarrow> True | _ \<Rightarrow> False)"

text \<open>
  \<open>outside\<close>: the leader context ends, or a denied write of a controller cancels the run context.
  The watcher ends because the context did, or because the gate denies, which cancels the context.
\<close>

inductive rc_step :: "controllers \<Rightarrow> controllers \<Rightarrow> bool" where
  exit: "i < length (rc_pcs s) \<Longrightarrow> rc_pcs s ! i = Running \<Longrightarrow>
    rc_step s (s\<lparr>rc_pcs := (rc_pcs s)[i := Exited e]\<rparr>)"
| send: "i < length (rc_pcs s) \<Longrightarrow> rc_pcs s ! i = Exited e \<Longrightarrow>
    rc_step s (s\<lparr>rc_pcs := (rc_pcs s)[i := Sent e], rc_errs := rc_errs s @ sent_error e\<rparr>)"
| cancel: "i < length (rc_pcs s) \<Longrightarrow> rc_pcs s ! i = Sent e \<Longrightarrow>
    rc_step s (s\<lparr>rc_pcs := (rc_pcs s)[i := Cancelled e], rc_cancelled := True\<rparr>)"
| stop: "i < length (rc_pcs s) \<Longrightarrow> rc_pcs s ! i = Cancelled e \<Longrightarrow>
    rc_step s (s\<lparr>rc_pcs := (rc_pcs s)[i := Finished e], rc_election_stopped := True\<rparr>)"
| outside: "rc_step s (s\<lparr>rc_cancelled := True\<rparr>)"
| watch_ctx: "rc_cancelled s \<Longrightarrow> \<not> rc_watch_done s \<Longrightarrow> rc_step s (s\<lparr>rc_watch_done := True\<rparr>)"
| watch_stale: "\<not> rc_watch_done s \<Longrightarrow> rc_step s (s\<lparr>rc_cancelled := True, rc_watch_done := True\<rparr>)"
| drain: "rc_main s = Waiting \<Longrightarrow> list_all is_finished (rc_pcs s) \<Longrightarrow>
    rc_step s (s\<lparr>rc_cancelled := True, rc_main := Draining\<rparr>)"
| join: "rc_main s = Draining \<Longrightarrow> rc_watch_done s \<Longrightarrow>
    rc_step s (s\<lparr>rc_main := Returned (errors_Join (rc_errs s))\<rparr>)"

inductive_cases rc_stepE: "rc_step s s'"

section \<open>Invariant\<close>

definition pc_error :: "runnable_pc \<Rightarrow> goerror list" where
  "pc_error pc = (case pc of Sent e \<Rightarrow> sent_error e | Cancelled e \<Rightarrow> sent_error e | Finished e \<Rightarrow> sent_error e | _ \<Rightarrow> [])"

definition past_cancel :: "runnable_pc \<Rightarrow> bool" where
  "past_cancel pc = (case pc of Cancelled e \<Rightarrow> True | Finished e \<Rightarrow> True | _ \<Rightarrow> False)"

definition reported :: "runnable_pc list \<Rightarrow> goerror multiset" where
  "reported pcs = mset (concat (map pc_error pcs))"

definition rc_inv :: "controllers \<Rightarrow> bool" where
  "rc_inv s \<longleftrightarrow>
     mset (rc_errs s) = reported (rc_pcs s) \<and>
     (list_ex past_cancel (rc_pcs s) \<longrightarrow> rc_cancelled s) \<and>
     (list_ex is_finished (rc_pcs s) \<longrightarrow> rc_election_stopped s) \<and>
     (rc_watch_done s \<longrightarrow> rc_cancelled s) \<and>
     (rc_main s \<noteq> Waiting \<longrightarrow> list_all is_finished (rc_pcs s) \<and> rc_cancelled s) \<and>
     (\<forall>r. rc_main s = Returned r \<longrightarrow> rc_watch_done s \<and> r = errors_Join (rc_errs s))"

lemma reported_update:
  "i < length pcs \<Longrightarrow>
   reported (pcs[i := pc]) + mset (pc_error (pcs ! i)) = reported pcs + mset (pc_error pc)"
proof (induction pcs arbitrary: i)
  case (Cons p pcs)
  then show ?case by (cases i) (auto simp: reported_def ac_simps)
qed simp

lemma reported_same:
  "i < length pcs \<Longrightarrow> mset (pc_error pc) = mset (pc_error (pcs ! i)) \<Longrightarrow> reported (pcs[i := pc]) = reported pcs"
  using reported_update [of i pcs pc] by simp

lemma list_ex_update: "list_ex P (xs[i := x]) \<Longrightarrow> P x \<or> list_ex P xs"
  using set_update_subset_insert [of xs i x] by (auto simp: list_ex_iff)

lemma not_finished: "i < length pcs \<Longrightarrow> \<not> is_finished (pcs ! i) \<Longrightarrow> \<not> list_all is_finished pcs"
  by (auto simp: list_all_length)

lemmas pc_defs = pc_error_def past_cancel_def is_finished_def

lemma rc_inv_start: "rc_inv (rc_start n)"
  by (auto simp: rc_inv_def rc_start_def reported_def list_ex_iff pc_defs)

text \<open>A step of one goroutine, with what it has to respect.\<close>

lemma rc_inv_move:
  assumes inv: "rc_inv s" and i: "i < length (rc_pcs s)" "\<not> is_finished (rc_pcs s ! i)"
    and errs: "mset es + mset (pc_error (rc_pcs s ! i)) = mset (pc_error pc)"
    and flags: "past_cancel pc \<Longrightarrow> c" "is_finished pc \<Longrightarrow> st" "rc_cancelled s \<Longrightarrow> c" "rc_election_stopped s \<Longrightarrow> st"
  shows "rc_inv (s\<lparr>rc_pcs := (rc_pcs s)[i := pc], rc_errs := rc_errs s @ es, rc_cancelled := c, rc_election_stopped := st\<rparr>)"
proof -
  have "rc_main s = Waiting" using inv not_finished [OF i] by (auto simp: rc_inv_def)
  moreover have "mset (rc_errs s @ es) = reported ((rc_pcs s)[i := pc])"
    using inv errs reported_update [OF i(1), of pc] by (simp add: rc_inv_def union_assoc [symmetric]) (metis add_right_cancel add.assoc add.commute)
  ultimately show ?thesis
    using inv flags list_ex_update [of past_cancel "rc_pcs s" i pc] list_ex_update [of is_finished "rc_pcs s" i pc]
    by (auto simp: rc_inv_def)
qed

lemma rc_inv_step: "rc_step s s' \<Longrightarrow> rc_inv s \<Longrightarrow> rc_inv s'"
proof (induction rule: rc_step.induct)
  case (exit i s e)
  then show ?case using rc_inv_move [of s i "[]" "Exited e" "rc_cancelled s" "rc_election_stopped s"] by (simp add: pc_defs)
next
  case (send i s e)
  then show ?case using rc_inv_move [of s i "sent_error e" "Sent e" "rc_cancelled s" "rc_election_stopped s"] by (simp add: pc_defs)
next
  case (cancel i s e)
  then show ?case using rc_inv_move [of s i "[]" "Cancelled e" True "rc_election_stopped s"] by (simp add: pc_defs)
next
  case (stop i s e)
  have "rc_cancelled s"
    using stop unfolding rc_inv_def list_ex_length by (auto simp: pc_defs)
  then have "rc_inv (s\<lparr>rc_pcs := (rc_pcs s)[i := Finished e], rc_errs := rc_errs s @ [], rc_cancelled := rc_cancelled s,
      rc_election_stopped := True\<rparr>)"
    by (intro rc_inv_move) (use stop in \<open>simp_all add: pc_defs\<close>)
  then show ?case by simp
qed (auto simp: rc_inv_def)

lemma rc_inv_reachable: "rc_step\<^sup>*\<^sup>* (rc_start n) s \<Longrightarrow> rc_inv s"
  by (induction rule: rtranclp_induct) (auto intro: rc_inv_start rc_inv_step)

lemma rc_length: "rc_step\<^sup>*\<^sup>* (rc_start n) s \<Longrightarrow> length (rc_pcs s) = n"
  by (induction rule: rtranclp_induct) (auto simp: rc_start_def elim!: rc_stepE)

text \<open>The buffer of the error channel has one place per runnable, which is enough.\<close>

lemma reported_size: "size (reported pcs) \<le> length pcs"
  by (induction pcs) (auto simp: reported_def pc_error_def sent_error_def split: runnable_pc.split option.split)

section \<open>Progress\<close>

text \<open>How many steps the goroutines are away from their end.\<close>

definition pc_rank :: "runnable_pc \<Rightarrow> nat" where
  "pc_rank pc = (case pc of Running \<Rightarrow> 4 | Exited e \<Rightarrow> 3 | Sent e \<Rightarrow> 2 | Cancelled e \<Rightarrow> 1 | Finished e \<Rightarrow> 0)"

definition rc_rank :: "controllers \<Rightarrow> nat" where
  "rc_rank s = sum_list (map pc_rank (rc_pcs s)) + (if rc_watch_done s then 0 else 1) +
     (case rc_main s of Waiting \<Rightarrow> 2 | Draining \<Rightarrow> 1 | Returned r \<Rightarrow> 0)"

lemma rank_update:
  "i < length pcs \<Longrightarrow> pc_rank pc < pc_rank (pcs ! i) \<Longrightarrow>
   sum_list (map pc_rank (pcs[i := pc])) < sum_list (map pc_rank pcs)"
proof (induction pcs arbitrary: i)
  case (Cons p pcs)
  then show ?case by (cases i) auto
qed simp

lemma rc_progress:
  assumes inv: "rc_inv s" and main: "\<forall>r. rc_main s \<noteq> Returned r"
  shows "\<exists>s'. rc_step s s' \<and> rc_rank s' < rc_rank s"
proof (cases "list_all is_finished (rc_pcs s)")
  case True
  show ?thesis
  proof (cases "rc_main s")
    case Waiting
    with True rc_step.drain [of s] show ?thesis by (intro exI conjI) (auto simp: rc_rank_def)
  next
    case Draining
    show ?thesis
    proof (cases "rc_watch_done s")
      case True
      with Draining rc_step.join [of s] show ?thesis by (intro exI conjI) (auto simp: rc_rank_def)
    next
      case False
      with Draining inv rc_step.watch_ctx [of s] show ?thesis
        by (intro exI conjI) (auto simp: rc_rank_def rc_inv_def)
    qed
  qed (use main in simp)
next
  case False
  then obtain i where i: "i < length (rc_pcs s)" "\<not> is_finished (rc_pcs s ! i)" by (auto simp: list_all_length)
  have move: "\<exists>s'. rc_step s s' \<and> rc_rank s' < rc_rank s"
    if "rc_step s (s\<lparr>rc_pcs := (rc_pcs s)[i := pc], rc_errs := es, rc_cancelled := c, rc_election_stopped := st\<rparr>)"
      "pc_rank pc < pc_rank (rc_pcs s ! i)" for pc es c st
    using that rank_update [OF i(1) that(2)] by (intro exI conjI) (auto simp: rc_rank_def)
  show ?thesis
  proof (cases "rc_pcs s ! i")
    case Running
    with rc_step.exit [OF i(1), of None] move [where pc = "Exited None" and es = "rc_errs s" and c = "rc_cancelled s" and st = "rc_election_stopped s"]
    show ?thesis by (simp add: pc_rank_def)
  next
    case (Exited e)
    with rc_step.send [OF i(1), of e] move [where pc = "Sent e" and es = "rc_errs s @ sent_error e" and c = "rc_cancelled s" and st = "rc_election_stopped s"]
    show ?thesis by (simp add: pc_rank_def)
  next
    case (Sent e)
    with rc_step.cancel [OF i(1), of e] move [where pc = "Cancelled e" and es = "rc_errs s" and c = True and st = "rc_election_stopped s"]
    show ?thesis by (simp add: pc_rank_def)
  next
    case (Cancelled e)
    with rc_step.stop [OF i(1), of e] move [where pc = "Finished e" and es = "rc_errs s" and c = "rc_cancelled s" and st = True]
    show ?thesis by (simp add: pc_rank_def)
  qed (use i in \<open>simp add: is_finished_def\<close>)
qed

lemma rc_returns: "rc_inv s \<Longrightarrow> \<exists>s' r. rc_step\<^sup>*\<^sup>* s s' \<and> rc_main s' = Returned r"
proof (induction "rc_rank s" arbitrary: s rule: less_induct)
  case less
  show ?case
  proof (cases "\<exists>r. rc_main s = Returned r")
    case False
    then obtain s' where "rc_step s s'" "rc_rank s' < rc_rank s" using rc_progress [OF less.prems] by blast
    then show ?thesis using less.hyps [of s'] rc_inv_step less.prems converse_rtranclp_into_rtranclp by metis
  qed blast
qed

end
