(* ===== verification/Loops.thy ===== *)
theory Loops
  imports Reconciler
begin

text \<open>
  The two poll loops: \<open>Runnable.Start\<close> of \<open>internal/controllers/serial\<close>, which calls its reconcilers in
  order on every tick, and \<open>Refresher.Start\<close> of \<open>internal/discovery\<close>. A loop runs until its context
  ends, so it has fuel for the ticks, and \<^term>\<open>None\<close> says the fuel ran out.
\<close>

section \<open>Models\<close>

text \<open>
  What a loop calls: the context, the reconcilers, and the \<open>select\<close> between the end of the context
  (\<^term>\<open>False\<close>) and the next tick (\<^term>\<open>True\<close>).
\<close>

record 'w loop_host =
  lp_ctx_Err :: "('w, goerror option) state"
  lp_tick :: "('w, bool) state"
  lp_reconcilers :: "('w, goerror option) state list"

text \<open>One round over the reconcilers; the result says whether \<open>Start\<close> returns.\<close>

primrec serial_round ::
  "('w, goerror option) state \<Rightarrow> ('w, goerror option) state list \<Rightarrow> ('w, bool) state" where
  "serial_round ctx [] = State_Monad.return False"
| "serial_round ctx (rec # recs) = do {
     ctxErr \<leftarrow> ctx;
     if ctxErr \<noteq> None then State_Monad.return True
     else do {
       err \<leftarrow> rec;
       stop \<leftarrow> (if err \<noteq> None then do {
                   ctxErr \<leftarrow> ctx;
                   State_Monad.return (ctxErr \<noteq> None)
                 } else State_Monad.return False);
       if stop then State_Monad.return True
       else do {
         ctxErr \<leftarrow> ctx;
         if ctxErr \<noteq> None then State_Monad.return True
         else serial_round ctx recs
       }
     }
   }"

primrec serial_Start :: "nat \<Rightarrow> 'w loop_host \<Rightarrow> ('w, goerror option option) state" where
  "serial_Start 0 h = State_Monad.return None"
| "serial_Start (Suc fuel) h = do {
     stop \<leftarrow> serial_round (lp_ctx_Err h) (lp_reconcilers h);
     if stop then State_Monad.return (Some None)
     else do {
       more \<leftarrow> lp_tick h;
       if more then serial_Start fuel h else State_Monad.return (Some None)
     }
   }"

primrec refresher_Start :: "nat \<Rightarrow> ('w, unit) state \<Rightarrow> ('w, bool) state \<Rightarrow> ('w, goerror option option) state" where
  "refresher_Start 0 reset tick = State_Monad.return None"
| "refresher_Start (Suc fuel) reset tick = do {
     _ \<leftarrow> reset;
     more \<leftarrow> tick;
     if more then refresher_Start fuel reset tick else State_Monad.return (Some None)
   }"

section \<open>The order of the calls\<close>

datatype loop_event = LpCtx "goerror option" | LpTick bool | LpRun nat "goerror option"

definition logging_loop :: "'w loop_host \<Rightarrow> ('w \<times> loop_event list) loop_host" where
  "logging_loop h = \<lparr>
     lp_ctx_Err = log_call LpCtx (lp_ctx_Err h),
     lp_tick = log_call LpTick (lp_tick h),
     lp_reconcilers = map (\<lambda>(i, m). log_call (LpRun i) m) (enumerate 0 (lp_reconcilers h))\<rparr>"

text \<open>The reconciler of the last call since the last tick, if any.\<close>

primrec last_run :: "loop_event list \<Rightarrow> nat option" where
  "last_run [] = None"
| "last_run (e # older) = (case e of LpRun i err \<Rightarrow> Some i | LpTick b \<Rightarrow> None | LpCtx c \<Rightarrow> last_run older)"

definition next_run :: "loop_event list \<Rightarrow> nat" where
  "next_run tr = (case last_run tr of None \<Rightarrow> 0 | Some i \<Rightarrow> Suc i)"

text \<open>
  A reconciler is called when it is its turn in the tick, right after the context was found alive;
  nothing is called after it was found ended; a tick is awaited after every reconciler had its turn.
\<close>

definition loop_rule :: "nat \<Rightarrow> loop_event \<Rightarrow> loop_event list \<Rightarrow> bool" where
  "loop_rule n e older \<longleftrightarrow>
     (\<forall>err. LpCtx (Some err) \<notin> set older) \<and> LpTick False \<notin> set older \<and>
     (case e of
        LpRun i res \<Rightarrow> i = next_run older \<and> i < n \<and> (\<exists>rest. older = LpCtx None # rest)
      | LpTick b \<Rightarrow> next_run older = n
      | LpCtx c \<Rightarrow> True)"

definition alive :: "loop_event list \<Rightarrow> bool" where
  "alive tr \<longleftrightarrow> (\<forall>err. LpCtx (Some err) \<notin> set tr) \<and> LpTick False \<notin> set tr"

lemma alive_simps [simp]:
  "alive (LpCtx c # tr) \<longleftrightarrow> c = None \<and> alive tr" "alive (LpRun i res # tr) \<longleftrightarrow> alive tr"
  "alive (LpTick b # tr) \<longleftrightarrow> b \<and> alive tr"
  by (cases c; auto simp: alive_def)+

lemma next_run_simps [simp]:
  "next_run (LpCtx c # tr) = next_run tr" "next_run (LpRun i res # tr) = Suc i" "next_run (LpTick b # tr) = 0"
  by (simp_all add: next_run_def)

lemma loop_rule_simps [simp]:
  "loop_rule n (LpCtx c) tr \<longleftrightarrow> alive tr"
  "loop_rule n (LpTick b) tr \<longleftrightarrow> alive tr \<and> next_run tr = n"
  "loop_rule n (LpRun i res) tr \<longleftrightarrow> alive tr \<and> i = next_run tr \<and> i < n \<and> (\<exists>rest. tr = LpCtx None # rest)"
  by (auto simp: loop_rule_def alive_def)

definition rounded :: "nat \<Rightarrow> bool \<Rightarrow> 'w \<times> loop_event list \<Rightarrow> bool" where
  "rounded n stop s \<longleftrightarrow> every (loop_rule n) (snd s) \<and>
     (if stop then \<not> alive (snd s) else alive (snd s) \<and> next_run (snd s) = n)"

lemma rounded_stop: "rounded n True s \<longleftrightarrow> every (loop_rule n) (snd s) \<and> \<not> alive (snd s)"
  by (simp add: rounded_def)

lemma serial_round_log:
  "every (loop_rule n) tr \<Longrightarrow> alive tr \<Longrightarrow> next_run tr = i \<Longrightarrow> i + length recs = n \<Longrightarrow>
   wp (serial_round (log_call LpCtx ctx) (map (\<lambda>(i, m). log_call (LpRun i) m) (enumerate i recs)))
     (rounded n) (w, tr)"
proof (induction recs arbitrary: i w tr)
  case Nil
  then show ?case by (simp add: wp_return rounded_def)
next
  case (Cons rec recs)
  have later: "wp (serial_round (log_call LpCtx ctx) (map (\<lambda>(i, m). log_call (LpRun i) m) (enumerate (Suc i) recs)))
     (rounded n) (w', tr')"
    if "every (loop_rule n) tr'" "alive tr'" "next_run tr' = Suc i" for w' tr'
    using Cons.IH [OF that] Cons.prems by simp
  show ?case
    using Cons.prems later
    by (auto simp: wp_bind wp_return rounded_stop split: prod.split intro!: wp_logI)
qed

lemma serial_Start_log:
  "every (loop_rule (length (lp_reconcilers h))) tr \<Longrightarrow> alive tr \<Longrightarrow> next_run tr = 0 \<Longrightarrow>
   wp (serial_Start fuel (logging_loop h)) (\<lambda>res s. every (loop_rule (length (lp_reconcilers h))) (snd s) \<and>
     (\<forall>r. res = Some r \<longrightarrow> r = None \<and> \<not> alive (snd s))) (w, tr)"
proof (induction fuel arbitrary: w tr)
  case 0
  then show ?case by (simp add: wp_return)
next
  case (Suc fuel)
  let ?n = "length (lp_reconcilers h)"
  note round = serial_round_log [OF Suc.prems, of "lp_reconcilers h" "lp_ctx_Err h" w]
  have sel: "lp_ctx_Err (logging_loop h) = log_call LpCtx (lp_ctx_Err h)" "lp_tick (logging_loop h) = log_call LpTick (lp_tick h)"
    "lp_reconcilers (logging_loop h) = map (\<lambda>(i, m). log_call (LpRun i) m) (enumerate 0 (lp_reconcilers h))"
    by (simp_all add: logging_loop_def)
  show ?case
    unfolding serial_Start.simps wp_bind sel
  proof (rule wp_mono [OF round], simp, goal_cases)
    case (1 stop s)
    show ?case
    proof (cases stop)
      case True
      then show ?thesis using 1 by (simp add: wp_return rounded_def)
    next
      case False
      show ?thesis
        using 1 False Suc.IH by (simp add: wp_bind rounded_def) (auto simp: wp_return intro!: wp_logI)
    qed
  qed
qed

end
