(* ===== verification/ControllerSamples.thy ===== *)
theory ControllerSamples
  imports Reconciler Samples
begin

text \<open>A concrete object and the functions of the Kubernetes libraries, for the witnesses.\<close>

definition sample_object :: Unstructured where
  "sample_object = \<lparr>GetAPIVersion = ''apps/v1'', GetKind = ''Deployment'', GetName = ''web'', GetNamespace = ''ns'',
     GetUID = ''u1'', GetDeletionTimestamp = None,
     ObjGroupVersionKind = \<lparr>gvk_Group = ''apps'', gvk_Version = ''v1'', gvk_Kind = ''Deployment''\<rparr>, ObjContent = ''{}''\<rparr>"

definition sample_lib :: kube_lib where
  "sample_lib = \<lparr>FindCond = find_condition, SetCond = set_condition, IsNoMatchError = (\<lambda>e. False),
     IsNotFoundError = (\<lambda>e. e = ErrorString ''NotFound''), UnmarshalObject = (\<lambda>b. Inr sample_object),
     GVK_String = gvk_Kind, FormatRFC3339 = (\<lambda>t. ''2026-01-01T00:00:00Z'')\<rparr>"

lemma sample_lib_api: "condition_api (FindCond sample_lib) (SetCond sample_lib)"
  by (simp add: sample_lib_def kube_conditions.condition_api_axioms)

end
