(* ===== verification/ControllerProperties.thy ===== *)
theory ControllerProperties
  imports ControllerStore LeaderContext RunControllers Loops ControllerSamples
begin

text \<open>
  What the controllers and the leadership of the process promise. Most statements are about the log
  of the calls a pass makes, on a host that is not restricted in any way: whatever the stores, the
  mapper, the API server, the clock and the gate answer, the calls keep the stated rules.
\<close>

section \<open>Hosts for the witnesses\<close>

text \<open>A cluster that accepts every apply and holds no object; nothing interrupts the pass.\<close>

definition calm_host :: "unit host" where
  "calm_host = \<lparr>
     ctx_Err = State_Monad.return None, ctx_gate = None, time_Now = State_Monad.return 7,
     spec_ListApplyDesires = (\<lambda>mc. State_Monad.return (Inr [])), spec_GetApplyDesire = (\<lambda>i. State_Monad.return (Inl ErrNotFound)),
     status_UpdateApplyDesireStatus = (\<lambda>i st n. State_Monad.return (Inl ErrNotFound)),
     spec_ListDeleteDesires = (\<lambda>mc. State_Monad.return (Inr [])), spec_GetDeleteDesire = (\<lambda>i. State_Monad.return (Inl ErrNotFound)),
     status_UpdateDeleteDesireStatus = (\<lambda>i st n. State_Monad.return (Inl ErrNotFound)),
     mapper_RESTMapping = (\<lambda>gvk. State_Monad.return (Inr \<lparr>rm_Resource = \<lparr>gvr_Group = ''apps'', gvr_Version = ''v1'',
       gvr_Resource = ''deployments''\<rparr>, rm_Namespaced = True\<rparr>)),
     mapper_KindFor = (\<lambda>gvr. State_Monad.return (Inr (ObjGroupVersionKind sample_object))), mapper_Reset = None,
     dyn_Apply = (\<lambda>t ri n x opts. State_Monad.return None),
     dyn_Get = (\<lambda>t ri n. State_Monad.return (Inl (ErrorString ''NotFound''))),
     dyn_Delete = (\<lambda>t ri n. State_Monad.return None)\<rparr>"


section \<open>The apply controller\<close>

text \<open>
  C6. Every server-side apply of a pass is for a desire the pass listed, names exactly the object of that
  desire's identity (group, resource, namespace, name) with the desire's own manifest, and is sent
  right after the desire was found to still exist, the context to be alive and the leader gate to
  allow the write, with a timeout that does not exceed what the gate has left. The apply controller
  never deletes.
\<close>

theorem apply_writes_gated:
  "wp (apply_RunOnce k (logging h) r) (\<lambda>res s. every (apply_write_rule k (gated h) r) (snd s)) (w, [])"
  by (rule wp_mono [OF apply_RunOnce_log]) (auto elim!: every_mono simp: apply_rule_def)

text \<open>
  C14. Every status the apply controller writes is for a listed desire, under the version it was listed
  with, and follows from the calls right before it: it reports Applied only after the server accepted
  the apply, KubeAPIError with the server's error, and PreCheckFailed only when nothing but the mapper
  was asked; it is stamped with the desire's generation and differs from the recorded status.
\<close>

theorem apply_status_truthful:
  "wp (apply_RunOnce k (logging h) r) (\<lambda>res s. every (apply_status_rule k r) (snd s)) (w, [])"
  by (rule wp_mono [OF apply_RunOnce_log]) (auto elim!: every_mono simp: apply_rule_def)

section \<open>The delete controller\<close>

text \<open>
  C7. Every DELETE of a pass is for a listed desire: the mapper resolved the group and resource of its
  identity, the desire was read again and not completed, the object was read and not terminating,
  and then the context was alive and the gate allowed the write, with a timeout that does not exceed
  what the gate has left. The delete controller never applies.
\<close>

theorem delete_writes_gated:
  "wp (delete_RunOnce k (logging h) r) (\<lambda>res s. every (delete_write_rule k (gated h) r) (snd s)) (w, [])"
  by (rule wp_mono [OF delete_RunOnce_log]) (auto elim!: every_mono simp: delete_rule_def)


section \<open>Controllers, stores and context together\<close>

text \<open>
  On the in-memory store a pass of either controller changes nothing but statuses and versions: no
  desire is created or removed, and no spec, generation, owner or origin changes.
\<close>

lemma controllers_keep_specs:
  "wp (apply_RunOnce k (memory_host h) ar) (\<lambda>res x. same_specs s (snd x)) (w, s) \<and>
   wp (delete_RunOnce k (memory_host h) dr) (\<lambda>res x. same_specs s (snd x)) (w, s)"
  using specs_kept.keeps_apply [of k h ar] specs_kept.keeps_delete [of k h dr]
  by (auto simp: keeps_def wp_def split: prod.split) (metis snd_conv)+









text \<open>
  C17. Once the context was found ended or the gate denied a write, a pass of either controller makes no
  further call to the stores, the mapper or the API server; it only asks the context again.
\<close>

theorem controllers_stop_when_denied:
  assumes "run_context h ended"
  shows "wp (apply_RunOnce k (logging h) ar) (\<lambda>res s. every silent_rule (snd s)) (w, []) \<and>
    wp (delete_RunOnce k (logging h) dr) (\<lambda>res s. every silent_rule (snd s)) (w, [])"
  by (intro conjI run_context.apply_RunOnce_silent [OF assms] run_context.delete_RunOnce_silent [OF assms])

definition sample_election :: "unit election" where
  "sample_election = \<lparr>el_Now = State_Monad.return 200000000000, el_Create = (\<lambda>r. State_Monad.return None),
     el_Update = (\<lambda>r. State_Monad.return None), el_Get = State_Monad.return (Inl ErrNotFound), el_Identity = ''pod'',
     el_ctx_Err = State_Monad.return None, el_config_error = None, el_Run = State_Monad.return (),
     el_finished = State_Monad.return None\<rparr>"

definition stale_process :: "unit process" where
  "stale_process = \<lparr>pr_lock = \<lparr>lastSuccess = 1\<rparr>, pr_cancelled = False, pr_world = ()\<rparr>"

theorem controllers_stop_when_denied_witness:
  "wp (apply_RunOnce sample_lib (logging (led_host sample_election run_gate (\<lambda>w. None) calm_host)) (apply_New ''mc1''))
     (\<lambda>res s. every silent_rule (snd s)) (stale_process, [])"
  by (rule conjunct1 [OF controllers_stop_when_denied [OF unending.leader.run_context_axioms]])

section \<open>Leadership\<close>




text \<open>
  C25. The gate allows a write only while the last successful Lease write was issued at most the
  freshness bound ago; when it denies, it has cancelled the run context if it was given its cancel
  function; and it never changes the lock. The lock itself moves only forward, to the time a
  successful Lease write was issued at.
\<close>

theorem gate_and_lock:
  assumes "run_state (el_Now e) (pr_world p) = (t, w)" "sg_bound g < MaxInt64"
  shows "wp (stale_CanWrite e g) (\<lambda>res p'. pr_lock p' = pr_lock p \<and>
      (res = None \<longrightarrow> everSucceeded (pr_lock p) \<and> t \<le> lastSuccess (pr_lock p) + sg_bound g) \<and>
      (res \<noteq> None \<longrightarrow> sg_cancel g \<longrightarrow> pr_cancelled p')) p \<and>
    wp (lock_Update e ler) (\<lambda>res p'. lastSuccess (pr_lock p') =
      (if res = None then max t (lastSuccess (pr_lock p)) else lastSuccess (pr_lock p))) p \<and>
    wp (lock_Create e ler) (\<lambda>res p'. lastSuccess (pr_lock p') =
      (if res = None then max t (lastSuccess (pr_lock p)) else lastSuccess (pr_lock p))) p"
  by (intro conjI gate_allows [OF assms] wp_mono [OF lock_write_marks(1) [OF assms(1)]]
      wp_mono [OF lock_write_marks(2) [OF assms(1)]]) (auto simp: lastSuccess_mark split: if_splits)

theorem gate_and_lock_witness:
  "wp (stale_CanWrite sample_election run_gate) (\<lambda>res p'. res \<noteq> None \<longrightarrow> pr_cancelled p') stale_process"
proof -
  have "run_state (el_Now sample_election) (pr_world stale_process) = (200000000000, ())"
    by (simp add: sample_election_def)
  moreover have "sg_bound run_gate < MaxInt64"
    by (simp add: run_gate_def start_gate_def LeaseDuration_def RetryPeriod_def Second_def MaxInt64_def)
  ultimately have "wp (stale_CanWrite sample_election run_gate) (\<lambda>res p'. pr_lock p' = pr_lock stale_process \<and>
      (res = None \<longrightarrow> everSucceeded (pr_lock stale_process) \<and>
         200000000000 \<le> lastSuccess (pr_lock stale_process) + sg_bound run_gate) \<and>
      (res \<noteq> None \<longrightarrow> sg_cancel run_gate \<longrightarrow> pr_cancelled p')) stale_process"
    using gate_and_lock [of sample_election stale_process 200000000000 "()" run_gate] by blast
  then show ?thesis by (rule wp_mono) (simp add: run_gate_def)
qed


text \<open>
  C22. When \<open>runControllers\<close> returns, every runnable has returned, the run context is cancelled, the
  election is stopped if there was a runnable, the watcher has ended, and the result joins exactly the
  errors of the runnables. As soon as a runnable's goroutine has got past its cancel, the others are
  cancelled; the error channel never holds more than its buffer.
\<close>

theorem run_controllers_drained:
  assumes "rc_step\<^sup>*\<^sup>* (rc_start n) s"
  shows "length (rc_errs s) \<le> n \<and> (list_ex past_cancel (rc_pcs s) \<longrightarrow> rc_cancelled s) \<and>
    (\<forall>r. rc_main s = Returned r \<longrightarrow>
       list_all is_finished (rc_pcs s) \<and> rc_cancelled s \<and> rc_watch_done s \<and> (n \<noteq> 0 \<longrightarrow> rc_election_stopped s) \<and>
       r = errors_Join (rc_errs s) \<and> mset (rc_errs s) = reported (rc_pcs s))"
proof -
  note inv = rc_inv_reachable [OF assms] and len = rc_length [OF assms]
  have "size (mset (rc_errs s)) \<le> n" using inv reported_size [of "rc_pcs s"] len by (simp add: rc_inv_def)
  moreover have "list_ex is_finished (rc_pcs s)" if "list_all is_finished (rc_pcs s)" "n \<noteq> 0"
    using that len by (cases "rc_pcs s") auto
  ultimately show ?thesis using inv by (auto simp: rc_inv_def)
qed

text \<open>A run of one runnable that fails, from its start to the return.\<close>

definition failed_run :: controllers where
  "failed_run = \<lparr>rc_pcs = [Finished (Some Canceled)], rc_cancelled = True, rc_election_stopped = True,
     rc_errs = [Canceled], rc_watch_done = True, rc_main = Returned (Some (JoinErrors [Canceled]))\<rparr>"

lemma failed_run_reached: "rc_step\<^sup>*\<^sup>* (rc_start 1) failed_run"
proof -
  let ?s = "\<lambda>pc c e es w m. \<lparr>rc_pcs = [pc], rc_cancelled = c, rc_election_stopped = e, rc_errs = es, rc_watch_done = w,
    rc_main = m\<rparr>"
  let ?e = "Some Canceled"
  have "rc_step\<^sup>*\<^sup>* (?s Running False False [] False Waiting) (?s Running False False [] False Waiting)" by simp
  also have "rc_step (?s Running False False [] False Waiting) (?s (Exited ?e) False False [] False Waiting)"
    using rc_step.exit [of 0 "?s Running False False [] False Waiting" ?e] by simp
  also (rtranclp.rtrancl_into_rtrancl)
  have "rc_step (?s (Exited ?e) False False [] False Waiting) (?s (Sent ?e) False False [Canceled] False Waiting)"
    using rc_step.send [of 0 "?s (Exited ?e) False False [] False Waiting" ?e] by (simp add: sent_error_def)
  also (rtranclp.rtrancl_into_rtrancl)
  have "rc_step (?s (Sent ?e) False False [Canceled] False Waiting) (?s (Cancelled ?e) True False [Canceled] False Waiting)"
    using rc_step.cancel [of 0 "?s (Sent ?e) False False [Canceled] False Waiting" ?e] by simp
  also (rtranclp.rtrancl_into_rtrancl)
  have "rc_step (?s (Cancelled ?e) True False [Canceled] False Waiting) (?s (Finished ?e) True True [Canceled] False Waiting)"
    using rc_step.stop [of 0 "?s (Cancelled ?e) True False [Canceled] False Waiting" ?e] by simp
  also (rtranclp.rtrancl_into_rtrancl)
  have "rc_step (?s (Finished ?e) True True [Canceled] False Waiting) (?s (Finished ?e) True True [Canceled] False Draining)"
    using rc_step.drain [of "?s (Finished ?e) True True [Canceled] False Waiting"] by (simp add: is_finished_def)
  also (rtranclp.rtrancl_into_rtrancl)
  have "rc_step (?s (Finished ?e) True True [Canceled] False Draining) (?s (Finished ?e) True True [Canceled] True Draining)"
    using rc_step.watch_ctx [of "?s (Finished ?e) True True [Canceled] False Draining"] by simp
  also (rtranclp.rtrancl_into_rtrancl)
  have "rc_step (?s (Finished ?e) True True [Canceled] True Draining) failed_run"
    using rc_step.join [of "?s (Finished ?e) True True [Canceled] True Draining"] by (simp add: failed_run_def errors_Join_def)
  finally (rtranclp.rtrancl_into_rtrancl) show ?thesis by (simp add: rc_start_def)
qed

theorem run_controllers_drained_witness:
  "list_all is_finished (rc_pcs failed_run) \<and> mset (rc_errs failed_run) = reported (rc_pcs failed_run)"
  using run_controllers_drained [OF failed_run_reached] by (simp add: failed_run_def)



text \<open>
  C26. The serial loop calls its reconcilers strictly in their order on every tick, each right after the
  context was found alive, so an apply pass is never started between a delete pass and the end of its
  tick; it waits for the next tick only when all had their turn, calls nothing after the context was
  found ended, and returns nil and only then.
\<close>

theorem serial_loop_in_order:
  "wp (serial_Start fuel (logging_loop h))
     (\<lambda>res s. every (loop_rule (length (lp_reconcilers h))) (snd s) \<and>
        (case res of None \<Rightarrow> True | Some r \<Rightarrow> r = None \<and> \<not> alive (snd s))) (w, [])"
  by (rule wp_mono [OF serial_Start_log]) (auto simp: alive_def next_run_def split: option.split)

section \<open>Statuses\<close>

text \<open>A status without its transition times; types tell its conditions apart.\<close>

definition timeless :: "Condition \<Rightarrow> Condition" where
  "timeless c = c\<lparr>cond_LastTransitionTime := 0\<rparr>"

lemma timeless_type: "timeless c = timeless d \<Longrightarrow> cond_Type c = cond_Type d"
  by (metis Condition.select_convs(1) Condition.surjective Condition.update_convs(4) timeless_def)

lemma card_timeless:
  assumes "distinct (map cond_Type cs)"
  shows "card (timeless ` set cs) = length cs"
proof -
  have "inj_on timeless (set cs)"
    by (rule inj_onI) (metis assms distinct_map inj_onD timeless_type)
  with assms show ?thesis by (simp add: card_image distinct_card distinct_map)
qed

lemma EqualStatusI:
  assumes "length (Conditions a) = length (Conditions b)"
    and "\<And>c. c \<in> set (Conditions a) \<Longrightarrow> \<exists>bc. FindCond k (Conditions b) (cond_Type c) = Some bc \<and> same_outcome c bc"
  shows "EqualStatus k a b"
proof (simp add: EqualStatus_def assms(1) list_all_iff, rule ballI)
  fix c assume "c \<in> set (Conditions a)"
  from assms(2) [OF this] show "case FindCond k (Conditions b) (cond_Type c) of None \<Rightarrow> False
      | Some bc \<Rightarrow> c\<lparr>cond_LastTransitionTime := 0\<rparr> = bc\<lparr>cond_LastTransitionTime := 0\<rparr>"
    by (auto simp: same_outcome_def)
qed

lemma same_outcome_timeless: "same_outcome c d \<longleftrightarrow> timeless c = timeless d"
  by (simp add: same_outcome_def timeless_def)

text \<open>
  On statuses that hold one condition per type, \<open>Equal\<close> decides whether they hold the same
  conditions up to transition times.
\<close>

lemma equal_status_same_conditions:
  assumes api: "condition_api (FindCond k) (SetCond k)"
    and types: "distinct (map cond_Type (Conditions a))" "distinct (map cond_Type (Conditions b))"
  shows "EqualStatus k a b \<longleftrightarrow> timeless ` set (Conditions a) = timeless ` set (Conditions b)"
proof
  assume eq: "EqualStatus k a b"
  have "timeless ` set (Conditions a) \<subseteq> timeless ` set (Conditions b)"
  proof
    fix x assume "x \<in> timeless ` set (Conditions a)"
    then obtain c where c: "c \<in> set (Conditions a)" "x = timeless c" by auto
    then obtain bc where "FindCond k (Conditions b) (cond_Type c) = Some bc" "timeless c = timeless bc"
      using eq by (force simp: EqualStatus_def list_all_iff timeless_def split: if_splits option.splits)
    then show "x \<in> timeless ` set (Conditions b)" using condition_api.find_member [OF api] c(2) by blast
  qed
  then show "timeless ` set (Conditions a) = timeless ` set (Conditions b)"
    using eq card_timeless [OF types(1)] card_timeless [OF types(2)]
    by (intro card_subset_eq) (auto simp: EqualStatus_def split: if_splits)
next
  assume eq: "timeless ` set (Conditions a) = timeless ` set (Conditions b)"
  then have "length (Conditions a) = length (Conditions b)"
    using card_timeless [OF types(1)] card_timeless [OF types(2)] by simp
  moreover have "\<exists>bc. FindCond k (Conditions b) (cond_Type c) = Some bc \<and> timeless c = timeless bc"
    if "c \<in> set (Conditions a)" for c
  proof -
    have "timeless c \<in> timeless ` set (Conditions b)" unfolding eq [symmetric] by (rule imageI) (rule that)
    then obtain bc where bc: "bc \<in> set (Conditions b)" "timeless c = timeless bc" by (rule imageE)
    have "FindCond k (Conditions b) (cond_Type c) = Some bc"
      unfolding timeless_type [OF bc(2)] by (rule condition_api.find_unique [OF api types(2) bc(1)])
    with bc(2) show ?thesis by blast
  qed
  ultimately show "EqualStatus k a b" by (intro EqualStatusI) (simp_all add: same_outcome_timeless)
qed

lemma equal_status_same_conditions_witness:
  "EqualStatus sample_lib \<lparr>Conditions = [SuccessfulCondition ConditionTrue 1 ReasonApplied []]\<rparr>
     \<lparr>Conditions = [(SuccessfulCondition ConditionTrue 1 ReasonApplied [])\<lparr>cond_LastTransitionTime := 9\<rparr>]\<rparr>"
  by (subst equal_status_same_conditions [OF sample_lib_api]) (simp_all add: timeless_def SuccessfulCondition_def)

text \<open>
  A repeated outcome is not written again: setting a condition on a status with one condition per
  type makes an equal status exactly when the status already held that outcome.
\<close>

lemma repeated_outcome_not_written:
  assumes api: "condition_api (FindCond k) (SetCond k)" and types: "distinct (map cond_Type cs)"
  shows "EqualStatus k \<lparr>Conditions = SetCond k now cs c\<rparr> \<lparr>Conditions = cs\<rparr> \<longleftrightarrow>
    (\<exists>c'. FindCond k cs (cond_Type c) = Some c' \<and> same_outcome c' c)"
proof -
  let ?new = "SetCond k now cs c"
  obtain n where n: "FindCond k ?new (cond_Type c) = Some n" "same_outcome n c"
    using condition_api.set_same [OF api, of now cs c] by blast
  note member = condition_api.find_member [OF api] and find_type = condition_api.find_type [OF api]
  have types': "distinct (map cond_Type ?new)" by (rule condition_api.set_distinct [OF api types])
  have other: "FindCond k cs (cond_Type x) = Some x" if "x \<in> set ?new" "cond_Type x \<noteq> cond_Type c" for x
    using condition_api.find_unique [OF api types' that(1)] condition_api.set_other [OF api that(2)] by simp
  have len: "length ?new = length cs + (if FindCond k cs (cond_Type c) = None then 1 else 0)"
    using arg_cong [OF condition_api.set_types [OF api, of now cs c], of length] condition_api.find_None [OF api]
    by (simp split: if_splits)
  show ?thesis
  proof
    assume "EqualStatus k \<lparr>Conditions = ?new\<rparr> \<lparr>Conditions = cs\<rparr>"
    then obtain c' where "FindCond k cs (cond_Type n) = Some c'" "same_outcome n c'"
      using member [OF n(1)] by (force simp: EqualStatus_def list_all_iff same_outcome_def split: if_splits option.splits)
    with n(2) find_type [OF n(1)] show "\<exists>c'. FindCond k cs (cond_Type c) = Some c' \<and> same_outcome c' c"
      by (auto simp: same_outcome_def)
  next
    assume "\<exists>c'. FindCond k cs (cond_Type c) = Some c' \<and> same_outcome c' c"
    then obtain c' where c': "FindCond k cs (cond_Type c) = Some c'" "same_outcome c' c" by blast
    have "\<exists>bc. FindCond k cs (cond_Type x) = Some bc \<and> same_outcome x bc" if x: "x \<in> set ?new" for x
    proof (cases "cond_Type x = cond_Type c")
      case True
      then have "x = n" using condition_api.find_unique [OF api types' x] n(1) by simp
      with c' n(2) True show ?thesis by (auto simp: same_outcome_def)
    next
      case False
      then show ?thesis using other [OF x] by (auto simp: same_outcome_def)
    qed
    then show "EqualStatus k \<lparr>Conditions = ?new\<rparr> \<lparr>Conditions = cs\<rparr>"
      using len c'(1) by (intro EqualStatusI) simp_all
  qed
qed

lemma repeated_outcome_not_written_witness:
  "\<not> EqualStatus sample_lib
     \<lparr>Conditions = set_condition 5 [SuccessfulCondition ConditionTrue 1 ReasonApplied []]
        (SuccessfulCondition ConditionTrue 2 ReasonApplied [])\<rparr>
     \<lparr>Conditions = [SuccessfulCondition ConditionTrue 1 ReasonApplied []]\<rparr>"
  using repeated_outcome_not_written [OF sample_lib_api, of "[SuccessfulCondition ConditionTrue 1 ReasonApplied []]" 5
      "SuccessfulCondition ConditionTrue 2 ReasonApplied []"]
  by (simp add: sample_lib_def find_condition_def same_outcome_def SuccessfulCondition_def)


end
