(* ===== verification/JsonMarshal.thy ===== *)
theory JsonMarshal
  imports Json
begin

text \<open>
  \<open>json.Marshal\<close> on the values the decoder makes, as the read controller uses it to bring observed
  content into a canonical form, and the proof that decoding what it prints gives the value back.
\<close>

section \<open>Printing\<close>

text \<open>\<open>appendString\<close> with HTML escaping, one step for each rune in front of the input.\<close>

definition marshal_ascii :: "char \<Rightarrow> string" where
  "marshal_ascii c =
     (if c = CHR 0x5C \<or> c = CHR 0x22 then [CHR 0x5C, c]
      else if c = CHR 0x08 then [CHR 0x5C, CHR ''b'']
      else if c = CHR 0x0C then [CHR 0x5C, CHR ''f'']
      else if c = CHR 0x0A then [CHR 0x5C, CHR ''n'']
      else if c = CHR 0x0D then [CHR 0x5C, CHR ''r'']
      else if c = CHR 0x09 then [CHR 0x5C, CHR ''t'']
      else if (of_char c :: nat) < 32 \<or> c = CHR ''<'' \<or> c = CHR ''>'' \<or> c = CHR ''&'' then
        [CHR 0x5C, CHR ''u'', CHR ''0'', CHR ''0'', hexdigit (of_char c div 16), hexdigit (of_char c)]
      else [c])"

definition line_separator :: string where
  "line_separator = [CHR 0xE2, CHR 0x80, CHR 0xA8]"

definition paragraph_separator :: string where
  "paragraph_separator = [CHR 0xE2, CHR 0x80, CHR 0xA9]"

definition marshal_rune :: "string \<Rightarrow> string" where
  "marshal_rune r =
     (if length r = 1 then marshal_ascii (hd r)
      else if r = line_separator then [CHR 0x5C] @ ''u2028''
      else if r = paragraph_separator then [CHR 0x5C] @ ''u2029''
      else r)"

function marshal_body :: "string \<Rightarrow> string" where
  "marshal_body s =
     (if s = [] then []
      else if utf8_len s = 0 then [CHR 0x5C] @ ''ufffd'' @ marshal_body (tl s)
      else marshal_rune (take (utf8_len s) s) @ marshal_body (drop (utf8_len s) s))"
  by pat_completeness auto
termination
  by (relation "measure length") auto

declare marshal_body.simps [simp del]

definition marshal_string :: "string \<Rightarrow> string" where
  "marshal_string s = [CHR 0x22] @ marshal_body s @ [CHR 0x22]"

text \<open>The keys of a map are printed in their order; an object is kept sorted.\<close>

fun marshal_value :: "json \<Rightarrow> string" where
  "marshal_value JNull = ''null''"
| "marshal_value (JBool b) = (if b then ''true'' else ''false'')"
| "marshal_value (JNumber n) = (if n = [] then ''0'' else n)"
| "marshal_value (JString s) = marshal_string s"
| "marshal_value (JArray vs) = ''['' @ join_with '','' (map marshal_value vs) @ '']''"
| "marshal_value (JObject ms) =
     ''{'' @ join_with '','' (map (\<lambda>(k, v). marshal_string k @ '':'' @ marshal_value v) ms) @ ''}''"

text \<open>\<open>isValidNumber\<close>; a \<open>json.Number\<close> that is no number is the error \<open>Marshal\<close> can report.\<close>

definition isValidNumber :: "string \<Rightarrow> bool" where
  "isValidNumber n \<longleftrightarrow> (case parse_number n of Some (x, r) \<Rightarrow> r = [] | None \<Rightarrow> False)"

fun first_invalid :: "json \<Rightarrow> string option" where
  "first_invalid JNull = None"
| "first_invalid (JBool b) = None"
| "first_invalid (JNumber n) = (if n = [] \<or> isValidNumber n then None else Some n)"
| "first_invalid (JString s) = None"
| "first_invalid (JArray vs) = (case filter (\<lambda>x. x \<noteq> None) (map first_invalid vs) of [] \<Rightarrow> None | x # _ \<Rightarrow> x)"
| "first_invalid (JObject ms) =
     (case filter (\<lambda>x. x \<noteq> None) (map (\<lambda>(k, v). first_invalid v) ms) of [] \<Rightarrow> None | x # _ \<Rightarrow> x)"

definition json_Marshal :: "json \<Rightarrow> bytes result" where
  "json_Marshal v =
     (case first_invalid v of
        None \<Rightarrow> Inr (marshal_value v)
      | Some n \<Rightarrow> Inl (ErrorString (''json: invalid number literal '' @ quote n)))"

section \<open>Runes\<close>

definition is_rune :: "string \<Rightarrow> bool" where
  "is_rune r \<longleftrightarrow> r \<noteq> [] \<and> utf8_len r = length r"

definition valid_utf8 :: "string \<Rightarrow> bool" where
  "valid_utf8 s \<longleftrightarrow> (\<exists>rs. s = concat rs \<and> list_all is_rune rs)"

lemma valid_utf8_Nil [simp]: "valid_utf8 []"
  unfolding valid_utf8_def by (rule exI [of _ "[]"]) simp

lemma valid_utf8_append: "valid_utf8 s \<Longrightarrow> valid_utf8 t \<Longrightarrow> valid_utf8 (s @ t)"
  unfolding valid_utf8_def by (metis concat_append list_all_append)

lemma valid_utf8_rune: "is_rune r \<Longrightarrow> valid_utf8 r"
  unfolding valid_utf8_def by (rule exI [of _ "[r]"]) simp

lemma in_range_disjoint: "in_range lo hi a \<Longrightarrow> hi < lo' \<or> hi' < lo \<Longrightarrow> \<not> in_range lo' hi' a"
  by (auto simp: in_range_def)

definition second3 :: "char \<Rightarrow> char \<Rightarrow> bool" where
  "second3 a b \<longleftrightarrow> in_range (if a = CHR 0xE0 then 0xA0 else 0x80) (if a = CHR 0xED then 0x9F else 0xBF) b"

definition second4 :: "char \<Rightarrow> char \<Rightarrow> bool" where
  "second4 a b \<longleftrightarrow> in_range (if a = CHR 0xF0 then 0x90 else 0x80) (if a = CHR 0xF4 then 0x8F else 0xBF) b"

lemma utf8_len_simps:
  "in_range 0 0x7F a \<Longrightarrow> utf8_len (a # r) = 1"
  "in_range 0xC2 0xDF a \<Longrightarrow> in_range 0x80 0xBF b \<Longrightarrow> utf8_len (a # b # r) = 2"
  "in_range 0xE0 0xEF a \<Longrightarrow> second3 a b \<Longrightarrow> in_range 0x80 0xBF c \<Longrightarrow> utf8_len (a # b # c # r) = 3"
  "in_range 0xF0 0xF4 a \<Longrightarrow> second4 a b \<Longrightarrow> in_range 0x80 0xBF c \<Longrightarrow> in_range 0x80 0xBF d \<Longrightarrow>
     utf8_len (a # b # c # d # r) = 4"
  by (simp_all add: utf8_len_def second3_def second4_def in_range_disjoint)

lemma utf8_len_cases [consumes 1, case_names one two three four]:
  assumes "0 < utf8_len s"
  obtains a r where "s = a # r" "in_range 0 0x7F a"
  | a b r where "s = a # b # r" "in_range 0xC2 0xDF a" "in_range 0x80 0xBF b"
  | a b c r where "s = a # b # c # r" "in_range 0xE0 0xEF a" "second3 a b" "in_range 0x80 0xBF c"
  | a b c d r where "s = a # b # c # d # r" "in_range 0xF0 0xF4 a" "second4 a b"
      "in_range 0x80 0xBF c" "in_range 0x80 0xBF d"
proof -
  obtain a r where s: "s = a # r" using assms by (cases s) (simp_all add: utf8_len_def)
  consider "in_range 0 0x7F a" | "in_range 0xC2 0xDF a" | "in_range 0xE0 0xEF a" | "in_range 0xF0 0xF4 a"
    using assms unfolding s by (simp add: utf8_len_def split: if_splits)
  then show ?thesis
  proof cases
    case 2
    then show ?thesis using assms that(2) unfolding s
      by (simp add: utf8_len_def in_range_disjoint split: list.splits if_splits)
  next
    case 3
    then show ?thesis using assms that(3) unfolding s second3_def
      by (simp add: utf8_len_def in_range_disjoint split: list.splits if_split_asm)
  next
    case 4
    then show ?thesis using assms that(4) unfolding s second4_def
      by (simp add: utf8_len_def in_range_disjoint split: list.splits if_split_asm)
  qed (rule that(1) [OF s])
qed

lemma utf8_len_take:
  assumes "0 < utf8_len s"
  shows "utf8_len (take (utf8_len s) s @ t) = utf8_len s"
  using assms by (cases rule: utf8_len_cases) (simp_all add: utf8_len_simps)

lemma utf8_len_le: "utf8_len s \<le> length s"
  by (simp add: utf8_len_def split: list.split)

lemma utf8_len_rune: "is_rune r \<Longrightarrow> utf8_len (r @ t) = length r"
  using utf8_len_take [of r t] by (simp add: is_rune_def)

lemma is_rune_take: "0 < utf8_len s \<Longrightarrow> is_rune (take (utf8_len s) s)"
  using utf8_len_take [of s "[]"] utf8_len_le [of s] by (auto simp: is_rune_def min_def)

lemma marshal_body_rune: "is_rune r \<Longrightarrow> marshal_body (r @ s) = marshal_rune r @ marshal_body s"
  by (subst marshal_body.simps) (auto simp: utf8_len_rune is_rune_def)

section \<open>Strings read back\<close>

lemma is_rune_length1: "is_rune [c] \<longleftrightarrow> (of_char c :: nat) < 128"
  by (auto simp: is_rune_def utf8_len_def in_range_def)

lemma is_rune_head:
  assumes "is_rune r" "length r \<noteq> 1"
  obtains a t where "r = a # t" "(of_char a :: nat) \<ge> 128"
proof -
  have pos: "0 < utf8_len r" using assms(1) by (simp add: is_rune_def)
  have len: "utf8_len r = length r" using assms(1) by (simp add: is_rune_def)
  from pos show ?thesis
    by (cases rule: utf8_len_cases)
      (use len assms(2) in \<open>auto simp: utf8_len_simps in_range_def intro!: that\<close>)
qed

lemma hex_value_hexdigit: "n < 16 \<Longrightarrow> hex_value (hexdigit n) = Some n"
proof -
  have "\<forall>n \<in> set [0..<16]. hex_value (hexdigit n) = Some n" by code_simp
  then show "n < 16 \<Longrightarrow> hex_value (hexdigit n) = Some n" by simp
qed

lemma hexdigit_mod: "hexdigit (n mod 16) = hexdigit n"
  by (simp add: hexdigit_def)

lemma hex4_ascii:
  assumes "(of_char c :: nat) < 128"
  shows "hex4 (CHR ''0'' # CHR ''0'' # hexdigit (of_char c div 16) # hexdigit (of_char c) # r) = Some (of_char c, r)"
proof -
  have "hex_value (CHR ''0'') = Some 0" by code_simp
  moreover have "hex_value (hexdigit (of_char c div 16)) = Some (of_char c div 16)"
    using assms by (intro hex_value_hexdigit) simp
  moreover have "hex_value (hexdigit (of_char c)) = Some (of_char c mod 16)"
    using hex_value_hexdigit [of "of_char c mod 16"] by (simp add: hexdigit_mod)
  ultimately show ?thesis by (simp add: hex4_def)
qed

lemma parse_string_escape:
  "parse_escape (e @ r) = Some (x, r) \<Longrightarrow>
     parse_string (CHR 0x5C # e @ r) = map_option (\<lambda>(y, t). (x @ y, t)) (parse_string r)"
  by (subst parse_string.simps) (auto split: option.split)

lemma parse_string_rune:
  assumes "is_rune r"
  shows "parse_string (marshal_rune r @ s) = map_option (\<lambda>(x, t). (r @ x, t)) (parse_string s)"
proof (cases "length r = 1")
  case True
  then obtain c where r: "r = [c]" by (cases r) auto
  then have c: "(of_char c :: nat) < 128" using assms by (simp add: is_rune_length1)
  show ?thesis
  proof (cases "marshal_ascii c = [c]")
    case plain: True
    then have "c \<noteq> CHR 0x22" "c \<noteq> CHR 0x5C" "\<not> (of_char c :: nat) < 32"
      by (auto simp: marshal_ascii_def split: if_splits)
    moreover have "utf8_len (c # s) = 1"
      using utf8_len_rune [of "[c]" s] assms r by simp
    ultimately show ?thesis
      unfolding r marshal_rune_def by (subst parse_string.simps) (simp add: plain split: option.split)
  next
    case False
    obtain e where e: "marshal_ascii c = CHR 0x5C # e" "\<And>t. parse_escape (e @ t) = Some ([c], t)"
    proof (cases "c \<in> {CHR 0x5C, CHR 0x22, CHR 0x08, CHR 0x0C, CHR 0x0A, CHR 0x0D, CHR 0x09}")
      case True
      then show ?thesis
        by (intro that [of "tl (marshal_ascii c)"]) (auto simp: marshal_ascii_def parse_escape_def)
    next
      case u: False
      then have "marshal_ascii c =
          CHR 0x5C # CHR ''u'' # CHR ''0'' # CHR ''0'' # hexdigit (of_char c div 16) # [hexdigit (of_char c)]"
        using False by (simp add: marshal_ascii_def split: if_splits)
      moreover have "encode_rune (of_char c) = [c]" "\<not> is_surrogate (of_char c)"
        using c by (simp_all add: encode_rune_def byte_def is_surrogate_def)
      ultimately show ?thesis
        by (intro that [of "tl (marshal_ascii c)"]) (simp_all add: parse_escape_def hex4_ascii c)
    qed
    show ?thesis
      unfolding r marshal_rune_def using parse_string_escape [OF e(2), of s] by (simp add: e(1))
  qed
next
  case long: False
  obtain a t where r: "r = a # t" and a: "(of_char a :: nat) \<ge> 128"
    using is_rune_head [OF assms long] .
  have sep: "parse_string (CHR 0x5C # e @ s) = map_option (\<lambda>(x, t). (r @ x, t)) (parse_string s)"
    if "\<And>t. parse_escape (e @ t) = Some (r, t)" for e
    using parse_string_escape [OF that] .
  show ?thesis
  proof (cases "r = line_separator \<or> r = paragraph_separator")
    case True
    have separators: "encode_rune 8232 = line_separator" "encode_rune 8233 = paragraph_separator"
      by (simp_all add: encode_rune_def byte_def line_separator_def paragraph_separator_def char_of_def bit_0)
    have "parse_escape (''u2028'' @ t) = Some (line_separator, t)"
      "parse_escape (''u2029'' @ t) = Some (paragraph_separator, t)" for t
      by (simp_all add: parse_escape_def hex4_def hex_value_def Let_def is_surrogate_def separators)
    with True show ?thesis
      using sep [of "''u2028''"] sep [of "''u2029''"] long by (auto simp: marshal_rune_def line_separator_def paragraph_separator_def)
  next
    case False
    have "a \<noteq> CHR 0x22" "a \<noteq> CHR 0x5C" using a by auto
    moreover have "utf8_len (a # t @ s) = length r"
      using utf8_len_rune [OF assms, of s] r by simp
    ultimately have "parse_string (r @ s) = map_option (\<lambda>(x, t). (r @ x, t)) (parse_string s)"
      using a by (subst parse_string.simps) (simp add: r split: option.split)
    with False long show ?thesis by (simp add: marshal_rune_def)
  qed
qed

lemma marshal_body_concat: "list_all is_rune rs \<Longrightarrow> marshal_body (concat rs) = concat (map marshal_rune rs)"
proof (induction rs)
  case Nil
  show ?case by (simp add: marshal_body.simps)
qed (simp add: marshal_body_rune)

lemma parse_string_marshal:
  assumes "valid_utf8 s"
  shows "parse_string (marshal_body s @ CHR 0x22 # r) = Some (s, r)"
proof -
  obtain rs where rs: "s = concat rs" "list_all is_rune rs"
    using assms by (auto simp: valid_utf8_def)
  have "parse_string (concat (map marshal_rune rs) @ CHR 0x22 # r) = Some (concat rs, r)"
    using rs(2)
  proof (induction rs)
    case Nil
    show ?case by (simp add: parse_string.simps)
  next
    case (Cons x xs)
    then show ?case by (simp add: parse_string_rune)
  qed
  then show ?thesis by (simp add: rs marshal_body_concat)
qed

section \<open>What the decoder makes\<close>

lemma is_rune_encode: "is_rune (encode_rune n)"
proof -
  have of_byte: "(of_char (byte m) :: nat) = m" if "m < 256" for m
    using that by (simp add: byte_def)
  have b: "in_range lo hi (byte m) \<longleftrightarrow> lo \<le> m \<and> m \<le> hi" if "m < 256" for lo hi m
    using that by (simp add: in_range_def of_byte)
  have eq: "byte m = CHR 0xE0 \<longleftrightarrow> m = 0xE0" "byte m = CHR 0xED \<longleftrightarrow> m = 0xED"
    "byte m = CHR 0xF0 \<longleftrightarrow> m = 0xF0" "byte m = CHR 0xF4 \<longleftrightarrow> m = 0xF4" if "m < 256" for m
    using that by (simp_all add: byte_def char_of_eq_iff take_bit_eq_mod)
  have cont: "in_range 0x80 0xBF (byte (0x80 + m mod 64))" for m
    by (simp add: b)
  have err: "is_rune rune_error"
    by (simp add: is_rune_def rune_error_def utf8_len_def in_range_def)
  consider "n < 0x80" | "0x80 \<le> n" "n < 0x800" | "0xD800 \<le> n \<and> n < 0xE000 \<or> 0x10FFFF < n"
    | "0x800 \<le> n" "n < 0x10000" "\<not> (0xD800 \<le> n \<and> n < 0xE000)" | "0x10000 \<le> n" "n \<le> 0x10FFFF"
    by linarith
  then show ?thesis
  proof cases
    case 1
    then show ?thesis by (simp add: encode_rune_def is_rune_length1 of_byte)
  next
    case 2
    then have "in_range 0xC2 0xDF (byte (0xC0 + n div 64))" by (subst b) auto
    then show ?thesis using 2 cont [of n] by (simp add: encode_rune_def is_rune_def utf8_len_simps)
  next
    case 3
    then show ?thesis by (auto simp: encode_rune_def err)
  next
    case 4
    then have hi: "n div 4096 < 16" by simp
    then have a: "in_range 0xE0 0xEF (byte (0xE0 + n div 4096))" by (subst b) auto
    have "n div 4096 = n div 64 div 64" by (simp add: div_mult2_eq [symmetric])
    then have "n div 64 mod 64 \<le> 31" if "n div 4096 = 13" "n < 0xD800"
      using that mult_div_mod_eq [of 64 "n div 64"] by simp
    then have "second3 (byte (0xE0 + n div 4096)) (byte (0x80 + n div 64 mod 64))"
      using 4 hi unfolding second3_def by (auto simp: eq b)
    with a show ?thesis using 4 cont [of n] by (auto simp: encode_rune_def is_rune_def utf8_len_simps)
  next
    case 5
    then have hi: "n div 262144 < 5" by simp
    then have a: "in_range 0xF0 0xF4 (byte (0xF0 + n div 262144))" by (subst b) auto
    have "n div 262144 = n div 4096 div 64" by (simp add: div_mult2_eq [symmetric])
    then have "n div 4096 mod 64 \<le> 15" if "n div 262144 = 4"
      using that 5 mult_div_mod_eq [of 64 "n div 4096"] by simp
    then have "second4 (byte (0xF0 + n div 262144)) (byte (0x80 + n div 4096 mod 64))"
      using 5 hi unfolding second4_def by (auto simp: eq b)
    with a show ?thesis using 5 cont [of n] cont [of "n div 64"]
      by (simp add: encode_rune_def is_rune_def utf8_len_simps)
  qed
qed

lemma parse_escape_valid: "parse_escape s = Some (x, r) \<Longrightarrow> valid_utf8 x"
proof -
  have "is_rune rune_error" by (simp add: is_rune_def rune_error_def utf8_len_def in_range_def)
  moreover have "(of_char c :: nat) < 128 \<Longrightarrow> valid_utf8 [c]" for c
    by (rule valid_utf8_rune) (simp add: is_rune_length1)
  moreover assume "parse_escape s = Some (x, r)"
  ultimately show ?thesis
    by (auto simp: parse_escape_def valid_utf8_rune is_rune_encode
        split: list.splits if_splits option.splits)
qed

lemma parse_string_valid: "parse_string s = Some (x, r) \<Longrightarrow> valid_utf8 x"
proof (induction s arbitrary: x r rule: parse_string.induct)
  case (1 s)
  have err: "valid_utf8 rune_error"
    by (rule valid_utf8_rune) (simp add: is_rune_def rune_error_def utf8_len_def in_range_def)
  show ?case
  proof (cases s)
    case Nil
    with "1.prems" show ?thesis by (simp add: parse_string.simps [of "[]"])
  next
    case (Cons c t)
    have run: "0 < utf8_len s \<Longrightarrow> valid_utf8 (take (utf8_len s) s)"
      by (intro valid_utf8_rune is_rune_take)
    show ?thesis
      using "1.prems" Cons "1.IH" [OF Cons] err run
      by (auto simp: parse_string.simps [of "c # t"] intro!: valid_utf8_append dest: parse_escape_valid
          split: option.splits if_splits prod.splits)
  qed
qed

definition stops :: "string \<Rightarrow> bool" where
  "stops r \<longleftrightarrow> (case r of [] \<Rightarrow> True | c # _ \<Rightarrow> c = CHR '','' \<or> c = CHR '']'' \<or> c = CHR ''}'')"

section \<open>Numbers read back\<close>

definition number_char :: "char \<Rightarrow> bool" where
  "number_char c \<longleftrightarrow> is_digit c \<or> c = CHR ''.'' \<or> c = CHR ''e'' \<or> c = CHR ''E'' \<or> c = CHR ''+'' \<or> c = CHR ''-''"

definition digits_ok :: "string \<Rightarrow> bool" where
  "digits_ok d \<longleftrightarrow> d \<noteq> [] \<and> list_all is_digit d"

definition int_ok :: "string \<Rightarrow> bool" where
  "int_ok i \<longleftrightarrow> i = ''0'' \<or> digits_ok i \<and> hd i \<noteq> CHR ''0''"

definition frac_ok :: "string \<Rightarrow> bool" where
  "frac_ok f \<longleftrightarrow> f = [] \<or> (\<exists>d. f = CHR ''.'' # d \<and> digits_ok d)"

definition exp_ok :: "string \<Rightarrow> bool" where
  "exp_ok e \<longleftrightarrow>
     (case e of
        [] \<Rightarrow> True
      | c # r \<Rightarrow> (c = CHR ''e'' \<or> c = CHR ''E'') \<and>
          (digits_ok r \<or> r \<noteq> [] \<and> (hd r = CHR ''+'' \<or> hd r = CHR ''-'') \<and> digits_ok (tl r)))"

lemma is_digit_not:
  "is_digit c \<Longrightarrow> c \<noteq> CHR ''+'' \<and> c \<noteq> CHR ''-'' \<and> c \<noteq> CHR ''.'' \<and> c \<noteq> CHR ''e'' \<and> c \<noteq> CHR ''E''"
  by (auto simp: is_digit_def)

lemma digits1_shape: "digits1 s = Some (d, r) \<Longrightarrow> digits_ok d"
  by (auto simp: digits1_def digits_ok_def Let_def list_all_iff dest: set_takeWhileD split: if_splits)

lemma digits1_again:
  "digits_ok d \<Longrightarrow> t = [] \<or> \<not> is_digit (hd t) \<Longrightarrow> digits1 (d @ t) = Some (d, t)"
proof -
  assume d: "digits_ok d" and t: "t = [] \<or> \<not> is_digit (hd t)"
  have "takeWhile is_digit t = []" "dropWhile is_digit t = t" using t by (cases t; simp)+
  with d show ?thesis by (simp add: digits_ok_def digits1_def list_all_iff)
qed

lemma parse_number_shape:
  assumes "parse_number s = Some (x, r)"
  obtains sg i f e where "x = sg @ i @ f @ e" "sg = [] \<or> sg = ''-''" "int_ok i" "frac_ok f" "exp_ok e"
proof -
  have i: "parse_int_part t = Some (y, u) \<Longrightarrow> int_ok y" for t y u
    by (auto simp: parse_int_part_def int_ok_def digits1_def Let_def dest: digits1_shape
        split: list.splits if_splits)
      (auto simp: digits_ok_def list_all_iff dest: set_takeWhileD)
  have f: "parse_frac t = Some (y, u) \<Longrightarrow> frac_ok y" for t y u
    by (auto simp: parse_frac_def frac_ok_def dest: digits1_shape split: list.splits if_splits option.splits)
  have e: "parse_exp t = Some (y, u) \<Longrightarrow> exp_ok y" for t y u
    by (auto simp: parse_exp_def exp_ok_def Let_def dest: digits1_shape
        split: list.splits if_splits option.splits prod.splits)
  from assms show ?thesis
    unfolding parse_number_def Let_def
    by (auto split: prod.splits option.splits list.splits if_splits intro!: that dest: i f e)
qed

lemma parse_exp_again:
  assumes "exp_ok e" "t = [] \<or> \<not> number_char (hd t)"
  shows "parse_exp (e @ t) = Some (e, t)"
proof (cases e)
  case Nil
  then show ?thesis using assms(2) by (cases t) (auto simp: parse_exp_def number_char_def)
next
  case (Cons c r)
  have again: "digits1 (d @ t) = Some (d, t)" if "digits_ok d" for d
    using digits1_again [OF that] assms(2) by (auto simp: number_char_def)
  from assms(1) Cons consider "digits_ok r" | x d where "r = x # d" "x = CHR ''+'' \<or> x = CHR ''-''" "digits_ok d"
    by (cases r) (auto simp: exp_ok_def)
  then show ?thesis
  proof cases
    case 1
    then obtain x d where "r = x # d" "is_digit x" by (cases r) (auto simp: digits_ok_def)
    then show ?thesis using again [OF 1] assms(1) Cons is_digit_not [of x]
      by (auto simp: parse_exp_def exp_ok_def)
  next
    case 2
    then show ?thesis using again [OF 2(3)] assms(1) Cons by (auto simp: parse_exp_def exp_ok_def)
  qed
qed

lemma parse_number_again:
  assumes "sg = [] \<or> sg = ''-''" "int_ok i" "frac_ok f" "exp_ok e" "t = [] \<or> \<not> number_char (hd t)"
  shows "parse_number (sg @ i @ f @ e @ t) = Some (sg @ i @ f @ e, t)"
proof -
  have e: "parse_exp (e @ t) = Some (e, t)" using parse_exp_again [OF assms(4,5)] .
  have hd_e: "e @ t = [] \<or> \<not> is_digit (hd (e @ t)) \<and> hd (e @ t) \<noteq> CHR ''.''"
    using assms(4,5) by (cases e) (auto simp: exp_ok_def number_char_def dest: is_digit_not)
  have f: "parse_frac (f @ e @ t) = Some (f, e @ t)"
  proof (cases "f = []")
    case True
    then show ?thesis using hd_e by (cases "e @ t") (auto simp: parse_frac_def)
  next
    case False
    then obtain d where "f = CHR ''.'' # d" "digits_ok d" using assms(3) by (auto simp: frac_ok_def)
    then show ?thesis using digits1_again [of d "e @ t"] hd_e by (auto simp: parse_frac_def)
  qed
  have hd_f: "f @ e @ t = [] \<or> \<not> is_digit (hd (f @ e @ t))"
    using assms(3) hd_e by (auto simp: frac_ok_def dest: is_digit_not)
  have i: "parse_int_part (i @ f @ e @ t) = Some (i, f @ e @ t)"
  proof (cases "i = ''0''")
    case False
    then have "digits_ok i" "hd i \<noteq> CHR ''0''" using assms(2) by (auto simp: int_ok_def)
    then show ?thesis
      using digits1_again [of i "f @ e @ t"] hd_f
      by (cases i) (auto simp: parse_int_part_def digits_ok_def)
  qed (simp add: parse_int_part_def)
  have "i \<noteq> []" "hd i \<noteq> CHR ''-''"
    using assms(2) by (cases i; auto simp: int_ok_def digits_ok_def dest: is_digit_not)+
  then show ?thesis
    using assms(1) i f e by (cases i) (auto simp: parse_number_def)
qed

lemma isValidNumber_again:
  assumes "isValidNumber n" "t = [] \<or> \<not> number_char (hd t)"
  shows "parse_number (n @ t) = Some (n, t)"
proof -
  have consume: "parse_number s = Some (x, r) \<Longrightarrow> s = x @ r" for s x r
  proof -
    have d: "digits1 t = Some (y, u) \<Longrightarrow> t = y @ u" for t y u
      by (auto simp: digits1_def Let_def split: if_splits)
    have parts: "parse_int_part t = Some (y, u) \<Longrightarrow> t = y @ u" "parse_frac t = Some (y, u) \<Longrightarrow> t = y @ u"
      "parse_exp t = Some (y, u) \<Longrightarrow> t = y @ u" for t y u
      by (auto simp: parse_int_part_def parse_frac_def parse_exp_def Let_def dest!: d
          split: list.splits if_splits option.splits prod.splits)
    show "parse_number s = Some (x, r) \<Longrightarrow> s = x @ r"
      by (auto simp: parse_number_def Let_def dest!: parts split: list.splits if_splits option.splits prod.splits)
  qed
  obtain x where "parse_number n = Some (x, [])"
    using assms(1) by (auto simp: isValidNumber_def split: option.splits)
  moreover from consume [OF this] have "x = n" by simp
  ultimately obtain sg i f e where "n = sg @ i @ f @ e" "sg = [] \<or> sg = ''-''" "int_ok i" "frac_ok f" "exp_ok e"
    using parse_number_shape by metis
  then show ?thesis using parse_number_again assms(2) by simp
qed

lemma parse_number_valid: "parse_number s = Some (x, r) \<Longrightarrow> isValidNumber x"
proof -
  assume "parse_number s = Some (x, r)"
  then obtain sg i f e where "x = sg @ i @ f @ e" "sg = [] \<or> sg = ''-''" "int_ok i" "frac_ok f" "exp_ok e"
    by (rule parse_number_shape)
  then show ?thesis using parse_number_again [of sg i f e "[]"] by (simp add: isValidNumber_def)
qed

lemma isValidNumber_head:
  assumes "isValidNumber n"
  obtains c r where "n = c # r" "c = CHR ''-'' \<or> is_digit c"
proof -
  obtain x where "parse_number n = Some (x, [])"
    using assms by (auto simp: isValidNumber_def split: option.splits)
  then show ?thesis
    by (cases n) (auto simp: parse_number_def parse_int_part_def digits1_def Let_def is_digit_def
        intro!: that split: if_splits option.splits)
qed

section \<open>Values read back\<close>

text \<open>The values the decoder makes, with at most \<open>d\<close> containers open.\<close>

fun json_ok :: "nat \<Rightarrow> json \<Rightarrow> bool" where
  "json_ok d JNull = True"
| "json_ok d (JBool b) = True"
| "json_ok d (JNumber n) = isValidNumber n"
| "json_ok d (JString s) = valid_utf8 s"
| "json_ok d (JArray vs) = (0 < d \<and> (\<forall>v \<in> set vs. json_ok (d - 1) v))"
| "json_ok d (JObject ms) =
     (0 < d \<and> keys_sorted ms \<and> (\<forall>(k, v) \<in> set ms. valid_utf8 k \<and> json_ok (d - 1) v))"

lemma set_obj_put: "set (obj_put k v m) \<subseteq> insert (k, v) (set m)"
  by (induction k v m rule: obj_put.induct) auto

lemma set_obj_of: "set (obj_of ps) \<subseteq> set ps"
proof (induction ps rule: rev_induct)
  case (snoc p ps)
  then show ?case using set_obj_put [of "fst p" "snd p" "obj_of ps"] by (cases p) (auto simp: obj_of_snoc)
qed (simp add: obj_of_def)

lemma map_of_rev_distinct: "distinct (map fst ms) \<Longrightarrow> map_of (rev ms) k = map_of ms k"
  by (rule map_of_eqI [THEN fun_cong]) (auto simp: rev_map [symmetric])

lemma obj_of_sorted_same:
  assumes "keys_sorted ms"
  shows "obj_of ms = ms"
proof (rule keys_sorted_unique [OF obj_of_sorted assms])
  show "map_of (obj_of ms) = map_of ms"
    using assms by (simp add: obj_of_lookup fun_eq_iff map_of_rev_distinct)
qed

lemma parse_json_ok:
  "parse_value f d s = Some (v, r) \<Longrightarrow> json_ok d v"
  "parse_elems f d s = Some (vs, r) \<Longrightarrow> \<forall>v \<in> set vs. json_ok d v"
  "parse_members f d s = Some (ms, r) \<Longrightarrow> \<forall>(k, v) \<in> set ms. valid_utf8 k \<and> json_ok d v"
proof (induction f arbitrary: d s v vs ms r)
  case 0
  { case 1 then show ?case by simp }
  { case 2 then show ?case by simp }
  { case 3 then show ?case by simp }
next
  case (Suc f)
  { case 1
    have "json_ok d (JObject (obj_of ms))"
      if "parse_members f (d - 1) t = Some (ms, r)" "d \<noteq> 0" for ms t
      using Suc.IH(3) [OF that(1)] that(2) set_obj_of [of ms] obj_of_sorted [of ms] by auto
    moreover have "json_ok d (JArray vs)" if "parse_elems f (d - 1) t = Some (vs, r)" "d \<noteq> 0" for vs t
      using Suc.IH(2) [OF that(1)] that(2) by simp
    ultimately show ?case using 1
      by (auto simp del: json_ok.simps(5,6) dest: parse_string_valid parse_number_valid
          split: list.splits if_splits) simp_all }
  { case 2 then show ?case
      by (auto split: option.splits list.splits if_splits dest!: Suc.IH) }
  { case 3 then show ?case
      by (simp split: option.splits list.splits if_splits prod.splits)
        (auto dest!: Suc.IH(1,3) parse_string_valid) }
qed

lemma json_decode_ok: "json_decode s = Some v \<Longrightarrow> json_ok max_depth v"
  by (auto simp: json_decode_def simp del: parse_value.simps dest: parse_json_ok(1) split: option.splits if_splits)

lemma skip_ws_Cons: "\<not> is_space c \<Longrightarrow> skip_ws (c # s) = c # s"
  by (simp add: skip_ws_def)

lemma not_space:
  "\<not> is_space (CHR 0x22)" "\<not> is_space (CHR ''{'')" "\<not> is_space (CHR ''['')" "\<not> is_space (CHR ''}'')"
  "\<not> is_space (CHR '']'')" "\<not> is_space (CHR '','')" "\<not> is_space (CHR '':'')" "\<not> is_space (CHR ''t'')"
  "\<not> is_space (CHR ''f'')" "\<not> is_space (CHR ''n'')" "\<not> is_space (CHR ''-'')" "is_digit c \<Longrightarrow> \<not> is_space c"
  by (auto simp: is_space_def is_digit_def)

lemma marshal_head:
  assumes "json_ok d v"
  obtains c s where "marshal_value v = c # s" "\<not> is_space c" "c \<noteq> CHR '']''"
proof (cases v)
  case (JBool b)
  then show ?thesis using that by (cases b) (auto simp: not_space)
next
  case (JNumber n)
  with assms obtain c r where "n = c # r" "c = CHR ''-'' \<or> is_digit c" by (auto elim: isValidNumber_head)
  moreover from this(2) have "c \<noteq> CHR '']''" "\<not> is_space c" by (auto simp: is_digit_def is_space_def)
  ultimately show ?thesis using JNumber that by simp
qed (use that in \<open>auto simp: not_space marshal_string_def\<close>)

definition reads_back :: "json \<Rightarrow> bool" where
  "reads_back v \<longleftrightarrow> (\<forall>d r f. json_ok d v \<longrightarrow> stops r \<longrightarrow> 2 * length (marshal_value v @ r) < f \<longrightarrow>
     parse_value f d (marshal_value v @ r) = Some (v, r))"

lemma reads_backD:
  "reads_back v \<Longrightarrow> json_ok d v \<Longrightarrow> stops r \<Longrightarrow> 2 * length (marshal_value v @ r) < f \<Longrightarrow>
     parse_value f d (marshal_value v @ r) = Some (v, r)"
  by (simp add: reads_back_def)

lemma stops_Cons: "stops (CHR '','' # r)" "stops (CHR '']'' # r)" "stops (CHR ''}'' # r)"
  by (simp_all add: stops_def)

lemma parse_elems_marshal:
  assumes "\<forall>v \<in> set vs. reads_back v \<and> json_ok d v" "vs \<noteq> []"
    "2 * length (join_with '','' (map marshal_value vs) @ CHR '']'' # r) + 1 < f"
  shows "parse_elems f d (join_with '','' (map marshal_value vs) @ CHR '']'' # r) = Some (vs, r)"
  using assms
proof (induction vs arbitrary: f)
  case (Cons v vs)
  obtain g where f: "f = Suc g" using Cons.prems(3) by (cases f) auto
  show ?case
  proof (cases "vs = []")
    case True
    then have "parse_value g d (marshal_value v @ CHR '']'' # r) = Some (v, CHR '']'' # r)"
      using Cons.prems by (intro reads_backD) (auto simp: f stops_Cons)
    then show ?thesis using True by (simp add: f skip_ws_Cons not_space)
  next
    case False
    let ?rest = "join_with '','' (map marshal_value vs) @ CHR '']'' # r"
    have "parse_value g d (marshal_value v @ CHR '','' # ?rest) = Some (v, CHR '','' # ?rest)"
      using Cons.prems False by (intro reads_backD) (auto simp: f stops_Cons)
    moreover have "parse_elems g d ?rest = Some (vs, r)"
      using Cons.prems False by (intro Cons.IH) (auto simp: f)
    ultimately show ?thesis using False by (simp add: f skip_ws_Cons not_space)
  qed
qed simp

abbreviation marshal_member :: "string \<times> json \<Rightarrow> string" where
  "marshal_member \<equiv> \<lambda>(k, v). marshal_string k @ '':'' @ marshal_value v"

lemma parse_members_marshal:
  assumes "\<forall>(k, v) \<in> set ms. valid_utf8 k \<and> reads_back v \<and> json_ok d v" "ms \<noteq> []"
    "2 * length (join_with '','' (map marshal_member ms) @ CHR ''}'' # r) + 1 < f"
  shows "parse_members f d (join_with '','' (map marshal_member ms) @ CHR ''}'' # r) = Some (ms, r)"
  using assms
proof (induction ms arbitrary: f)
  case (Cons m ms)
  obtain k v where m: "m = (k, v)" by (cases m)
  obtain g where f: "f = Suc g" using Cons.prems(3) by (cases f) auto
  have key: "parse_string (marshal_body k @ CHR 0x22 # t) = Some (k, t)" for t
    using Cons.prems(1) by (simp add: m parse_string_marshal)
  show ?case
  proof (cases "ms = []")
    case True
    then have "parse_value g d (marshal_value v @ CHR ''}'' # r) = Some (v, CHR ''}'' # r)"
      using Cons.prems by (intro reads_backD) (auto simp: f m stops_Cons)
    then show ?thesis using True by (simp add: f m marshal_string_def key skip_ws_Cons not_space)
  next
    case False
    let ?rest = "join_with '','' (map marshal_member ms) @ CHR ''}'' # r"
    have "parse_value g d (marshal_value v @ CHR '','' # ?rest) = Some (v, CHR '','' # ?rest)"
      using Cons.prems False by (intro reads_backD) (auto simp: f m stops_Cons)
    moreover have "parse_members g d ?rest = Some (ms, r)"
      using Cons.prems False by (intro Cons.IH) (auto simp: f m)
    ultimately show ?thesis using False by (simp add: f m marshal_string_def key skip_ws_Cons not_space)
  qed
qed simp

lemma stops_not_number: "stops r \<Longrightarrow> r = [] \<or> \<not> number_char (hd r)"
  by (cases r) (auto simp: stops_def number_char_def is_digit_def)

lemma reads_back_number: "reads_back (JNumber n)"
  unfolding reads_back_def
proof (intro allI impI)
  fix d r f
  assume n: "json_ok d (JNumber n)" and "stops r" and f: "2 * length (marshal_value (JNumber n) @ r) < f"
  then have again: "parse_number (n @ r) = Some (n, r)"
    by (simp add: isValidNumber_again stops_not_number)
  from n obtain c t where c: "n = c # t" "c = CHR ''-'' \<or> is_digit c" by (auto elim: isValidNumber_head)
  obtain g where g: "f = Suc g" using f by (cases f) auto
  have "c \<notin> {CHR ''{'', CHR ''['', CHR 0x22, CHR ''t'', CHR ''f'', CHR ''n''}" "\<not> is_space c"
    using c(2) by (auto simp: is_digit_def is_space_def)
  then show "parse_value f d (marshal_value (JNumber n) @ r) = Some (JNumber n, r)"
    using again by (simp add: g c(1) skip_ws_Cons)
qed

lemma reads_back_array:
  assumes "\<And>v. v \<in> set vs \<Longrightarrow> reads_back v"
  shows "reads_back (JArray vs)"
  unfolding reads_back_def
proof (intro allI impI)
  fix d r f
  assume ok: "json_ok d (JArray vs)" and f: "2 * length (marshal_value (JArray vs) @ r) < f"
  obtain g where g: "f = Suc g" using f by (cases f) auto
  show "parse_value f d (marshal_value (JArray vs) @ r) = Some (JArray vs, r)"
  proof (cases "vs = []")
    case True
    then show ?thesis using ok by (simp add: g skip_ws_Cons not_space)
  next
    case False
    then obtain v ws where vs: "vs = v # ws" by (cases vs) auto
    obtain c s where c: "marshal_value v = c # s" "\<not> is_space c" "c \<noteq> CHR '']''"
      using marshal_head [of "d - 1" v] ok vs by auto
    obtain t where t: "join_with '','' (map marshal_value vs) = c # t"
      by (cases "ws = []") (simp_all add: vs c(1))
    have "parse_elems g (d - 1) (join_with '','' (map marshal_value vs) @ CHR '']'' # r) = Some (vs, r)"
      using ok f False assms by (intro parse_elems_marshal) (auto simp: g)
    then show ?thesis using ok c(2,3) by (simp add: g t skip_ws_Cons not_space)
  qed
qed

lemma reads_back_object:
  assumes "\<And>k v. (k, v) \<in> set ms \<Longrightarrow> reads_back v"
  shows "reads_back (JObject ms)"
  unfolding reads_back_def
proof (intro allI impI)
  fix d r f
  assume ok: "json_ok d (JObject ms)" and f: "2 * length (marshal_value (JObject ms) @ r) < f"
  obtain g where g: "f = Suc g" using f by (cases f) auto
  show "parse_value f d (marshal_value (JObject ms) @ r) = Some (JObject ms, r)"
  proof (cases "ms = []")
    case True
    then show ?thesis using ok by (simp add: g skip_ws_Cons not_space)
  next
    case False
    obtain s where s: "join_with '','' (map marshal_member ms) = CHR 0x22 # s"
      using False by (cases ms; cases "tl ms = []") (auto simp: marshal_string_def)
    have "parse_members g (d - 1) (join_with '','' (map marshal_member ms) @ CHR ''}'' # r) = Some (ms, r)"
      using ok f False assms by (intro parse_members_marshal) (auto simp: g)
    moreover have "obj_of ms = ms" using ok by (simp add: obj_of_sorted_same)
    ultimately show ?thesis using ok by (simp add: g s [simplified] skip_ws_Cons not_space)
  qed
qed

lemma reads_back: "reads_back v"
proof (induction v)
  case (JArray vs)
  then show ?case by (rule reads_back_array)
next
  case (JObject ms)
  then show ?case by (intro reads_back_object) (auto simp: fsts.simps snds.simps)
next
  case (JNumber n)
  show ?case by (rule reads_back_number)
next
  case JNull
  show ?case unfolding reads_back_def by (auto simp: gr0_conv_Suc skip_ws_Cons not_space eat_def elim!: less_natE)
next
  case (JBool b)
  show ?case unfolding reads_back_def
    by (cases b) (auto simp: skip_ws_Cons not_space eat_def elim!: less_natE)
next
  case (JString s)
  show ?case unfolding reads_back_def marshal_string_def
    by (auto simp: skip_ws_Cons not_space parse_string_marshal marshal_string_def elim!: less_natE)
qed

lemma decode_marshal:
  assumes "json_ok max_depth v"
  shows "json_decode (marshal_value v) = Some v"
proof -
  have "parse_value (Suc (2 * length (marshal_value v))) max_depth (marshal_value v @ []) = Some (v, [])"
    using assms by (intro reads_backD [OF reads_back]) (simp_all add: stops_def)
  then show ?thesis by (simp add: json_decode_def skip_ws_def del: parse_value.simps)
qed

lemma marshal_inject:
  "json_ok max_depth v \<Longrightarrow> json_ok max_depth w \<Longrightarrow> marshal_value v = marshal_value w \<longleftrightarrow> v = w"
  by (metis decode_marshal option.inject)

lemma first_invalid_ok: "json_ok d v \<Longrightarrow> first_invalid v = None"
proof (induction v arbitrary: d)
  case (JArray vs)
  then have "map first_invalid vs = map (\<lambda>v. None) vs" by auto
  then show ?case by simp
next
  case (JObject ms)
  then have "map (\<lambda>(k, v). first_invalid v) ms = map (\<lambda>m. None) ms"
    by (auto simp: fsts.simps snds.simps)
  then show ?case by simp
qed auto

lemma json_Marshal_ok: "json_ok d v \<Longrightarrow> json_Marshal v = Inr (marshal_value v)"
  by (simp add: json_Marshal_def first_invalid_ok)

end
