(* ===== verification/ReadStatus.thy ===== *)
theory ReadStatus
  imports Reconciler JsonMarshal
begin

text \<open>
  \<open>internal/controllers/readdesire/status.go\<close>: the statuses the read controller writes, and the
  comparison that suppresses a redundant write. Observed content is compared in a canonical form
  without the metadata the API server changes on every write.
\<close>

section \<open>Statuses\<close>

definition withReadCondition ::
  "kube_lib \<Rightarrow> ('w, timestamp) state \<Rightarrow> ReadStatus \<Rightarrow> Condition \<Rightarrow> bytes \<Rightarrow> ('w, ReadStatus) state" where
  "withReadCondition k clock status cond kubeContent = do {
     st \<leftarrow> with_condition k clock (rs_Status status) cond;
     State_Monad.return \<lparr>rs_Status = st, rs_KubeContent = kubeContent\<rparr>
   }"

definition synced ::
  "kube_lib \<Rightarrow> ('w, timestamp) state \<Rightarrow> ReadStatus \<Rightarrow> int64 \<Rightarrow> bytes \<Rightarrow> ('w, ReadStatus) state" where
  "synced k clock status generation kubeContent =
     withReadCondition k clock status (SuccessfulCondition ConditionTrue generation ReasonSynced []) kubeContent"

definition notFound ::
  "kube_lib \<Rightarrow> ('w, timestamp) state \<Rightarrow> ReadStatus \<Rightarrow> int64 \<Rightarrow> ('w, ReadStatus) state" where
  "notFound k clock status generation =
     withReadCondition k clock status (SuccessfulCondition ConditionFalse generation ReasonNotFound []) []"

definition kubeAPIError ::
  "kube_lib \<Rightarrow> ('w, timestamp) state \<Rightarrow> ReadStatus \<Rightarrow> int64 \<Rightarrow> goerror \<Rightarrow> ('w, ReadStatus) state" where
  "kubeAPIError k clock status generation err =
     withReadCondition k clock status
       (SuccessfulCondition ConditionFalse generation ReasonKubeAPIError (error_text err)) (rs_KubeContent status)"

definition read_preCheckFailed ::
  "kube_lib \<Rightarrow> ('w, timestamp) state \<Rightarrow> ReadStatus \<Rightarrow> int64 \<Rightarrow> string \<Rightarrow> ('w, ReadStatus) state" where
  "read_preCheckFailed k clock status generation msg =
     withReadCondition k clock status
       (SuccessfulCondition ConditionFalse generation ReasonPreCheckFailed msg) (rs_KubeContent status)"

lemmas read_status_defs = synced_def notFound_def kubeAPIError_def read_preCheckFailed_def

section \<open>Comparing content\<close>

definition metadataField :: string where "metadataField = ''metadata''"
definition managedFieldsField :: string where "managedFieldsField = ''managedFields''"
definition resourceVersionField :: string where "resourceVersionField = ''resourceVersion''"
definition generationField :: string where "generationField = ''generation''"

text \<open>\<open>delete\<close> on a Go map.\<close>

definition obj_delete :: "string \<Rightarrow> (string \<times> 'v) list \<Rightarrow> (string \<times> 'v) list" where
  "obj_delete k m = filter (\<lambda>p. fst p \<noteq> k) m"

definition strip_metadata :: "(string \<times> json) list \<Rightarrow> (string \<times> json) list" where
  "strip_metadata object =
     (case map_of object metadataField of
        Some (JObject metadata) \<Rightarrow>
          obj_put metadataField
            (JObject (obj_delete generationField (obj_delete resourceVersionField
               (obj_delete managedFieldsField metadata)))) object
      | _ \<Rightarrow> object)"

text \<open>
  Decoding into a \<open>map[string]any\<close> leaves the map nil for a \<open>null\<close>, which prints as \<open>null\<close> again, and
  fails for any other value that is no object. The second \<open>Decode\<close> reports the end of the input
  exactly when nothing but white space follows, which \<^const>\<open>json_decode\<close> requires.
\<close>

definition canonicalContent :: "bytes \<Rightarrow> bytes option" where
  "canonicalContent content =
     (let normalize = (\<lambda>v. case json_Marshal v of Inl err \<Rightarrow> None | Inr normalized \<Rightarrow> Some normalized) in
      case json_decode content of
        Some (JObject object) \<Rightarrow> normalize (JObject (strip_metadata object))
      | Some JNull \<Rightarrow> normalize JNull
      | _ \<Rightarrow> None)"

definition semanticContentEqual :: "bytes \<Rightarrow> bytes \<Rightarrow> bool" where
  "semanticContentEqual a b =
     (if a = b then True
      else case (canonicalContent a, canonicalContent b) of
             (Some canonicalA, Some canonicalB) \<Rightarrow> canonicalA = canonicalB
           | _ \<Rightarrow> False)"

definition readStatusEqual :: "kube_lib \<Rightarrow> ReadStatus \<Rightarrow> ReadStatus \<Rightarrow> bool" where
  "readStatusEqual k a b \<longleftrightarrow>
     EqualStatus k (rs_Status a) (rs_Status b) \<and> semanticContentEqual (rs_KubeContent a) (rs_KubeContent b)"

section \<open>What the comparison decides\<close>

text \<open>The metadata that does not count.\<close>

definition volatile :: "string \<Rightarrow> bool" where
  "volatile f \<longleftrightarrow> f = ''managedFields'' \<or> f = ''resourceVersion'' \<or> f = ''generation''"

text \<open>Two objects with the same fields, up to the volatile metadata when both have a metadata object.\<close>

definition same_object :: "(string \<times> json) list \<Rightarrow> (string \<times> json) list \<Rightarrow> bool" where
  "same_object ms ns \<longleftrightarrow>
     (\<forall>f. f \<noteq> ''metadata'' \<longrightarrow> map_of ms f = map_of ns f) \<and>
     (case (map_of ms ''metadata'', map_of ns ''metadata'') of
        (Some (JObject p), Some (JObject q)) \<Rightarrow> \<forall>f. \<not> volatile f \<longrightarrow> map_of p f = map_of q f
      | (x, y) \<Rightarrow> x = y)"

lemma obj_delete_lookup: "map_of (obj_delete k m) f = (if f = k then None else map_of m f)"
  by (induction m) (auto simp: obj_delete_def)

lemma obj_delete_sorted: "keys_sorted m \<Longrightarrow> keys_sorted (obj_delete k m)"
  unfolding obj_delete_def by (simp add: sorted_filter distinct_map_filter)

lemma set_obj_delete: "set (obj_delete k m) \<subseteq> set m"
  by (auto simp: obj_delete_def)

definition stripped :: "(string \<times> json) list \<Rightarrow> (string \<times> json) list" where
  "stripped metadata =
     obj_delete generationField (obj_delete resourceVersionField (obj_delete managedFieldsField metadata))"

lemma stripped_facts:
  "map_of (stripped m) f = (if volatile f then None else map_of m f)"
  "keys_sorted m \<Longrightarrow> keys_sorted (stripped m)" "set (stripped m) \<subseteq> set m"
  by (auto simp: stripped_def obj_delete_lookup volatile_def generationField_def resourceVersionField_def
      managedFieldsField_def obj_delete_sorted dest!: subsetD [OF set_obj_delete])

lemma strip_metadata_alt:
  "strip_metadata object =
     (case map_of object metadataField of
        Some (JObject metadata) \<Rightarrow> obj_put metadataField (JObject (stripped metadata)) object
      | _ \<Rightarrow> object)"
  unfolding strip_metadata_def stripped_def ..

lemma json_ok_member: "json_ok d (JObject ms) \<Longrightarrow> (k, v) \<in> set ms \<Longrightarrow> valid_utf8 k \<and> json_ok (d - 1) v"
  by auto

lemma json_ok_objectI:
  "0 < d \<Longrightarrow> keys_sorted ms \<Longrightarrow> (\<And>k v. (k, v) \<in> set ms \<Longrightarrow> valid_utf8 k \<and> json_ok (d - 1) v) \<Longrightarrow>
     json_ok d (JObject ms)"
  by auto

lemma strip_metadata_ok:
  assumes "json_ok d (JObject ms)"
  shows "json_ok d (JObject (strip_metadata ms))"
proof (cases "\<exists>metadata. map_of ms metadataField = Some (JObject metadata)")
  case True
  then obtain metadata where m: "map_of ms metadataField = Some (JObject metadata)" by blast
  from json_ok_member [OF assms map_of_SomeD [OF this]]
  have ok: "json_ok (d - 1) (JObject metadata)" "valid_utf8 metadataField"
    by blast+
  have ms: "0 < d" "keys_sorted ms" using assms by simp_all
  have "json_ok (d - 1) (JObject (stripped metadata))"
  proof (rule json_ok_objectI)
    show "0 < d - 1" "keys_sorted (stripped metadata)"
      using ok(1) stripped_facts(2) [of metadata] by simp_all
    show "valid_utf8 k \<and> json_ok (d - 1 - 1) v" if "(k, v) \<in> set (stripped metadata)" for k v
      using json_ok_member [OF ok(1)] that stripped_facts(3) [of metadata] by blast
  qed
  then have "json_ok d (JObject (obj_put metadataField (JObject (stripped metadata)) ms))"
    using set_obj_put [of metadataField "JObject (stripped metadata)" ms] ok(2) json_ok_member [OF assms]
    by (intro json_ok_objectI ms(1) obj_put_sorted [OF ms(2)]) blast
  with m show ?thesis by (simp add: strip_metadata_alt)
next
  case False
  then have "strip_metadata ms = ms"
    by (auto simp: strip_metadata_alt split: option.splits json.splits)
  with assms show ?thesis by simp
qed

lemma strip_metadata_lookup:
  assumes "keys_sorted ms"
  shows "map_of (strip_metadata ms) f =
    (case map_of ms f of
       Some (JObject p) \<Rightarrow> Some (JObject (if f = metadataField then stripped p else p))
     | x \<Rightarrow> x)"
  using obj_put_lookup [OF assms] by (auto simp: strip_metadata_alt split: option.split json.split)

lemma stripped_eq_iff:
  assumes "keys_sorted p" "keys_sorted q"
  shows "stripped p = stripped q \<longleftrightarrow> (\<forall>f. \<not> volatile f \<longrightarrow> map_of p f = map_of q f)"
proof
  assume "stripped p = stripped q"
  then show "\<forall>f. \<not> volatile f \<longrightarrow> map_of p f = map_of q f"
    using stripped_facts(1) [of p] stripped_facts(1) [of q] by (metis)
next
  assume "\<forall>f. \<not> volatile f \<longrightarrow> map_of p f = map_of q f"
  then have "map_of (stripped p) = map_of (stripped q)"
    by (auto simp: stripped_facts(1))
  then show "stripped p = stripped q"
    using assms by (intro keys_sorted_unique stripped_facts(2))
qed

lemma strip_metadata_sorted: "keys_sorted ms \<Longrightarrow> keys_sorted (strip_metadata ms)"
  by (auto simp: strip_metadata_alt obj_put_sorted split: option.split json.split)

lemma strip_metadata_eq_iff:
  assumes "json_ok d (JObject ms)" "json_ok d (JObject ns)"
  shows "strip_metadata ms = strip_metadata ns \<longleftrightarrow> same_object ms ns"
proof -
  have sorted: "keys_sorted ms" "keys_sorted ns" using assms by simp_all
  have "keys_sorted p" if "map_of ms f = Some (JObject p) \<or> map_of ns f = Some (JObject p)" for f p
    using that json_ok_member [OF assms(1)] json_ok_member [OF assms(2)] map_of_SomeD by fastforce
  note strip = stripped_eq_iff [OF this this]
  have other: "map_of (strip_metadata xs) f = map_of xs f" if "f \<noteq> metadataField" "keys_sorted xs" for xs f
    using that by (simp add: strip_metadata_lookup split: option.split json.split)
  note other = other [OF _ sorted(1)] other [OF _ sorted(2)]
  have "strip_metadata ms = strip_metadata ns \<longleftrightarrow> (\<forall>f. map_of (strip_metadata ms) f = map_of (strip_metadata ns) f)"
    using keys_sorted_unique [OF strip_metadata_sorted strip_metadata_sorted, OF sorted] by auto
  also have "\<dots> \<longleftrightarrow>
      (\<forall>f. f \<noteq> metadataField \<longrightarrow> map_of (strip_metadata ms) f = map_of (strip_metadata ns) f) \<and>
      map_of (strip_metadata ms) metadataField = map_of (strip_metadata ns) metadataField"
    by (rule iffI) (simp, metis)
  also have "(\<forall>f. f \<noteq> metadataField \<longrightarrow> map_of (strip_metadata ms) f = map_of (strip_metadata ns) f) \<longleftrightarrow>
      (\<forall>f. f \<noteq> metadataField \<longrightarrow> map_of ms f = map_of ns f)"
    by (simp add: other)
  also have "map_of (strip_metadata ms) metadataField = map_of (strip_metadata ns) metadataField \<longleftrightarrow>
      (case (map_of ms metadataField, map_of ns metadataField) of
        (Some (JObject p), Some (JObject q)) \<Rightarrow> \<forall>f. \<not> volatile f \<longrightarrow> map_of p f = map_of q f
      | (x, y) \<Rightarrow> x = y)"
    using strip [of metadataField _ metadataField]
    by (simp add: strip_metadata_lookup sorted split: option.split json.split)
  finally show ?thesis by (simp add: same_object_def metadataField_def)
qed

text \<open>The value a content stands for in the comparison.\<close>

definition canonical_value :: "bytes \<Rightarrow> json option" where
  "canonical_value content =
     (case json_decode content of
        Some (JObject object) \<Rightarrow> Some (JObject (strip_metadata object))
      | Some JNull \<Rightarrow> Some JNull
      | _ \<Rightarrow> None)"

lemma canonical_value_ok: "canonical_value c = Some v \<Longrightarrow> json_ok max_depth v"
  using json_decode_ok [of c] strip_metadata_ok
  by (auto simp: canonical_value_def simp del: json_ok.simps(6) split: option.splits json.splits)

lemma canonicalContent_eq: "canonicalContent c = map_option marshal_value (canonical_value c)"
  using json_decode_ok [of c] json_Marshal_ok [OF strip_metadata_ok [of max_depth]]
    json_Marshal_ok [of max_depth JNull]
  by (auto simp: canonicalContent_def canonical_value_def Let_def simp del: json_ok.simps(6)
      split: option.splits json.splits)

lemma strip_metadata_idem:
  assumes "keys_sorted ms"
  shows "strip_metadata (strip_metadata ms) = strip_metadata ms"
proof -
  have twice: "stripped (stripped p) = stripped p" for p
    by (auto simp: stripped_def obj_delete_def intro: filter_cong)
  show ?thesis
  proof (rule keys_sorted_unique)
    show "map_of (strip_metadata (strip_metadata ms)) = map_of (strip_metadata ms)"
      by (rule ext) (simp add: strip_metadata_lookup strip_metadata_sorted assms twice split: option.split json.split)
  qed (rule strip_metadata_sorted strip_metadata_sorted [OF strip_metadata_sorted] assms)+
qed

lemma canonical_value_marshal:
  assumes "canonical_value c = Some v"
  shows "canonical_value (marshal_value v) = Some v"
proof -
  have "json_decode (marshal_value v) = Some v"
    using canonical_value_ok [OF assms] by (rule decode_marshal)
  moreover have "strip_metadata ms = ms" if obj: "v = JObject ms" for ms
  proof -
    obtain object where object: "json_decode c = Some (JObject object)" "ms = strip_metadata object"
      using assms obj by (auto simp: canonical_value_def split: option.splits json.splits)
    then have "keys_sorted object" using json_decode_ok [of c] by auto
    with object show ?thesis by (simp add: strip_metadata_idem)
  qed
  ultimately show ?thesis
    using assms by (auto simp: canonical_value_def split: option.splits json.splits)
qed

lemma semanticContentEqual_value:
  "semanticContentEqual a b \<longleftrightarrow>
     a = b \<or> (\<exists>v. canonical_value a = Some v \<and> canonical_value b = Some v)"
  using marshal_inject [OF canonical_value_ok canonical_value_ok, of a _ b]
  by (auto simp: semanticContentEqual_def canonicalContent_eq split: option.splits)

lemma semanticContentEqual_refl [simp]: "semanticContentEqual a a"
  by (simp add: semanticContentEqual_def)

lemma semanticContentEqual_objects:
  "semanticContentEqual a b \<longleftrightarrow>
     a = b \<or>
     json_decode a = Some JNull \<and> json_decode b = Some JNull \<or>
     (\<exists>ms ns. json_decode a = Some (JObject ms) \<and> json_decode b = Some (JObject ns) \<and> same_object ms ns)"
proof -
  have "(\<exists>v. canonical_value a = Some v \<and> canonical_value b = Some v) \<longleftrightarrow>
     json_decode a = Some JNull \<and> json_decode b = Some JNull \<or>
     (\<exists>ms ns. json_decode a = Some (JObject ms) \<and> json_decode b = Some (JObject ns) \<and>
        strip_metadata ms = strip_metadata ns)"
    by (auto simp: canonical_value_def split: option.splits json.splits)
  also have "(\<exists>ms ns. json_decode a = Some (JObject ms) \<and> json_decode b = Some (JObject ns) \<and>
        strip_metadata ms = strip_metadata ns) \<longleftrightarrow>
      (\<exists>ms ns. json_decode a = Some (JObject ms) \<and> json_decode b = Some (JObject ns) \<and> same_object ms ns)"
    using strip_metadata_eq_iff [OF json_decode_ok json_decode_ok] by metis
  finally show ?thesis by (simp add: semanticContentEqual_value)
qed

end
