(* ===== verification/InformerManager.thy ===== *)
theory InformerManager
  imports ReadStatus "HOL-Library.AList" "HOL-Library.Multiset"
begin

text \<open>
  \<open>internal/controllers/readdesire/informer_manager.go\<close>: the set of running informers, one for each
  \<open>ReadDesire\<close>. The informers of client-go, the work queue and the API server are arguments. A host
  call may be interleaved with other goroutines, so it may change the memory the goroutines share; the
  code reads and writes that memory through \<open>rh_load\<close> and \<open>rh_store\<close> only.
\<close>

section \<open>Data\<close>

text \<open>An informer of the library, with the lister over its cache, is known by a handle.\<close>

type_synonym informer = nat
type_synonym stop_channel = nat

record informerTarget =
  it_gvr :: GroupVersionResource
  it_namespace :: string
  it_name :: string

record trackedInformer =
  ti_informer :: "informer option"
  ti_lister :: "informer option"
  ti_stopCh :: stop_channel
  ti_gvr :: GroupVersionResource

record InformerManager =
  im_informers :: "(Identity \<times> trackedInformer) list"
  im_syncTimeout :: duration

text \<open>
  The memory the goroutines share: the manager, the stop channels (those below \<open>cm_stops\<close> were made;
  closing a closed one panics) and the three counters of the controller.
\<close>

record controller_memory =
  cm_informers :: InformerManager
  cm_stops :: nat
  cm_closed :: "stop_channel list"
  cm_panicked :: bool
  cm_skippedWrites :: uint64
  cm_performedWrites :: uint64
  cm_failedWrites :: uint64

text \<open>The goroutines the package starts, and the channel \<open>WaitForCacheSync\<close> watches.\<close>

datatype goroutine =
    RunInformer informer stop_channel
  | AwaitSync Identity informer stop_channel
  | RunWorker

datatype wait_channel = StopOnly stop_channel | StopOrTimeout stop_channel duration

section \<open>What the package is built on\<close>

record read_lib =
  rl_kube :: kube_lib
  rl_MarshalObject :: "Unstructured \<Rightarrow> bytes result"
  rl_OneTermEqualSelector :: "string \<Rightarrow> string \<Rightarrow> string"

text \<open>
  The calls, in the order: the shared memory, the context and the clock, the stores, the REST mapper
  and the dynamic client, the informers, the language (the start of a goroutine, the order in which
  \<open>range\<close> visits the keys of a map, \<open>WaitGroup.Wait\<close> and the \<open>select\<close> on the ticker), the work queue.
\<close>

record 'w read_host =
  rh_load :: "'w \<Rightarrow> controller_memory"
  rh_store :: "controller_memory \<Rightarrow> 'w \<Rightarrow> 'w"
  rh_ctx_Err :: "('w, goerror option) state"
  rh_Now :: "('w, timestamp) state"
  rh_ListReadDesires :: "string \<Rightarrow> ('w, ReadDesire list result) state"
  rh_GetReadDesire :: "Identity \<Rightarrow> ('w, ReadDesire result) state"
  rh_UpdateReadDesireStatus :: "Identity \<Rightarrow> ReadStatus \<Rightarrow> ('w, ReadDesire result) state"
  rh_ResourceFor :: "GroupVersionResource \<Rightarrow> ('w, GroupVersionResource result) state"
  rh_Reset :: "('w, unit) state"
  rh_Get :: "ResourceInterface \<Rightarrow> string \<Rightarrow> ('w, Unstructured result) state"
  rh_NewFilteredDynamicInformer ::
    "GroupVersionResource \<Rightarrow> string \<Rightarrow> duration \<Rightarrow> string \<Rightarrow> ('w, informer) state"
  rh_AddEventHandler :: "informer \<Rightarrow> Identity \<Rightarrow> ('w, goerror option) state"
  rh_HasSynced :: "informer \<Rightarrow> ('w, bool) state"
  rh_ListerGet :: "informer \<Rightarrow> string option \<Rightarrow> string \<Rightarrow> ('w, Unstructured result) state"
  rh_WaitForCacheSync :: "wait_channel \<Rightarrow> informer \<Rightarrow> ('w, bool) state"
  rh_go :: "goroutine \<Rightarrow> ('w, unit) state"
  rh_range :: "Identity list \<Rightarrow> ('w, Identity list) state"
  rh_WaitGroup_Wait :: "('w, unit) state"
  rh_tick :: "duration \<Rightarrow> ('w, goerror option) state"
  rh_queue_Add :: "Identity \<Rightarrow> ('w, unit) state"
  rh_queue_Get :: "('w, Identity option) state"
  rh_queue_Done :: "Identity \<Rightarrow> ('w, unit) state"
  rh_queue_Forget :: "Identity \<Rightarrow> ('w, unit) state"
  rh_queue_AddRateLimited :: "Identity \<Rightarrow> ('w, unit) state"
  rh_queue_ShutDown :: "('w, unit) state"

definition read_memory :: "'w read_host \<Rightarrow> ('w, controller_memory) state" where
  "read_memory h = State (\<lambda>w. (rh_load h w, w))"

definition update_memory :: "'w read_host \<Rightarrow> (controller_memory \<Rightarrow> controller_memory) \<Rightarrow> ('w, unit) state" where
  "update_memory h f = State (\<lambda>w. ((), rh_store h (f (rh_load h w)) w))"

text \<open>\<open>make(chan struct{})\<close> and \<open>close\<close> for the stop channels.\<close>

definition make_stop :: "'w read_host \<Rightarrow> ('w, stop_channel) state" where
  "make_stop h = do {
     m \<leftarrow> read_memory h;
     _ \<leftarrow> update_memory h (\<lambda>m. m\<lparr>cm_stops := cm_stops m + 1\<rparr>);
     State_Monad.return (cm_stops m)
   }"

definition closing :: "stop_channel \<Rightarrow> controller_memory \<Rightarrow> controller_memory" where
  "closing c m = (if c \<in> set (cm_closed m) then m\<lparr>cm_panicked := True\<rparr> else m\<lparr>cm_closed := c # cm_closed m\<rparr>)"

definition close_stop :: "'w read_host \<Rightarrow> stop_channel \<Rightarrow> ('w, unit) state" where
  "close_stop h c = update_memory h (closing c)"

text \<open>The map \<open>m.informers\<close>: lookup, \<open>delete\<close> and assignment.\<close>

abbreviation tracked :: "controller_memory \<Rightarrow> Identity \<Rightarrow> trackedInformer option" where
  "tracked m key \<equiv> map_of (im_informers (cm_informers m)) key"

definition with_informers ::
  "((Identity \<times> trackedInformer) list \<Rightarrow> (Identity \<times> trackedInformer) list) \<Rightarrow> controller_memory \<Rightarrow> controller_memory" where
  "with_informers f m = m\<lparr>cm_informers := (cm_informers m)\<lparr>im_informers := f (im_informers (cm_informers m))\<rparr>\<rparr>"

definition delete_informer :: "'w read_host \<Rightarrow> Identity \<Rightarrow> ('w, unit) state" where
  "delete_informer h key = update_memory h (with_informers (AList.delete key))"

definition put_informer :: "'w read_host \<Rightarrow> Identity \<Rightarrow> trackedInformer \<Rightarrow> ('w, unit) state" where
  "put_informer h key ti = update_memory h (with_informers (AList.update key ti))"

section \<open>Operations\<close>

definition DefaultInformerSyncTimeout :: duration where
  "DefaultInformerSyncTimeout = 30 * Second"

definition resyncPeriod :: duration where
  "resyncPeriod = 60 * Second"

definition newInformerManager :: "duration \<Rightarrow> InformerManager" where
  "newInformerManager syncTimeout =
     \<lparr>im_informers = [], im_syncTimeout = (if syncTimeout \<le> 0 then DefaultInformerSyncTimeout else syncTimeout)\<rparr>"

definition start_informer ::
  "read_lib \<Rightarrow> 'w read_host \<Rightarrow> Identity \<Rightarrow> informerTarget \<Rightarrow> ('w, goerror option) state" where
  "start_informer l h key target = do {
     informer \<leftarrow> rh_NewFilteredDynamicInformer h (it_gvr target) (it_namespace target) resyncPeriod
       (rl_OneTermEqualSelector l ''metadata.name'' (it_name target));
     err \<leftarrow> rh_AddEventHandler h informer key;
     case err of
       Some e \<Rightarrow> State_Monad.return (Some (wrap ''readdesire: add event handler failed'' e))
     | None \<Rightarrow> do {
         stopCh \<leftarrow> make_stop h;
         _ \<leftarrow> put_informer h key \<lparr>ti_informer = Some informer, ti_lister = Some informer,
           ti_stopCh = stopCh, ti_gvr = it_gvr target\<rparr>;
         _ \<leftarrow> rh_go h (RunInformer informer stopCh);
         _ \<leftarrow> rh_go h (AwaitSync key informer stopCh);
         State_Monad.return None
       }
   }"

text \<open>The loop that stops the informers of desires that are gone, over the keys in the order of \<open>range\<close>.\<close>

definition stop_unseen :: "'w read_host \<Rightarrow> Identity list \<Rightarrow> Identity \<Rightarrow> ('w, unit) state" where
  "stop_unseen h seen key = do {
     m \<leftarrow> read_memory h;
     case tracked m key of
       None \<Rightarrow> State_Monad.return ()
     | Some ti \<Rightarrow>
         if key \<in> set seen then State_Monad.return ()
         else do {
           _ \<leftarrow> close_stop h (ti_stopCh ti);
           delete_informer h key
         }
   }"

primrec stop_loop :: "'w read_host \<Rightarrow> Identity list \<Rightarrow> Identity list \<Rightarrow> ('w, unit) state" where
  "stop_loop h seen [] = State_Monad.return ()"
| "stop_loop h seen (key # keys) = do { _ \<leftarrow> stop_unseen h seen key; stop_loop h seen keys }"

definition ensure_informer ::
  "read_lib \<Rightarrow> 'w read_host \<Rightarrow> Identity \<Rightarrow> informerTarget \<Rightarrow> ('w, goerror option) state" where
  "ensure_informer l h key target = do {
     m \<leftarrow> read_memory h;
     case tracked m key of
       None \<Rightarrow> start_informer l h key target
     | Some ti \<Rightarrow>
         if ti_gvr ti = it_gvr target then State_Monad.return None
         else do {
           _ \<leftarrow> close_stop h (ti_stopCh ti);
           _ \<leftarrow> delete_informer h key;
           start_informer l h key target
         }
   }"

primrec start_loop ::
  "read_lib \<Rightarrow> 'w read_host \<Rightarrow> (Identity \<Rightarrow> informerTarget option) \<Rightarrow> Identity list \<Rightarrow>
   (Identity \<times> goerror) list \<Rightarrow> ('w, (Identity \<times> goerror) list) state" where
  "start_loop l h want [] failed = State_Monad.return failed"
| "start_loop l h want (key # keys) failed =
     (case want key of
        None \<Rightarrow> start_loop l h want keys failed
      | Some target \<Rightarrow> do {
          err \<leftarrow> ensure_informer l h key target;
          start_loop l h want keys (case err of None \<Rightarrow> failed | Some e \<Rightarrow> AList.update key e failed)
        })"

definition Reconcile ::
  "read_lib \<Rightarrow> 'w read_host \<Rightarrow> Identity list \<Rightarrow> (Identity \<times> informerTarget) list \<Rightarrow>
   ('w, (Identity \<times> goerror) list) state" where
  "Reconcile l h seen want = do {
     m \<leftarrow> read_memory h;
     keys \<leftarrow> rh_range h (map fst (im_informers (cm_informers m)));
     _ \<leftarrow> stop_loop h seen keys;
     wanted \<leftarrow> rh_range h (map fst want);
     start_loop l h (map_of want) wanted []
   }"

text \<open>\<open>Lister\<close>: the lister, when there is an informer, and whether its cache has synced.\<close>

definition Lister :: "'w read_host \<Rightarrow> Identity \<Rightarrow> ('w, (informer \<times> bool) option) state" where
  "Lister h key = do {
     m \<leftarrow> read_memory h;
     case tracked m key of
       None \<Rightarrow> State_Monad.return None
     | Some ti \<Rightarrow>
         (case (ti_lister ti, ti_informer ti) of
            (Some lister, Some informer) \<Rightarrow> do {
              synced \<leftarrow> rh_HasSynced h informer;
              State_Monad.return (Some (lister, synced))
            }
          | _ \<Rightarrow> State_Monad.return None)
   }"

text \<open>The loop of \<open>shutdownAll\<close> closes and deletes every entry, as the one above does when no desire is seen.\<close>

definition shutdownAll :: "'w read_host \<Rightarrow> ('w, unit) state" where
  "shutdownAll h = do {
     m \<leftarrow> read_memory h;
     keys \<leftarrow> rh_range h (map fst (im_informers (cm_informers m)));
     stop_loop h [] keys
   }"

text \<open>
  The goroutine \<open>start\<close> leaves behind to wait for the first sync. \<open>timeoutOrStop\<close> returns a channel that
  closes when the stop channel closes or the timeout elapses.
\<close>

definition timeoutOrStop :: "stop_channel \<Rightarrow> duration \<Rightarrow> wait_channel" where
  "timeoutOrStop stopCh timeout = StopOrTimeout stopCh timeout"

definition await_sync :: "'w read_host \<Rightarrow> Identity \<Rightarrow> informer \<Rightarrow> stop_channel \<Rightarrow> ('w, unit) state" where
  "await_sync h key informer stopCh = do {
     m \<leftarrow> read_memory h;
     ok \<leftarrow> rh_WaitForCacheSync h (timeoutOrStop stopCh (im_syncTimeout (cm_informers m))) informer;
     if ok then rh_queue_Add h key
     else do {
       m \<leftarrow> read_memory h;
       if stopCh \<in> set (cm_closed m) then State_Monad.return ()
       else do {
         _ \<leftarrow> rh_queue_Add h key;
         ok \<leftarrow> rh_WaitForCacheSync h (StopOnly stopCh) informer;
         if ok then rh_queue_Add h key else State_Monad.return ()
       }
     }
   }"

end
