(* ===== verification/ReadController.thy ===== *)
theory ReadController
  imports InformerManager
begin

text \<open>
  \<open>internal/controllers/readdesire/worker.go\<close> and \<open>controller.go\<close>: the workers that mirror observed
  objects into the status of their desires, and the poll loop that drives the informers. Log output is
  left out. A loop that runs until its context ends has fuel, and \<^term>\<open>None\<close> says it ran out.
\<close>

section \<open>Resolving the target\<close>

record ReadController =
  rc_managementCluster :: string
  rc_pollInterval :: duration

definition resolveGVR ::
  "read_lib \<Rightarrow> 'w read_host \<Rightarrow> string \<Rightarrow> string \<Rightarrow> string \<Rightarrow> ('w, GroupVersionResource result) state" where
  "resolveGVR l h grp targetVersion resource =
     (let part = \<lparr>gvr_Group = grp, gvr_Version = targetVersion, gvr_Resource = resource\<rparr> in do {
        res \<leftarrow> rh_ResourceFor h part;
        case res of
          Inl err \<Rightarrow>
            if IsNoMatchError (rl_kube l) err then do {
              _ \<leftarrow> rh_Reset h;
              rh_ResourceFor h part
            } else State_Monad.return (Inl err)
        | Inr gvr \<Rightarrow> State_Monad.return (Inr gvr)
      })"

section \<open>Observing the object\<close>

definition object_version :: "Unstructured \<Rightarrow> string" where
  "object_version obj = gvk_Version (ObjGroupVersionKind obj)"

text \<open>The end of \<open>observe\<close> and \<open>observeLive\<close>: the content of the object, or the error of printing it.\<close>

definition mirror ::
  "read_lib \<Rightarrow> 'w read_host \<Rightarrow> ReadStatus \<Rightarrow> int64 \<Rightarrow> Unstructured \<Rightarrow> ('w, ReadStatus) state" where
  "mirror l h current generation obj =
     (case rl_MarshalObject l obj of
        Inl err \<Rightarrow> kubeAPIError (rl_kube l) (rh_Now h) current generation err
      | Inr content \<Rightarrow> synced (rl_kube l) (rh_Now h) current generation content)"

definition still_mismatched :: "string \<Rightarrow> string \<Rightarrow> goerror" where
  "still_mismatched actual targetVersion =
     ErrorString (''live object version '' @ quote actual @ '' still does not match declared TargetVersion '' @
       quote targetVersion @ '' after a direct Get (informer cache was not merely stale)'')"

definition unsynced_absence :: "goerror \<Rightarrow> goerror" where
  "unsynced_absence err = wrap ''informer cache has not synced yet, cannot confirm absence'' err"

definition namespace_of :: "Identity \<Rightarrow> string option" where
  "namespace_of key = (if Namespace key = [] then None else Some (Namespace key))"

definition observeLive ::
  "read_lib \<Rightarrow> 'w read_host \<Rightarrow> Identity \<Rightarrow> string \<Rightarrow> int64 \<Rightarrow> ReadStatus \<Rightarrow> ('w, ReadStatus) state" where
  "observeLive l h key targetVersion generation current = do {
     resolved \<leftarrow> resolveGVR l h (Group key) targetVersion (Resource key);
     case resolved of
       Inl err \<Rightarrow> kubeAPIError (rl_kube l) (rh_Now h) current generation err
     | Inr gvr \<Rightarrow> do {
         got \<leftarrow> rh_Get h \<lparr>ri_Resource = gvr, ri_Namespace = namespace_of key\<rparr> (Name key);
         case got of
           Inl err \<Rightarrow>
             if IsNotFoundError (rl_kube l) err then notFound (rl_kube l) (rh_Now h) current generation
             else kubeAPIError (rl_kube l) (rh_Now h) current generation err
         | Inr obj \<Rightarrow>
             if object_version obj \<noteq> targetVersion then
               kubeAPIError (rl_kube l) (rh_Now h) current generation
                 (still_mismatched (object_version obj) targetVersion)
             else mirror l h current generation obj
       }
   }"

definition observe ::
  "read_lib \<Rightarrow> 'w read_host \<Rightarrow> Identity \<Rightarrow> string \<Rightarrow> int64 \<Rightarrow> ReadStatus \<Rightarrow> ('w, ReadStatus) state" where
  "observe l h key targetVersion generation current = do {
     listed \<leftarrow> Lister h key;
     case listed of
       None \<Rightarrow> notFound (rl_kube l) (rh_Now h) current generation
     | Some (lister, cacheSynced) \<Rightarrow> do {
         got \<leftarrow> rh_ListerGet h lister (namespace_of key) (Name key);
         case got of
           Inl err \<Rightarrow>
             if IsNotFoundError (rl_kube l) err then
               (if \<not> cacheSynced then
                  kubeAPIError (rl_kube l) (rh_Now h) current generation (unsynced_absence err)
                else notFound (rl_kube l) (rh_Now h) current generation)
             else kubeAPIError (rl_kube l) (rh_Now h) current generation err
         | Inr obj \<Rightarrow>
             if object_version obj \<noteq> targetVersion then
               observeLive l h key targetVersion generation current
             else mirror l h current generation obj
       }
   }"

section \<open>Writing the status\<close>

definition namespaced_name :: "Identity \<Rightarrow> string" where
  "namespaced_name i = Namespace i @ ''/'' @ Name i"

definition applyStatus ::
  "read_lib \<Rightarrow> 'w read_host \<Rightarrow> Identity \<Rightarrow> (ReadDesire \<Rightarrow> ('w, ReadStatus) state) \<Rightarrow>
   ('w, goerror option) state" where
  "applyStatus l h i compute = do {
     got \<leftarrow> rh_GetReadDesire h i;
     case got of
       Inl err \<Rightarrow>
         if errors_Is err ErrNotFound then State_Monad.return None
         else State_Monad.return (Some (wrap (''readdesire: get read desire '' @ namespaced_name i) err))
     | Inr d \<Rightarrow> do {
         newStatus \<leftarrow> compute d;
         if readStatusEqual (rl_kube l) newStatus (rd_Status d) then do {
           _ \<leftarrow> update_memory h (\<lambda>m. m\<lparr>cm_skippedWrites := cm_skippedWrites m + 1\<rparr>);
           State_Monad.return None
         }
         else do {
           updated \<leftarrow> rh_UpdateReadDesireStatus h i newStatus;
           case updated of
             Inl err \<Rightarrow> do {
               _ \<leftarrow> update_memory h (\<lambda>m. m\<lparr>cm_failedWrites := cm_failedWrites m + 1\<rparr>);
               State_Monad.return (Some (wrap (''readdesire: update read desire status '' @ namespaced_name i) err))
             }
           | Inr _ \<Rightarrow> do {
               _ \<leftarrow> update_memory h (\<lambda>m. m\<lparr>cm_performedWrites := cm_performedWrites m + 1\<rparr>);
               State_Monad.return None
             }
         }
       }
   }"

definition sync :: "read_lib \<Rightarrow> 'w read_host \<Rightarrow> Identity \<Rightarrow> ('w, goerror option) state" where
  "sync l h key =
     applyStatus l h key (\<lambda>d. observe l h key (rd_TargetVersion d) (rd_Generation d) (rd_Status d))"

definition context_error :: "goerror \<Rightarrow> bool" where
  "context_error err \<longleftrightarrow> errors_Is err Canceled \<or> errors_Is err DeadlineExceeded"

definition processNextWorkItem :: "read_lib \<Rightarrow> 'w read_host \<Rightarrow> ('w, bool) state" where
  "processNextWorkItem l h = do {
     got \<leftarrow> rh_queue_Get h;
     case got of
       None \<Rightarrow> State_Monad.return False
     | Some key \<Rightarrow> do {
         err \<leftarrow> sync l h key;
         _ \<leftarrow> (case err of
                 None \<Rightarrow> rh_queue_Forget h key
               | Some e \<Rightarrow>
                   if context_error e then rh_queue_Forget h key else rh_queue_AddRateLimited h key);
         _ \<leftarrow> rh_queue_Done h key;
         State_Monad.return True
       }
   }"

primrec runWorker :: "nat \<Rightarrow> read_lib \<Rightarrow> 'w read_host \<Rightarrow> ('w, unit option) state" where
  "runWorker 0 l h = State_Monad.return None"
| "runWorker (Suc fuel) l h = do {
     more \<leftarrow> processNextWorkItem l h;
     if more then runWorker fuel l h else State_Monad.return (Some ())
   }"

section \<open>The poll loop\<close>

definition poll_aborted :: "string \<Rightarrow> goerror \<Rightarrow> goerror" where
  "poll_aborted mc err = Wrapf (''readdesire: poll aborted for management cluster '' @ quote mc @ '': '') err []"

definition no_mapping :: "ReadDesire \<Rightarrow> goerror \<Rightarrow> string" where
  "no_mapping d err =
     ''readdesire: no resource mapping for '' @ Group (rd_Identity d) @ ''/'' @ rd_TargetVersion d @ ''/'' @
     Resource (rd_Identity d) @ '': '' @ error_text err"

definition start_failed :: "goerror \<Rightarrow> string" where
  "start_failed err = ''readdesire: start informer failed: '' @ error_text err"

definition record_precheck :: "read_lib \<Rightarrow> 'w read_host \<Rightarrow> Identity \<Rightarrow> string \<Rightarrow> ('w, goerror option) state" where
  "record_precheck l h i msg =
     applyStatus l h i (\<lambda>rd. read_preCheckFailed (rl_kube l) (rh_Now h) (rd_Status rd) (rd_Generation rd) msg)"

text \<open>
  The loop over the listed desires; \<open>seen\<close> and \<open>want\<close> are the two maps it builds, \<^term>\<open>Inl\<close> says that
  \<open>pollOnce\<close> returns.
\<close>

primrec visit_desires ::
  "read_lib \<Rightarrow> 'w read_host \<Rightarrow> string \<Rightarrow> ReadDesire list \<Rightarrow> Identity list \<Rightarrow> (Identity \<times> informerTarget) list \<Rightarrow>
   ('w, goerror + (Identity list \<times> (Identity \<times> informerTarget) list)) state" where
  "visit_desires l h mc [] seen want = State_Monad.return (Inr (seen, want))"
| "visit_desires l h mc (d # ds) seen want = do {
     ctxErr \<leftarrow> rh_ctx_Err h;
     case ctxErr of
       Some err \<Rightarrow> State_Monad.return (Inl (poll_aborted mc err))
     | None \<Rightarrow> do {
         resolved \<leftarrow> resolveGVR l h (Group (rd_Identity d)) (rd_TargetVersion d) (Resource (rd_Identity d));
         case resolved of
           Inl err \<Rightarrow> do {
             _ \<leftarrow> record_precheck l h (rd_Identity d) (no_mapping d err);
             visit_desires l h mc ds (List.insert (rd_Identity d) seen) want
           }
         | Inr gvr \<Rightarrow>
             visit_desires l h mc ds (List.insert (rd_Identity d) seen)
               (AList.update (rd_Identity d)
                 \<lparr>it_gvr = gvr, it_namespace = Namespace (rd_Identity d), it_name = Name (rd_Identity d)\<rparr> want)
       }
   }"

primrec report_failures ::
  "read_lib \<Rightarrow> 'w read_host \<Rightarrow> string \<Rightarrow> (Identity \<Rightarrow> goerror option) \<Rightarrow> Identity list \<Rightarrow> ('w, goerror option) state" where
  "report_failures l h mc failed [] = State_Monad.return None"
| "report_failures l h mc failed (key # keys) = do {
     ctxErr \<leftarrow> rh_ctx_Err h;
     case ctxErr of
       Some err \<Rightarrow> State_Monad.return (Some (poll_aborted mc err))
     | None \<Rightarrow>
         (case failed key of
            None \<Rightarrow> report_failures l h mc failed keys
          | Some err \<Rightarrow> do {
              _ \<leftarrow> record_precheck l h key (start_failed err);
              report_failures l h mc failed keys
            })
   }"

definition pollOnce :: "read_lib \<Rightarrow> 'w read_host \<Rightarrow> ReadController \<Rightarrow> ('w, goerror option) state" where
  "pollOnce l h c = do {
     listed \<leftarrow> rh_ListReadDesires h (rc_managementCluster c);
     case listed of
       Inl err \<Rightarrow> State_Monad.return None
     | Inr desires \<Rightarrow> do {
         visited \<leftarrow> visit_desires l h (rc_managementCluster c) desires [] [];
         case visited of
           Inl err \<Rightarrow> State_Monad.return (Some err)
         | Inr (seen, want) \<Rightarrow> do {
             failed \<leftarrow> Reconcile l h seen want;
             keys \<leftarrow> rh_range h (map fst failed);
             report_failures l h (rc_managementCluster c) (map_of failed) keys
           }
       }
   }"

text \<open>The \<open>select\<close> returns the error of the context when it ended, and nil for a tick.\<close>

primrec runPollLoop :: "nat \<Rightarrow> read_lib \<Rightarrow> 'w read_host \<Rightarrow> ReadController \<Rightarrow> ('w, goerror option) state" where
  "runPollLoop 0 l h c = State_Monad.return None"
| "runPollLoop (Suc fuel) l h c = do {
     err \<leftarrow> pollOnce l h c;
     case err of
       Some e \<Rightarrow> State_Monad.return (Some e)
     | None \<Rightarrow> do {
         ended \<leftarrow> rh_tick h (rc_pollInterval c);
         case ended of
           Some e \<Rightarrow> State_Monad.return (Some e)
         | None \<Rightarrow> runPollLoop fuel l h c
       }
   }"

definition workerCount :: nat where "workerCount = 4"

primrec start_workers :: "'w read_host \<Rightarrow> nat \<Rightarrow> ('w, unit) state" where
  "start_workers h 0 = State_Monad.return ()"
| "start_workers h (Suc n) = do { _ \<leftarrow> rh_go h RunWorker; start_workers h n }"

text \<open>\<open>Start\<close>; the outer option is \<^term>\<open>None\<close> when the fuel of the poll loop ran out.\<close>

definition read_Start :: "nat \<Rightarrow> read_lib \<Rightarrow> 'w read_host \<Rightarrow> ReadController \<Rightarrow> ('w, goerror option option) state" where
  "read_Start fuel l h c = do {
     _ \<leftarrow> start_workers h workerCount;
     ended \<leftarrow> runPollLoop fuel l h c;
     case ended of
       None \<Rightarrow> State_Monad.return None
     | Some pollErr \<Rightarrow> do {
         _ \<leftarrow> rh_queue_ShutDown h;
         _ \<leftarrow> shutdownAll h;
         _ \<leftarrow> rh_WaitGroup_Wait h;
         if context_error pollErr then State_Monad.return (Some None)
         else State_Monad.return (Some (Some pollErr))
       }
   }"

text \<open>
  \<open>New\<close>: the memory of a new controller. Its only option sets the timeout of the first sync; the zero
  value of the options is 0.
\<close>

type_synonym read_options = duration
type_synonym read_Option = "read_options \<Rightarrow> read_options"

definition WithInformerSyncTimeout :: "duration \<Rightarrow> read_Option" where
  "WithInformerSyncTimeout d = (\<lambda>opts. d)"

definition read_New :: "string \<Rightarrow> duration \<Rightarrow> read_Option list \<Rightarrow> ReadController \<times> controller_memory" where
  "read_New mc pollInterval opts =
     (\<lparr>rc_managementCluster = mc, rc_pollInterval = pollInterval\<rparr>,
      \<lparr>cm_informers = newInformerManager (foldl (\<lambda>opts fn. fn opts) 0 opts), cm_stops = 0, cm_closed = [],
       cm_panicked = False, cm_skippedWrites = 0, cm_performedWrites = 0, cm_failedWrites = 0\<rparr>)"

definition SkippedStatusWrites :: "controller_memory \<Rightarrow> uint64" where
  "SkippedStatusWrites m = cm_skippedWrites m"

definition PerformedStatusWrites :: "controller_memory \<Rightarrow> uint64" where
  "PerformedStatusWrites m = cm_performedWrites m"

definition FailedStatusWrites :: "controller_memory \<Rightarrow> uint64" where
  "FailedStatusWrites m = cm_failedWrites m"

end
