(* ===== verification/ReadManager.thy ===== *)
theory ReadManager
  imports ReadController
begin

text \<open>
  What the poll goroutine does to the set of informers. The manager and its stop channels are written
  by this goroutine alone, so a call it makes leaves them as they are; on such a host the effect of the
  code on them is computed by a weakest-precondition calculus over this part of the memory.
\<close>

section \<open>The part of the memory the manager owns\<close>

record manager_core =
  mc_informers :: "(Identity \<times> trackedInformer) list"
  mc_stops :: nat
  mc_closed :: "stop_channel list"
  mc_panicked :: bool

definition core :: "controller_memory \<Rightarrow> manager_core" where
  "core m = \<lparr>mc_informers = im_informers (cm_informers m), mc_stops = cm_stops m,
     mc_closed = cm_closed m, mc_panicked = cm_panicked m\<rparr>"

definition same_core :: "'w read_host \<Rightarrow> 'w \<Rightarrow> 'w \<Rightarrow> bool" where
  "same_core h w w' \<longleftrightarrow> core (rh_load h w') = core (rh_load h w)"

text \<open>
  A host on which the poll goroutine runs: memory that was stored is loaded, \<open>range\<close> visits every key of
  a map once, and no call changes the manager.
\<close>

locale poll_host =
  fixes h :: "'w read_host"
  assumes load_store: "rh_load h (rh_store h m w) = m"
    and range_once: "run_state (rh_range h keys) w = (keys', w') \<Longrightarrow> mset keys' = mset keys"
    and call_keeps:
      "keeps (same_core h) (rh_ctx_Err h)" "keeps (same_core h) (rh_Now h)"
      "keeps (same_core h) (rh_ListReadDesires h mc)" "keeps (same_core h) (rh_GetReadDesire h i)"
      "keeps (same_core h) (rh_UpdateReadDesireStatus h i st)" "keeps (same_core h) (rh_ResourceFor h gvr)"
      "keeps (same_core h) (rh_Reset h)" "keeps (same_core h) (rh_NewFilteredDynamicInformer h gvr ns d sel)"
      "keeps (same_core h) (rh_AddEventHandler h gi i)" "keeps (same_core h) (rh_go h g)"
      "keeps (same_core h) (rh_range h keys)" "keeps (same_core h) (rh_WaitGroup_Wait h)"
      "keeps (same_core h) (rh_tick h d)" "keeps (same_core h) (rh_queue_ShutDown h)"

definition cwp :: "'w read_host \<Rightarrow> ('w, 'a) state \<Rightarrow> ('a \<Rightarrow> manager_core \<Rightarrow> bool) \<Rightarrow> manager_core \<Rightarrow> bool" where
  "cwp h m Q c \<longleftrightarrow> (\<forall>w. core (rh_load h w) = c \<longrightarrow> wp m (\<lambda>a w'. Q a (core (rh_load h w'))) w)"

lemma cwp_mono: "cwp h m Q c \<Longrightarrow> (\<And>a c'. Q a c' \<Longrightarrow> R a c') \<Longrightarrow> cwp h m R c"
  unfolding cwp_def by (blast intro: wp_mono)

lemma cwp_return: "Q x c \<Longrightarrow> cwp h (State_Monad.return x) Q c"
  by (simp add: cwp_def wp_return)

lemma cwp_bind: "cwp h m (\<lambda>a. cwp h (f a) Q) c \<Longrightarrow> cwp h (State_Monad.bind m f) Q c"
  unfolding cwp_def wp_bind by (blast intro: wp_mono)

lemma cwp_keeps: "keeps (same_core h) m \<Longrightarrow> (\<And>a. Q a c) \<Longrightarrow> cwp h m Q c"
  by (auto simp: cwp_def keeps_def same_core_def wp_def split: prod.split) (metis snd_conv)

lemma cwp_read: "(\<And>m. core m = c \<Longrightarrow> Q m c) \<Longrightarrow> cwp h (read_memory h) Q c"
  by (simp add: cwp_def read_memory_def wp_State)

text \<open>How the updates of the code act on this part.\<close>

definition core_closing :: "stop_channel \<Rightarrow> manager_core \<Rightarrow> manager_core" where
  "core_closing s c = (if s \<in> set (mc_closed c) then c\<lparr>mc_panicked := True\<rparr> else c\<lparr>mc_closed := s # mc_closed c\<rparr>)"

lemma core_closing_informers [simp]:
  "mc_informers (core_closing s c) = mc_informers c" "mc_stops (core_closing s c) = mc_stops c"
  by (simp_all add: core_closing_def)

lemma core_updates:
  "core (closing s m) = core_closing s (core m)"
  "core (with_informers f m) = (core m)\<lparr>mc_informers := f (mc_informers (core m))\<rparr>"
  "core (m\<lparr>cm_stops := n\<rparr>) = (core m)\<lparr>mc_stops := n\<rparr>"
  "core (m\<lparr>cm_skippedWrites := x\<rparr>) = core m" "core (m\<lparr>cm_performedWrites := x\<rparr>) = core m"
  "core (m\<lparr>cm_failedWrites := x\<rparr>) = core m"
  by (simp_all add: core_def closing_def core_closing_def with_informers_def)

lemma core_fields:
  "im_informers (cm_informers m) = mc_informers (core m)" "cm_stops m = mc_stops (core m)"
  "cm_closed m = mc_closed (core m)"
  by (simp_all add: core_def)

section \<open>Well-formed managers\<close>

text \<open>
  Every key is tracked once, with its informer; no channel was closed twice; and of the stop channels
  made so far each one is the channel of exactly one tracked informer, or has been closed.
\<close>

abbreviation stop_of :: "Identity \<times> trackedInformer \<Rightarrow> stop_channel" where
  "stop_of \<equiv> \<lambda>p. ti_stopCh (snd p)"

definition core_ok :: "manager_core \<Rightarrow> bool" where
  "core_ok c \<longleftrightarrow> distinct (map fst (mc_informers c)) \<and> \<not> mc_panicked c \<and>
     mset (map stop_of (mc_informers c) @ mc_closed c) = mset [0..<mc_stops c] \<and>
     (\<forall>p \<in> set (mc_informers c). ti_informer (snd p) \<noteq> None \<and> ti_lister (snd p) \<noteq> None)"

lemma core_ok_distinct: "core_ok c \<Longrightarrow> distinct (map stop_of (mc_informers c) @ mc_closed c)"
  by (metis core_ok_def distinct_upt mset_eq_imp_distinct_iff)

lemma core_ok_set: "core_ok c \<Longrightarrow> set (map stop_of (mc_informers c) @ mc_closed c) = {..<mc_stops c}"
  by (metis atLeast_upt core_ok_def mset_eq_setD)

lemma mset_AList_delete:
  "distinct (map fst xs) \<Longrightarrow> map_of xs k = Some v \<Longrightarrow> mset xs = add_mset (k, v) (mset (AList.delete k xs))"
proof (induction xs)
  case (Cons p xs)
  show ?case
  proof (cases "fst p = k")
    case True
    with Cons.prems have "k \<notin> fst ` set xs" "p = (k, v)" by (cases p; auto)+
    then have "AList.delete k (p # xs) = xs"
      by (simp add: delete_id)
    with \<open>p = (k, v)\<close> show ?thesis by simp
  next
    case False
    with Cons show ?thesis by (cases p) (auto simp: AList.delete_eq)
  qed
qed simp

lemma AList_update_new: "k \<notin> fst ` set xs \<Longrightarrow> AList.update k v xs = xs @ [(k, v)]"
  by (induction xs) auto

definition core_stop :: "Identity \<Rightarrow> trackedInformer \<Rightarrow> manager_core \<Rightarrow> manager_core" where
  "core_stop key ti c = (core_closing (ti_stopCh ti) c)\<lparr>mc_informers := AList.delete key (mc_informers c)\<rparr>"

lemma core_stop:
  assumes "core_ok c" "map_of (mc_informers c) key = Some ti"
  shows "core_ok (core_stop key ti c)"
    and "map_of (mc_informers (core_stop key ti c)) = (map_of (mc_informers c))(key := None)"
    and "mc_stops (core_stop key ti c) = mc_stops c"
proof -
  have "(key, ti) \<in> set (mc_informers c)" using assms(2) by (rule map_of_SomeD)
  then have new: "ti_stopCh ti \<notin> set (mc_closed c)" using core_ok_distinct [OF assms(1)] by force
  then have "core_stop key ti c =
      c\<lparr>mc_closed := ti_stopCh ti # mc_closed c, mc_informers := AList.delete key (mc_informers c)\<rparr>"
    by (simp add: core_stop_def core_closing_def)
  moreover have "mset (map stop_of (mc_informers c)) =
      add_mset (ti_stopCh ti) (mset (map stop_of (AList.delete key (mc_informers c))))"
    using mset_AList_delete [of "mc_informers c" key ti] assms by (simp add: core_ok_def)
  ultimately show "core_ok (core_stop key ti c)"
    using assms(1) by (auto simp: core_ok_def AList.delete_eq distinct_map_filter)
qed (simp_all add: core_stop_def core_closing_def delete_conv' fun_eq_iff)

lemma core_start:
  assumes "core_ok c" "map_of (mc_informers c) key = None" "ti_stopCh ti = mc_stops c"
    "ti_informer ti \<noteq> None" "ti_lister ti \<noteq> None"
  shows "core_ok (c\<lparr>mc_stops := mc_stops c + 1, mc_informers := AList.update key ti (mc_informers c)\<rparr>)"
  using assms by (simp add: core_ok_def map_of_eq_None_iff AList_update_new)

section \<open>The loops of \<open>Reconcile\<close>\<close>

definition core_stop_unseen :: "Identity list \<Rightarrow> Identity \<Rightarrow> manager_core \<Rightarrow> manager_core" where
  "core_stop_unseen seen key c =
     (case map_of (mc_informers c) key of
        None \<Rightarrow> c
      | Some ti \<Rightarrow> if key \<in> set seen then c else core_stop key ti c)"

lemma core_stop_fold:
  assumes "core_ok c"
  shows "core_ok (fold (core_stop_unseen seen) keys c)"
    and "mc_stops (fold (core_stop_unseen seen) keys c) = mc_stops c"
    and "map_of (mc_informers (fold (core_stop_unseen seen) keys c)) k =
           (if k \<in> set keys \<and> k \<notin> set seen then None else map_of (mc_informers c) k)"
proof -
  have one: "core_ok (core_stop_unseen seen key c)" "mc_stops (core_stop_unseen seen key c) = mc_stops c"
    "map_of (mc_informers (core_stop_unseen seen key c)) j =
       (if j = key \<and> key \<notin> set seen then None else map_of (mc_informers c) j)" if "core_ok c" for c key j
    using that core_stop [OF that] by (auto simp: core_stop_unseen_def split: option.split)
  have "core_ok (fold (core_stop_unseen seen) keys c) \<and>
      mc_stops (fold (core_stop_unseen seen) keys c) = mc_stops c \<and>
      map_of (mc_informers (fold (core_stop_unseen seen) keys c)) k =
        (if k \<in> set keys \<and> k \<notin> set seen then None else map_of (mc_informers c) k)"
    using assms
  proof (induction keys arbitrary: c)
    case (Cons key keys)
    show ?case
      using Cons.IH [OF one(1) [OF Cons.prems]] one(2,3) [OF Cons.prems, of key] by (auto split: if_splits)
  qed simp
  then show "core_ok (fold (core_stop_unseen seen) keys c)"
    "mc_stops (fold (core_stop_unseen seen) keys c) = mc_stops c"
    "map_of (mc_informers (fold (core_stop_unseen seen) keys c)) k =
       (if k \<in> set keys \<and> k \<notin> set seen then None else map_of (mc_informers c) k)"
    by blast+
qed

text \<open>
  What becomes of a wanted target: an informer on the right resource is kept as it is, with its cache;
  otherwise there is a new one on a channel made since, or the start failed and there is none.
\<close>

definition start_outcome ::
  "trackedInformer option \<Rightarrow> informerTarget \<Rightarrow> goerror option \<Rightarrow> nat \<Rightarrow> trackedInformer option \<Rightarrow> bool" where
  "start_outcome before target err fresh after =
     (case before of
        Some ti \<Rightarrow>
          if ti_gvr ti = it_gvr target then after = before \<and> err = None
          else (case err of
                  Some e \<Rightarrow> after = None
                | None \<Rightarrow> (\<exists>ti. after = Some ti \<and> ti_gvr ti = it_gvr target \<and> fresh \<le> ti_stopCh ti))
      | None \<Rightarrow>
          (case err of
             Some e \<Rightarrow> after = None
           | None \<Rightarrow> (\<exists>ti. after = Some ti \<and> ti_gvr ti = it_gvr target \<and> fresh \<le> ti_stopCh ti)))"

lemma start_outcome_fresh:
  "start_outcome b t err n a \<Longrightarrow> n' \<le> n \<Longrightarrow> start_outcome b t err n' a"
  by (auto simp: start_outcome_def split: option.splits if_splits)

definition loop_outcome ::
  "(Identity \<Rightarrow> informerTarget option) \<Rightarrow> Identity list \<Rightarrow> (Identity \<times> goerror) list \<Rightarrow> manager_core \<Rightarrow>
   (Identity \<times> goerror) list \<Rightarrow> manager_core \<Rightarrow> bool" where
  "loop_outcome want keys failed c failed' c' \<longleftrightarrow>
     core_ok c' \<and> mc_stops c \<le> mc_stops c' \<and>
     (\<forall>k. if k \<in> set keys \<and> want k \<noteq> None
          then start_outcome (map_of (mc_informers c) k) (the (want k)) (map_of failed' k) (mc_stops c)
                 (map_of (mc_informers c') k)
          else map_of (mc_informers c') k = map_of (mc_informers c) k \<and> map_of failed' k = map_of failed k)"

lemma loop_outcome_skip:
  assumes "want key = None" "loop_outcome want keys failed c failed' c'"
  shows "loop_outcome want (key # keys) failed c failed' c'"
proof -
  have "k \<in> set (key # keys) \<and> want k \<noteq> None \<longleftrightarrow> k \<in> set keys \<and> want k \<noteq> None" for k
    using assms(1) by auto
  with assms(2) show ?thesis unfolding loop_outcome_def by presburger
qed

lemma loop_outcome_step:
  assumes "want key = Some target" "core_ok c'" "mc_stops c \<le> mc_stops c'"
    and others: "\<And>k. k \<noteq> key \<Longrightarrow> map_of (mc_informers c') k = map_of (mc_informers c) k"
    and this_key: "start_outcome (map_of (mc_informers c) key) target err (mc_stops c) (map_of (mc_informers c') key)"
    and "key \<notin> set keys" "map_of failed key = None"
    and rest: "loop_outcome want keys (case err of None \<Rightarrow> failed | Some e \<Rightarrow> AList.update key e failed) c' failed' c''"
  shows "loop_outcome want (key # keys) failed c failed' c''"
  unfolding loop_outcome_def
proof (intro conjI allI)
  fix k
  let ?failed = "case err of None \<Rightarrow> failed | Some e \<Rightarrow> AList.update key e failed"
  have at: "map_of ?failed k = (if k = key then err else map_of failed k)"
    using assms(7) by (auto simp: update_conv split: option.split)
  have new: "if k \<in> set keys \<and> want k \<noteq> None
      then start_outcome (map_of (mc_informers c') k) (the (want k)) (map_of failed' k) (mc_stops c')
             (map_of (mc_informers c'') k)
      else map_of (mc_informers c'') k = map_of (mc_informers c') k \<and> map_of failed' k = map_of ?failed k"
    using rest unfolding loop_outcome_def by blast
  show "if k \<in> set (key # keys) \<and> want k \<noteq> None
      then start_outcome (map_of (mc_informers c) k) (the (want k)) (map_of failed' k) (mc_stops c)
             (map_of (mc_informers c'') k)
      else map_of (mc_informers c'') k = map_of (mc_informers c) k \<and> map_of failed' k = map_of failed k"
  proof (cases "k = key")
    case True
    then show ?thesis using new at this_key assms(1,6) by simp
  next
    case False
    then show ?thesis using new at others [OF False] start_outcome_fresh [OF _ assms(3)]
      by (auto split: if_splits)
  qed
qed (use rest assms(3) in \<open>auto simp: loop_outcome_def\<close>)

context poll_host
begin

lemma cwp_update: "(\<And>m. core m = c \<Longrightarrow> Q () (core (f m))) \<Longrightarrow> cwp h (update_memory h f) Q c"
  by (simp add: cwp_def update_memory_def wp_State load_store)

lemma cwp_call:
  "(\<And>a. Q a c) \<Longrightarrow> cwp h (rh_NewFilteredDynamicInformer h gvr ns d sel) Q c"
  "(\<And>a. Q2 a c) \<Longrightarrow> cwp h (rh_AddEventHandler h gi i) Q2 c"
  "(\<And>a. Q3 a c) \<Longrightarrow> cwp h (rh_go h g) Q3 c"
  by (simp_all add: cwp_keeps call_keeps)

lemma cwp_range:
  assumes "\<And>keys'. mset keys' = mset keys \<Longrightarrow> Q keys' c"
  shows "cwp h (rh_range h keys) Q c"
  using call_keeps(11) [of keys] range_once [of keys] assms
  by (auto simp: cwp_def wp_def keeps_def same_core_def split: prod.split) (metis snd_conv)

lemma cwp_stop_loop: "Q () (fold (core_stop_unseen seen) keys c) \<Longrightarrow> cwp h (stop_loop h seen keys) Q c"
proof (induction keys arbitrary: c)
  case (Cons key keys)
  then have IH: "cwp h (stop_loop h seen keys) Q (core_stop_unseen seen key c)" by simp
  have "cwp h (stop_unseen h seen key) (\<lambda>_. cwp h (stop_loop h seen keys) Q) c"
    unfolding stop_unseen_def
    by (rule cwp_bind, rule cwp_read)
      (use IH in \<open>auto simp: core_fields core_stop_unseen_def core_stop_def core_updates close_stop_def delete_informer_def
        intro!: cwp_return cwp_bind cwp_update split: option.splits if_splits\<close>)
  then show ?case by (simp add: cwp_bind)
qed (simp add: cwp_return)

lemma cwp_start:
  assumes "core_ok c" "map_of (mc_informers c) key = None"
    and "\<And>e. Q (Some e) c"
    and "\<And>ti c'. core_ok c' \<Longrightarrow> mc_stops c' = mc_stops c + 1 \<Longrightarrow>
       map_of (mc_informers c') = (map_of (mc_informers c))(key \<mapsto> ti) \<Longrightarrow> ti_gvr ti = it_gvr target \<Longrightarrow>
       ti_stopCh ti = mc_stops c \<Longrightarrow> Q None c'"
  shows "cwp h (start_informer l h key target) Q c"
proof -
  let ?ti = "\<lambda>gi. \<lparr>ti_informer = Some gi, ti_lister = Some gi, ti_stopCh = mc_stops c, ti_gvr = it_gvr target\<rparr>"
  let ?c = "\<lambda>gi. c\<lparr>mc_stops := mc_stops c + 1, mc_informers := AList.update key (?ti gi) (mc_informers c)\<rparr>"
  have last: "Q None (?c gi)" for gi
    using assms(1,2) by (intro assms(4) [where ti = "?ti gi"] core_start) (simp_all add: update_conv')
  have new: "cwp h (do {
         stopCh \<leftarrow> make_stop h;
         _ \<leftarrow> put_informer h key \<lparr>ti_informer = Some gi, ti_lister = Some gi, ti_stopCh = stopCh, ti_gvr = it_gvr target\<rparr>;
         _ \<leftarrow> rh_go h (RunInformer gi stopCh);
         _ \<leftarrow> rh_go h (AwaitSync key gi stopCh);
         State_Monad.return None
       }) Q c" for gi
    unfolding make_stop_def put_informer_def
    by (intro cwp_bind, rule cwp_read, intro cwp_bind, rule cwp_update)
      (use last in \<open>auto simp: core_updates core_fields intro!: cwp_return cwp_bind cwp_update cwp_call\<close>)
  show ?thesis
    unfolding start_informer_def
    by (intro cwp_bind cwp_call) (auto simp: new assms(3) intro!: cwp_return split: option.split)
qed

lemma cwp_ensure:
  assumes ok: "core_ok c"
    and outcome: "\<And>err c'. core_ok c' \<Longrightarrow> mc_stops c \<le> mc_stops c' \<Longrightarrow>
       (\<And>k. k \<noteq> key \<Longrightarrow> map_of (mc_informers c') k = map_of (mc_informers c) k) \<Longrightarrow>
       start_outcome (map_of (mc_informers c) key) target err (mc_stops c) (map_of (mc_informers c') key) \<Longrightarrow>
       Q err c'"
  shows "cwp h (ensure_informer l h key target) Q c"
proof (cases "map_of (mc_informers c) key")
  case None
  have "cwp h (start_informer l h key target) Q c"
    by (rule cwp_start [OF ok None]; rule outcome) (auto simp: ok None start_outcome_def)
  with None show ?thesis
    unfolding ensure_informer_def by (intro cwp_bind cwp_read) (simp add: core_fields)
next
  case (Some ti)
  note stop = core_stop [OF ok Some]
  have "cwp h (start_informer l h key target) Q (core_stop key ti c)" if "ti_gvr ti \<noteq> it_gvr target"
    by (rule cwp_start [OF stop(1)]; (rule outcome)?) (use that in \<open>auto simp: stop Some start_outcome_def\<close>)
  moreover have "Q None c" if "ti_gvr ti = it_gvr target"
    by (rule outcome) (use that in \<open>auto simp: ok Some start_outcome_def\<close>)
  ultimately show ?thesis
    unfolding ensure_informer_def close_stop_def delete_informer_def
    by (intro cwp_bind cwp_read)
      (auto simp: core_fields core_updates core_stop_def Some intro!: cwp_return cwp_bind cwp_update)
qed

lemma cwp_start_loop:
  assumes "core_ok c" "distinct keys" "set keys \<inter> fst ` set failed = {}"
    and "\<And>failed' c'. loop_outcome want keys failed c failed' c' \<Longrightarrow> Q failed' c'"
  shows "cwp h (start_loop l h want keys failed) Q c"
  using assms
proof (induction keys arbitrary: c failed)
  case Nil
  then show ?case by (simp add: cwp_return loop_outcome_def)
next
  case (Cons key keys)
  show ?case
  proof (cases "want key")
    case None
    have "cwp h (start_loop l h want keys failed) Q c"
      by (rule Cons.IH [OF Cons.prems(1)]) (use Cons.prems None in \<open>auto intro: loop_outcome_skip\<close>)
    with None show ?thesis by simp
  next
    case (Some target)
    show ?thesis
      unfolding start_loop.simps Some option.case
    proof (rule cwp_bind, rule cwp_ensure [OF Cons.prems(1)])
      fix err c'
      assume done_key: "core_ok c'" "mc_stops c \<le> mc_stops c'"
        "\<And>k. k \<noteq> key \<Longrightarrow> map_of (mc_informers c') k = map_of (mc_informers c) k"
        "start_outcome (map_of (mc_informers c) key) target err (mc_stops c) (map_of (mc_informers c') key)"
      let ?failed = "case err of None \<Rightarrow> failed | Some e \<Rightarrow> AList.update key e failed"
      have fresh: "set keys \<inter> fst ` set ?failed = {}" "distinct keys" "key \<notin> set keys" "map_of failed key = None"
        using Cons.prems(2,3) by (auto simp: dom_update map_of_eq_None_iff split: option.split)
      show "cwp h (start_loop l h want keys ?failed) Q c'"
      proof (rule Cons.IH [OF done_key(1) fresh(2,1)])
        fix failed' c''
        assume rest: "loop_outcome want keys ?failed c' failed' c''"
        show "Q failed' c''"
          by (rule Cons.prems(4), rule loop_outcome_step [of want key target c' c err keys failed])
            (fact Some done_key fresh rest)+
      qed
    qed
  qed
qed

end

end
