(* ===== verification/ReadLog.thy ===== *)
theory ReadLog
  imports ReadManager
begin

text \<open>
  A host of the read controller that keeps a log of the calls it receives, the newest first, and the
  effect of the poll goroutine on it.
\<close>

section \<open>The log\<close>

datatype read_event =
    RvCtxErr "goerror option"
  | RvNow timestamp
  | RvList string "ReadDesire list result"
  | RvGet Identity "ReadDesire result"
  | RvUpdate Identity ReadStatus "ReadDesire result"
  | RvResourceFor GroupVersionResource "GroupVersionResource result"
  | RvReset
  | RvLive ResourceInterface string "Unstructured result"
  | RvNewInformer GroupVersionResource string duration string informer
  | RvAddEventHandler informer Identity "goerror option"
  | RvHasSynced informer bool
  | RvListerGet informer "string option" string "Unstructured result"
  | RvWaitForCacheSync wait_channel informer bool
  | RvGo goroutine
  | RvRange "Identity list" "Identity list"
  | RvWaitGroup
  | RvTick "goerror option"
  | RvAdd Identity
  | RvQueueGet "Identity option"
  | RvDone Identity
  | RvForget Identity
  | RvAddRateLimited Identity
  | RvShutDown

definition read_logging :: "'w read_host \<Rightarrow> ('w \<times> read_event list) read_host" where
  "read_logging h = \<lparr>
     rh_load = (\<lambda>(w, tr). rh_load h w),
     rh_store = (\<lambda>m (w, tr). (rh_store h m w, tr)),
     rh_ctx_Err = log_call RvCtxErr (rh_ctx_Err h),
     rh_Now = log_call RvNow (rh_Now h),
     rh_ListReadDesires = (\<lambda>mc. log_call (RvList mc) (rh_ListReadDesires h mc)),
     rh_GetReadDesire = (\<lambda>i. log_call (RvGet i) (rh_GetReadDesire h i)),
     rh_UpdateReadDesireStatus = (\<lambda>i st. log_call (RvUpdate i st) (rh_UpdateReadDesireStatus h i st)),
     rh_ResourceFor = (\<lambda>gvr. log_call (RvResourceFor gvr) (rh_ResourceFor h gvr)),
     rh_Reset = log_call (\<lambda>_. RvReset) (rh_Reset h),
     rh_Get = (\<lambda>ri n. log_call (RvLive ri n) (rh_Get h ri n)),
     rh_NewFilteredDynamicInformer =
       (\<lambda>gvr ns d sel. log_call (RvNewInformer gvr ns d sel) (rh_NewFilteredDynamicInformer h gvr ns d sel)),
     rh_AddEventHandler = (\<lambda>gi i. log_call (RvAddEventHandler gi i) (rh_AddEventHandler h gi i)),
     rh_HasSynced = (\<lambda>gi. log_call (RvHasSynced gi) (rh_HasSynced h gi)),
     rh_ListerGet = (\<lambda>gi ns n. log_call (RvListerGet gi ns n) (rh_ListerGet h gi ns n)),
     rh_WaitForCacheSync = (\<lambda>ch gi. log_call (RvWaitForCacheSync ch gi) (rh_WaitForCacheSync h ch gi)),
     rh_go = (\<lambda>g. log_call (\<lambda>_. RvGo g) (rh_go h g)),
     rh_range = (\<lambda>ks. log_call (RvRange ks) (rh_range h ks)),
     rh_WaitGroup_Wait = log_call (\<lambda>_. RvWaitGroup) (rh_WaitGroup_Wait h),
     rh_tick = (\<lambda>d. log_call RvTick (rh_tick h d)),
     rh_queue_Add = (\<lambda>i. log_call (\<lambda>_. RvAdd i) (rh_queue_Add h i)),
     rh_queue_Get = log_call RvQueueGet (rh_queue_Get h),
     rh_queue_Done = (\<lambda>i. log_call (\<lambda>_. RvDone i) (rh_queue_Done h i)),
     rh_queue_Forget = (\<lambda>i. log_call (\<lambda>_. RvForget i) (rh_queue_Forget h i)),
     rh_queue_AddRateLimited = (\<lambda>i. log_call (\<lambda>_. RvAddRateLimited i) (rh_queue_AddRateLimited h i)),
     rh_queue_ShutDown = log_call (\<lambda>_. RvShutDown) (rh_queue_ShutDown h)\<rparr>"

lemma read_logging_sel [simp]:
  "rh_load (read_logging h) x = rh_load h (fst x)"
  "rh_store (read_logging h) m x = (rh_store h m (fst x), snd x)"
  "rh_ctx_Err (read_logging h) = log_call RvCtxErr (rh_ctx_Err h)"
  "rh_Now (read_logging h) = log_call RvNow (rh_Now h)"
  "rh_ListReadDesires (read_logging h) mc = log_call (RvList mc) (rh_ListReadDesires h mc)"
  "rh_GetReadDesire (read_logging h) i = log_call (RvGet i) (rh_GetReadDesire h i)"
  "rh_UpdateReadDesireStatus (read_logging h) i st = log_call (RvUpdate i st) (rh_UpdateReadDesireStatus h i st)"
  "rh_ResourceFor (read_logging h) gvr = log_call (RvResourceFor gvr) (rh_ResourceFor h gvr)"
  "rh_Reset (read_logging h) = log_call (\<lambda>_. RvReset) (rh_Reset h)"
  "rh_Get (read_logging h) ri nm = log_call (RvLive ri nm) (rh_Get h ri nm)"
  "rh_NewFilteredDynamicInformer (read_logging h) gvr ns d sel =
     log_call (RvNewInformer gvr ns d sel) (rh_NewFilteredDynamicInformer h gvr ns d sel)"
  "rh_AddEventHandler (read_logging h) gi i = log_call (RvAddEventHandler gi i) (rh_AddEventHandler h gi i)"
  "rh_HasSynced (read_logging h) gi = log_call (RvHasSynced gi) (rh_HasSynced h gi)"
  "rh_ListerGet (read_logging h) gi nso nm = log_call (RvListerGet gi nso nm) (rh_ListerGet h gi nso nm)"
  "rh_WaitForCacheSync (read_logging h) ch gi = log_call (RvWaitForCacheSync ch gi) (rh_WaitForCacheSync h ch gi)"
  "rh_go (read_logging h) g = log_call (\<lambda>_. RvGo g) (rh_go h g)"
  "rh_range (read_logging h) ks = log_call (RvRange ks) (rh_range h ks)"
  "rh_WaitGroup_Wait (read_logging h) = log_call (\<lambda>_. RvWaitGroup) (rh_WaitGroup_Wait h)"
  "rh_tick (read_logging h) d = log_call RvTick (rh_tick h d)"
  "rh_queue_Add (read_logging h) i = log_call (\<lambda>_. RvAdd i) (rh_queue_Add h i)"
  "rh_queue_Get (read_logging h) = log_call RvQueueGet (rh_queue_Get h)"
  "rh_queue_Done (read_logging h) i = log_call (\<lambda>_. RvDone i) (rh_queue_Done h i)"
  "rh_queue_Forget (read_logging h) i = log_call (\<lambda>_. RvForget i) (rh_queue_Forget h i)"
  "rh_queue_AddRateLimited (read_logging h) i = log_call (\<lambda>_. RvAddRateLimited i) (rh_queue_AddRateLimited h i)"
  "rh_queue_ShutDown (read_logging h) = log_call (\<lambda>_. RvShutDown) (rh_queue_ShutDown h)"
  by (simp_all add: read_logging_def split_beta)

lemma keeps_log_call: "keeps R m \<Longrightarrow> keeps (\<lambda>x y. R (fst x) (fst y)) (log_call ev m)"
  by (auto simp: keeps_def log_call_def split_beta)

lemma poll_host_logging:
  assumes "poll_host h"
  shows "poll_host (read_logging h)"
proof -
  note laws = poll_host.load_store [OF assms] poll_host.call_keeps [OF assms]
  have same: "same_core (read_logging h) = (\<lambda>x y. same_core h (fst x) (fst y))"
    by (simp add: same_core_def fun_eq_iff)
  show ?thesis
  proof
    show "run_state (rh_range (read_logging h) keys) w = (keys', w') \<Longrightarrow> mset keys' = mset keys" for keys w keys' w'
      using poll_host.range_once [OF assms, of keys "fst w"] by (auto simp: log_call_def split_beta) (metis prod.collapse)
  qed (simp_all add: laws same keeps_log_call)
qed

section \<open>Calls that write no status\<close>

definition no_write :: "read_event \<Rightarrow> bool" where
  "no_write e = (case e of RvUpdate i st res \<Rightarrow> False | _ \<Rightarrow> True)"

lemma no_write_simps [simp]:
  "no_write (RvCtxErr ce)" "no_write (RvNow now)" "no_write (RvList mc listed)" "no_write (RvGet i got)"
  "\<not> no_write (RvUpdate i st upd)" "no_write (RvResourceFor gvr gres)" "no_write RvReset" "no_write (RvLive ri nm live)"
  "no_write (RvNewInformer gvr ns d sel gi)" "no_write (RvAddEventHandler gi i ce)" "no_write (RvHasSynced gi b)"
  "no_write (RvListerGet gi nso nm live)" "no_write (RvGo g)" "no_write (RvRange ks ks')" "no_write (RvTick ce)"
  "no_write (RvQueueGet qi)" "no_write (RvDone i)" "no_write (RvForget i)" "no_write (RvAddRateLimited i)"
  by (simp_all add: no_write_def)

text \<open>Code that only adds such calls to the log.\<close>

definition write_free :: "'w \<times> read_event list \<Rightarrow> 'w \<times> read_event list \<Rightarrow> bool" where
  "write_free x y \<longleftrightarrow> (\<exists>calls. snd y = calls @ snd x \<and> list_all no_write calls)"

interpretation write_free_order: kept_order write_free
proof
  show "write_free x x" for x :: "'w \<times> read_event list"
    unfolding write_free_def by (rule exI [of _ "[]"]) simp
  show "write_free x z" if "write_free x y" "write_free y z" for x y z :: "'w \<times> read_event list"
    using that unfolding write_free_def by (metis append.assoc list_all_append)
qed

lemma keeps_write_free:
  "(\<And>r. no_write (ev r)) \<Longrightarrow> keeps write_free (log_call ev m)"
  "keeps write_free (read_memory (read_logging h))"
  "keeps write_free (update_memory (read_logging h) f)"
  by (auto simp: keeps_def write_free_def log_call_def read_memory_def update_memory_def split_beta)

lemmas write_free_rules = keeps_rules keeps_write_free

lemma start_informer_write_free: "keeps write_free (start_informer l (read_logging h) key target)"
  unfolding start_informer_def make_stop_def put_informer_def read_logging_sel by (intro write_free_rules; simp)

lemma stop_loop_write_free: "keeps write_free (stop_loop (read_logging h) seen keys)"
  by (induction keys)
    (auto simp: stop_unseen_def close_stop_def delete_informer_def intro!: write_free_rules split: option.split)

lemma start_loop_write_free: "keeps write_free (start_loop l (read_logging h) want keys failed)"
  by (induction keys arbitrary: failed)
    (auto simp: ensure_informer_def close_stop_def delete_informer_def intro!: write_free_rules start_informer_write_free
      split: option.split)

lemma Reconcile_write_free: "keeps write_free (Reconcile l (read_logging h) seen want)"
  unfolding Reconcile_def read_logging_sel by (intro write_free_rules stop_loop_write_free start_loop_write_free; simp)

lemma shutdownAll_write_free: "keeps write_free (shutdownAll (read_logging h))"
  unfolding shutdownAll_def read_logging_sel by (intro write_free_rules stop_loop_write_free; simp)

lemma write_free_suffix: "write_free x y \<Longrightarrow> suffix (snd x) (snd y)"
  by (auto simp: write_free_def suffix_def)

end
