(* ===== verification/ReadWorker.thy ===== *)
theory ReadWorker
  imports ReadLog
begin

text \<open>
  What the workers write. The status of a desire follows from the calls made for it since its record was
  read: each rule below names the answers of the informer's cache and of the API server, newest first,
  and the condition and the content they lead to.
\<close>

section \<open>The verdict on a desire\<close>

abbreviation read_failed :: "ReadDesire \<Rightarrow> string \<Rightarrow> string \<Rightarrow> Condition" where
  "read_failed d reason msg \<equiv> SuccessfulCondition ConditionFalse (rd_Generation d) reason msg"

abbreviation read_mirrored :: "ReadDesire \<Rightarrow> Condition" where
  "read_mirrored d \<equiv> SuccessfulCondition ConditionTrue (rd_Generation d) ReasonSynced []"

abbreviation old_content :: "ReadDesire \<Rightarrow> bytes" where
  "old_content d \<equiv> rs_KubeContent (rd_Status d)"

definition declared :: "Identity \<Rightarrow> ReadDesire \<Rightarrow> GroupVersionResource" where
  "declared key d = \<lparr>gvr_Group = Group key, gvr_Version = rd_TargetVersion d, gvr_Resource = Resource key\<rparr>"

text \<open>The calls of \<open>resolveGVR\<close> and what it returns.\<close>

inductive resolution :: "read_lib \<Rightarrow> GroupVersionResource \<Rightarrow> read_event list \<Rightarrow> GroupVersionResource result \<Rightarrow> bool"
  for l part where
  first: "case res of Inl err \<Rightarrow> \<not> IsNoMatchError (rl_kube l) err | Inr gvr \<Rightarrow> True \<Longrightarrow>
    resolution l part [RvResourceFor part res] res"
| retried: "IsNoMatchError (rl_kube l) err \<Longrightarrow>
    resolution l part [RvResourceFor part res, RvReset, RvResourceFor part (Inl err)] res"

text \<open>The content of an object, or the error of printing it.\<close>

inductive content_verdict :: "read_lib \<Rightarrow> ReadDesire \<Rightarrow> Unstructured \<Rightarrow> Condition \<Rightarrow> bytes \<Rightarrow> bool" for l d obj where
  printed: "rl_MarshalObject l obj = Inr content \<Longrightarrow> content_verdict l d obj (read_mirrored d) content"
| unprintable: "rl_MarshalObject l obj = Inl err \<Longrightarrow>
    content_verdict l d obj (read_failed d ReasonKubeAPIError (error_text err)) (old_content d)"

inductive live_verdict :: "read_lib \<Rightarrow> Identity \<Rightarrow> ReadDesire \<Rightarrow> read_event list \<Rightarrow> Condition \<Rightarrow> bytes \<Rightarrow> bool"
  for l key d where
  unresolved: "resolution l (declared key d) tr (Inl err) \<Longrightarrow>
    live_verdict l key d tr (read_failed d ReasonKubeAPIError (error_text err)) (old_content d)"
| live_absent: "resolution l (declared key d) tr (Inr gvr) \<Longrightarrow> IsNotFoundError (rl_kube l) err \<Longrightarrow>
    live_verdict l key d (RvLive \<lparr>ri_Resource = gvr, ri_Namespace = namespace_of key\<rparr> (Name key) (Inl err) # tr)
      (read_failed d ReasonNotFound []) []"
| live_error: "resolution l (declared key d) tr (Inr gvr) \<Longrightarrow> \<not> IsNotFoundError (rl_kube l) err \<Longrightarrow>
    live_verdict l key d (RvLive \<lparr>ri_Resource = gvr, ri_Namespace = namespace_of key\<rparr> (Name key) (Inl err) # tr)
      (read_failed d ReasonKubeAPIError (error_text err)) (old_content d)"
| live_mismatch: "resolution l (declared key d) tr (Inr gvr) \<Longrightarrow> object_version obj \<noteq> rd_TargetVersion d \<Longrightarrow>
    live_verdict l key d (RvLive \<lparr>ri_Resource = gvr, ri_Namespace = namespace_of key\<rparr> (Name key) (Inr obj) # tr)
      (read_failed d ReasonKubeAPIError (error_text (still_mismatched (object_version obj) (rd_TargetVersion d))))
      (old_content d)"
| live_object: "resolution l (declared key d) tr (Inr gvr) \<Longrightarrow> object_version obj = rd_TargetVersion d \<Longrightarrow>
    content_verdict l d obj cond content \<Longrightarrow>
    live_verdict l key d (RvLive \<lparr>ri_Resource = gvr, ri_Namespace = namespace_of key\<rparr> (Name key) (Inr obj) # tr)
      cond content"

inductive read_verdict :: "read_lib \<Rightarrow> Identity \<Rightarrow> ReadDesire \<Rightarrow> read_event list \<Rightarrow> Condition \<Rightarrow> bytes \<Rightarrow> bool"
  for l key d where
  untracked: "read_verdict l key d [] (read_failed d ReasonNotFound []) []"
| absent: "IsNotFoundError (rl_kube l) err \<Longrightarrow>
    read_verdict l key d [RvListerGet lister (namespace_of key) (Name key) (Inl err), RvHasSynced informer True]
      (read_failed d ReasonNotFound []) []"
| unsynced: "IsNotFoundError (rl_kube l) err \<Longrightarrow>
    read_verdict l key d [RvListerGet lister (namespace_of key) (Name key) (Inl err), RvHasSynced informer False]
      (read_failed d ReasonKubeAPIError (error_text (unsynced_absence err))) (old_content d)"
| cache_error: "\<not> IsNotFoundError (rl_kube l) err \<Longrightarrow>
    read_verdict l key d [RvListerGet lister (namespace_of key) (Name key) (Inl err), RvHasSynced informer b]
      (read_failed d ReasonKubeAPIError (error_text err)) (old_content d)"
| cached: "object_version obj = rd_TargetVersion d \<Longrightarrow> content_verdict l d obj cond content \<Longrightarrow>
    read_verdict l key d [RvListerGet lister (namespace_of key) (Name key) (Inr obj), RvHasSynced informer b]
      cond content"
| stale: "object_version obj \<noteq> rd_TargetVersion d \<Longrightarrow> live_verdict l key d tr cond content \<Longrightarrow>
    read_verdict l key d
      (tr @ [RvListerGet lister (namespace_of key) (Name key) (Inr obj), RvHasSynced informer b]) cond content"

text \<open>A status write follows from the verdict, for the record read right before, and changes it.\<close>

definition status_for :: "kube_lib \<Rightarrow> timestamp \<Rightarrow> ReadDesire \<Rightarrow> Condition \<Rightarrow> bytes \<Rightarrow> ReadStatus" where
  "status_for k now d cond content =
     \<lparr>rs_Status = \<lparr>Conditions = SetCond k now (Conditions (rs_Status (rd_Status d))) cond\<rparr>, rs_KubeContent = content\<rparr>"

definition write_justified :: "read_lib \<Rightarrow> read_event \<Rightarrow> read_event list \<Rightarrow> bool" where
  "write_justified l e older =
     (case e of
        RvUpdate key st res \<Rightarrow>
          (\<exists>now answers d cond content before.
             older = RvNow now # answers @ RvGet key (Inr d) # before \<and>
             read_verdict l key d answers cond content \<and>
             st = status_for (rl_kube l) now d cond content \<and>
             \<not> readStatusEqual (rl_kube l) st (rd_Status d))
      | _ \<Rightarrow> True)"

section \<open>The calls of a worker\<close>

lemma wp_clock:
  assumes "\<And>now w'. Q (status_for k now d cond content) (w', RvNow now # tr)"
  shows "wp (withReadCondition k (log_call RvNow (rh_Now h)) (rd_Status d) cond content) Q (w, tr)"
  unfolding withReadCondition_def with_condition_def wp_bind
  by (rule wp_logI) (use assms in \<open>simp add: wp_rules status_for_def\<close>)

text \<open>The code up to the status, and the calls it made on top of \<open>tr\<close>.\<close>

definition status_calls :: "read_lib \<Rightarrow> ReadDesire \<Rightarrow> (read_event list \<Rightarrow> Condition \<Rightarrow> bytes \<Rightarrow> bool) \<Rightarrow>
    read_event list \<Rightarrow> ReadStatus \<Rightarrow> 'w \<times> read_event list \<Rightarrow> bool" where
  "status_calls l d verdict tr st x \<longleftrightarrow>
     (\<exists>now answers cond content. snd x = RvNow now # answers @ tr \<and> verdict answers cond content \<and>
        st = status_for (rl_kube l) now d cond content)"

lemma status_callsI:
  "verdict answers cond content \<Longrightarrow>
   status_calls l d verdict tr (status_for (rl_kube l) now d cond content) (w, RvNow now # answers @ tr)"
  by (auto simp: status_calls_def)

lemma wp_status:
  "verdict answers cond content \<Longrightarrow>
   wp (withReadCondition (rl_kube l) (log_call RvNow (rh_Now h)) (rd_Status d) cond content)
     (status_calls l d verdict tr) (w, answers @ tr)"
  by (rule wp_clock) (rule status_callsI)

lemma wp_mirror:
  assumes "\<And>cond content. content_verdict l d obj cond content \<Longrightarrow> verdict answers cond content"
  shows "wp (mirror l (read_logging h) (rd_Status d) (rd_Generation d) obj) (status_calls l d verdict tr) (w, answers @ tr)"
  unfolding mirror_def synced_def kubeAPIError_def
  by (auto intro!: wp_status assms content_verdict.intros split: sum.split)

lemma wp_resolveGVR:
  assumes "\<And>res answers w'. resolution l \<lparr>gvr_Group = grp, gvr_Version = v, gvr_Resource = r\<rparr> answers res \<Longrightarrow>
    Q res (w', answers @ tr)"
  shows "wp (resolveGVR l (read_logging h) grp v r) Q (w, tr)"
  unfolding resolveGVR_def Let_def wp_bind read_logging_sel
proof (rule wp_logI)
  fix res w'
  let ?part = "\<lparr>gvr_Group = grp, gvr_Version = v, gvr_Resource = r\<rparr>"
  have once: "Q res (w', RvResourceFor ?part res # tr)"
    if "case res of Inl err \<Rightarrow> \<not> IsNoMatchError (rl_kube l) err | Inr gvr \<Rightarrow> True"
    using assms [OF resolution.first [OF that]] by simp
  have twice: "Q res' (w'', RvResourceFor ?part res' # RvReset # RvResourceFor ?part (Inl err) # tr)"
    if "IsNoMatchError (rl_kube l) err" for err res' w''
    using assms [OF resolution.retried [OF that]] by simp
  show "wp (case res of
      Inl err \<Rightarrow> if IsNoMatchError (rl_kube l) err
        then log_call (\<lambda>_. RvReset) (rh_Reset h) \<bind> (\<lambda>_. log_call (RvResourceFor ?part) (rh_ResourceFor h ?part))
        else State_Monad.return (Inl err)
    | Inr gvr \<Rightarrow> State_Monad.return (Inr gvr)) Q (w', RvResourceFor ?part res # snd (w, tr))"
    using once twice by (auto simp: wp_rules split: sum.splits prod.split)
qed

lemma wp_observeLive:
  assumes "\<And>answers cond content. live_verdict l key d answers cond content \<Longrightarrow> verdict (answers @ read) cond content"
  shows "wp (observeLive l (read_logging h) key (rd_TargetVersion d) (rd_Generation d) (rd_Status d))
     (status_calls l d verdict tr) (w, read @ tr)"
  unfolding observeLive_def wp_bind
proof (rule wp_resolveGVR, goal_cases)
  case (1 res answers w')
  then have res: "resolution l (declared key d) answers res" by (simp add: declared_def)
  have status: "wp (withReadCondition (rl_kube l) (log_call RvNow (rh_Now h)) (rd_Status d) cond content)
      (status_calls l d verdict tr) (w'', calls @ read @ tr)"
    if "live_verdict l key d calls cond content" for cond content calls w''
    using wp_status [of verdict "calls @ read", OF assms [OF that]] by simp
  show ?case
  proof (cases res)
    case (Inl err)
    then show ?thesis
      using status [OF live_verdict.unresolved] res by (auto simp: kubeAPIError_def)
  next
    case (Inr gvr)
    note res = res [unfolded Inr]
    show ?thesis
      unfolding Inr sum.case wp_bind read_logging_sel
    proof (rule wp_logI, goal_cases)
      case (1 got w2)
      show ?case
      proof (cases got)
        case (Inl err)
        then show ?thesis
          using status [OF live_verdict.live_absent [OF res]] status [OF live_verdict.live_error [OF res]]
          by (auto simp: notFound_def kubeAPIError_def)
      next
        case (Inr obj)
        have "wp (mirror l (read_logging h) (rd_Status d) (rd_Generation d) obj) (status_calls l d verdict tr)
            (w2, ((RvLive \<lparr>ri_Resource = gvr, ri_Namespace = namespace_of key\<rparr> (Name key) (Inr obj) # answers) @ read) @ tr)"
          if "object_version obj = rd_TargetVersion d"
          by (rule wp_mirror, rule assms, rule live_verdict.live_object [OF res that])
        with Inr show ?thesis
          using status [OF live_verdict.live_mismatch [OF res]] by (auto simp: kubeAPIError_def)
      qed
    qed
  qed
qed

lemma wp_observe:
  "wp (observe l (read_logging h) key (rd_TargetVersion d) (rd_Generation d) (rd_Status d))
     (status_calls l d (read_verdict l key d) tr) (w, tr)"
proof -
  have status: "wp (withReadCondition (rl_kube l) (log_call RvNow (rh_Now h)) (rd_Status d) cond content)
      (status_calls l d (read_verdict l key d) tr) (w', calls @ tr)"
    if "read_verdict l key d calls cond content" for cond content calls w'
    using that by (rule wp_status)
  have cache: "wp (do {
         got \<leftarrow> rh_ListerGet (read_logging h) lister (namespace_of key) (Name key);
         case got of
           Inl err \<Rightarrow>
             if IsNotFoundError (rl_kube l) err then
               (if \<not> b then
                  kubeAPIError (rl_kube l) (rh_Now (read_logging h)) (rd_Status d) (rd_Generation d) (unsynced_absence err)
                else notFound (rl_kube l) (rh_Now (read_logging h)) (rd_Status d) (rd_Generation d))
             else kubeAPIError (rl_kube l) (rh_Now (read_logging h)) (rd_Status d) (rd_Generation d) err
         | Inr obj \<Rightarrow>
             if object_version obj \<noteq> rd_TargetVersion d then
               observeLive l (read_logging h) key (rd_TargetVersion d) (rd_Generation d) (rd_Status d)
             else mirror l (read_logging h) (rd_Status d) (rd_Generation d) obj
       }) (status_calls l d (read_verdict l key d) tr) (w', RvHasSynced informer b # tr)" for lister informer b w'
    unfolding wp_bind read_logging_sel
  proof (rule wp_logI, goal_cases)
    case (1 got w2)
    let ?read = "\<lambda>got. [RvListerGet lister (namespace_of key) (Name key) got, RvHasSynced informer b]"
    show ?case
    proof (cases got)
      case (Inl err)
      then show ?thesis
        using status [OF read_verdict.absent] status [OF read_verdict.unsynced] status [OF read_verdict.cache_error]
        by (cases b) (auto simp: notFound_def kubeAPIError_def)
    next
      case (Inr obj)
      have "wp (mirror l (read_logging h) (rd_Status d) (rd_Generation d) obj)
          (status_calls l d (read_verdict l key d) tr) (w2, ?read (Inr obj) @ tr)"
        if "object_version obj = rd_TargetVersion d"
        using that by (intro wp_mirror read_verdict.cached)
      moreover have "wp (observeLive l (read_logging h) key (rd_TargetVersion d) (rd_Generation d) (rd_Status d))
          (status_calls l d (read_verdict l key d) tr) (w2, ?read (Inr obj) @ tr)"
        if "object_version obj \<noteq> rd_TargetVersion d"
        using that by (intro wp_observeLive read_verdict.stale)
      ultimately show ?thesis by (simp add: Inr)
    qed
  qed
  have none: "wp (notFound (rl_kube l) (rh_Now (read_logging h)) (rd_Status d) (rd_Generation d))
      (status_calls l d (read_verdict l key d) tr) (w, tr)"
    using status [OF read_verdict.untracked] by (simp add: notFound_def)
  show ?thesis
    unfolding observe_def Lister_def read_memory_def wp_bind wp_State
    using none cache
    by (auto simp: wp_return wp_bind wp_bind_eta wp_log_call split: option.split prod.split)
qed

section \<open>One item of the queue\<close>

text \<open>The calls of \<open>applyStatus\<close>, newest first, and what it returns, when \<open>verdict\<close> explains the status.\<close>

inductive apply_calls ::
  "read_lib \<Rightarrow> Identity \<Rightarrow> (ReadDesire \<Rightarrow> read_event list \<Rightarrow> Condition \<Rightarrow> bytes \<Rightarrow> bool) \<Rightarrow>
   read_event list \<Rightarrow> goerror option \<Rightarrow> bool" for l i verdict where
  gone: "errors_Is e ErrNotFound \<Longrightarrow> apply_calls l i verdict [RvGet i (Inl e)] None"
| unread: "\<not> errors_Is e ErrNotFound \<Longrightarrow>
    apply_calls l i verdict [RvGet i (Inl e)]
      (Some (wrap (''readdesire: get read desire '' @ namespaced_name i) e))"
| unchanged: "verdict d answers cond content \<Longrightarrow>
    readStatusEqual (rl_kube l) (status_for (rl_kube l) now d cond content) (rd_Status d) \<Longrightarrow>
    apply_calls l i verdict (RvNow now # answers @ [RvGet i (Inr d)]) None"
| written: "verdict d answers cond content \<Longrightarrow> st = status_for (rl_kube l) now d cond content \<Longrightarrow>
    \<not> readStatusEqual (rl_kube l) st (rd_Status d) \<Longrightarrow>
    apply_calls l i verdict (RvUpdate i st (Inr d') # RvNow now # answers @ [RvGet i (Inr d)]) None"
| refused: "verdict d answers cond content \<Longrightarrow> st = status_for (rl_kube l) now d cond content \<Longrightarrow>
    \<not> readStatusEqual (rl_kube l) st (rd_Status d) \<Longrightarrow>
    apply_calls l i verdict (RvUpdate i st (Inl e) # RvNow now # answers @ [RvGet i (Inr d)])
      (Some (wrap (''readdesire: update read desire status '' @ namespaced_name i) e))"

lemma wp_applyStatus:
  assumes compute: "\<And>d w'. wp (compute d) (status_calls l d (verdict d) (RvGet i (Inr d) # tr)) (w', RvGet i (Inr d) # tr)"
    and Q: "\<And>calls err w'. apply_calls l i verdict calls err \<Longrightarrow> Q err (w', calls @ tr)"
  shows "wp (applyStatus l (read_logging h) i compute) Q (w, tr)"
  unfolding applyStatus_def wp_bind read_logging_sel
proof (rule wp_logI, goal_cases)
  case (1 got w')
  show ?case
  proof (cases got)
    case (Inl e)
    then show ?thesis
      using Q [OF apply_calls.gone] Q [OF apply_calls.unread] by (auto simp: wp_return)
  next
    case (Inr d)
    show ?thesis
      unfolding Inr sum.case wp_bind snd_conv
    proof (rule wp_mono [OF compute], goal_cases)
      case (1 st x)
      then obtain now answers cond content where x: "snd x = RvNow now # answers @ RvGet i (Inr d) # tr"
        and v: "verdict d answers cond content" and st: "st = status_for (rl_kube l) now d cond content"
        by (auto simp: status_calls_def)
      show ?case
      proof (cases "readStatusEqual (rl_kube l) st (rd_Status d)")
        case True
        then show ?thesis
          using Q [OF apply_calls.unchanged [of verdict, OF v]] st x by (simp add: wp_rules update_memory_def)
      next
        case False
        note done_calls = Q [OF apply_calls.written [of verdict, OF v st False]] Q [OF apply_calls.refused [of verdict, OF v st False]]
        show ?thesis
          using False done_calls x
          by (auto simp: wp_rules wp_bind_eta update_memory_def split: sum.split prod.split)
      qed
    qed
  qed
qed

lemma wp_sync:
  assumes "\<And>calls err w'. apply_calls l key (read_verdict l key) calls err \<Longrightarrow> Q err (w', calls @ tr)"
  shows "wp (sync l (read_logging h) key) Q (w, tr)"
  unfolding sync_def by (rule wp_applyStatus) (rule wp_observe assms, assumption?)+

text \<open>
  What a worker does with an item: it takes a key, makes the calls of \<open>sync\<close>, forgets the key or has it
  retried, and marks it done.
\<close>

definition retried_after :: "goerror option \<Rightarrow> bool" where
  "retried_after err = (case err of None \<Rightarrow> False | Some e \<Rightarrow> \<not> context_error e)"

definition item_calls :: "read_lib \<Rightarrow> read_event list \<Rightarrow> bool \<Rightarrow> bool" where
  "item_calls l calls again \<longleftrightarrow>
     (if again then
        (\<exists>key syncing err. apply_calls l key (read_verdict l key) syncing err \<and>
           calls = RvDone key # (if retried_after err then RvAddRateLimited key else RvForget key) #
             syncing @ [RvQueueGet (Some key)])
      else calls = [RvQueueGet None])"

lemma wp_processNextWorkItem:
  assumes "\<And>calls again w'. item_calls l calls again \<Longrightarrow> Q again (w', calls @ tr)"
  shows "wp (processNextWorkItem l (read_logging h)) Q (w, tr)"
  unfolding processNextWorkItem_def wp_bind read_logging_sel
proof (rule wp_logI, goal_cases)
  case (1 got w')
  show ?case
  proof (cases got)
    case None
    then show ?thesis using assms [of "[RvQueueGet None]" False] by (simp add: wp_return item_calls_def)
  next
    case (Some key)
    show ?thesis
      unfolding Some option.case wp_bind snd_conv
    proof (rule wp_sync, goal_cases)
      case (1 calls err w2)
      let ?calls = "RvDone key # (if retried_after err then RvAddRateLimited key else RvForget key) #
        calls @ [RvQueueGet (Some key)]"
      have "item_calls l ?calls True" using 1 by (auto simp: item_calls_def)
      from assms [OF this] show ?case
        by (cases err) (auto simp: wp_rules wp_bind_eta retried_after_def split: prod.split)
    qed
  qed
qed

end
