(* ===== verification/ReadPoll.thy ===== *)
theory ReadPoll
  imports ReadLog
begin

text \<open>
  One tick of the poll loop and the life of the controller: which informers run after it, and that every
  informer that was started is stopped exactly once.
\<close>

section \<open>Reconcile\<close>

text \<open>
  The effect of \<open>Reconcile\<close>. A key that is wanted gets what \<^const>\<open>start_outcome\<close> says of the informer
  it had if it is seen; any other key keeps its informer exactly when it is seen.
\<close>

definition reconciled ::
  "Identity set \<Rightarrow> (Identity \<times> informerTarget) list \<Rightarrow> manager_core \<Rightarrow> (Identity \<times> goerror) list \<Rightarrow>
   manager_core \<Rightarrow> bool" where
  "reconciled seen want c failed c' \<longleftrightarrow>
     core_ok c' \<and> mc_stops c \<le> mc_stops c' \<and>
     (\<forall>k. let before = (if k \<in> seen then map_of (mc_informers c) k else None); after = map_of (mc_informers c') k in
        case map_of want k of
          Some target \<Rightarrow> start_outcome before target (map_of failed k) (mc_stops c) after
        | None \<Rightarrow> after = before \<and> map_of failed k = None)"

context poll_host
begin

lemma cwp_Reconcile:
  assumes ok: "core_ok c" and want: "distinct (map fst want)"
    and Q: "\<And>failed c'. reconciled (set seen) want c failed c' \<Longrightarrow> Q failed c'"
  shows "cwp h (Reconcile l h seen want) Q c"
proof -
  have starts: "cwp h (start_loop l h (map_of want) wanted []) Q c1"
    if c1: "c1 = fold (core_stop_unseen seen) keys c" and keys: "mset keys = mset (map fst (mc_informers c))"
      and wanted: "mset wanted = mset (map fst want)" for keys wanted c1
  proof (rule cwp_start_loop)
    note stopped = core_stop_fold [OF ok, of seen keys, folded c1]
    show "core_ok c1" by (rule stopped)
    show "distinct wanted" using want mset_eq_imp_distinct_iff [OF wanted] by simp
    fix failed c'
    assume after: "loop_outcome (map_of want) wanted [] c1 failed c'"
    have dom: "map_of want k \<noteq> None \<longleftrightarrow> k \<in> set wanted" for k
      using mset_eq_setD [OF wanted] by (simp add: map_of_eq_None_iff)
    have gone: "map_of (mc_informers c1) k = (if k \<in> set seen then map_of (mc_informers c) k else None)" for k
      using stopped(3) [of k] mset_eq_setD [OF keys] by (simp add: map_of_eq_None_iff)
    have each: "if k \<in> set wanted then start_outcome (map_of (mc_informers c1) k) (the (map_of want k)) (map_of failed k)
          (mc_stops c) (map_of (mc_informers c') k)
        else map_of (mc_informers c') k = map_of (mc_informers c1) k \<and> map_of failed k = None" for k
    proof -
      have "if k \<in> set wanted \<and> map_of want k \<noteq> None
          then start_outcome (map_of (mc_informers c1) k) (the (map_of want k)) (map_of failed k) (mc_stops c1)
                 (map_of (mc_informers c') k)
          else map_of (mc_informers c') k = map_of (mc_informers c1) k \<and> map_of failed k = map_of [] k"
        using after unfolding loop_outcome_def by blast
      then show ?thesis using dom [of k] stopped(2) by (cases "k \<in> set wanted") simp_all
    qed
    have "reconciled (set seen) want c failed c'"
      unfolding reconciled_def Let_def
    proof (intro conjI allI)
      show "case map_of want k of
          Some target \<Rightarrow> start_outcome (if k \<in> set seen then map_of (mc_informers c) k else None) target
            (map_of failed k) (mc_stops c) (map_of (mc_informers c') k)
        | None \<Rightarrow> map_of (mc_informers c') k = (if k \<in> set seen then map_of (mc_informers c) k else None) \<and>
            map_of failed k = None" for k
        using each [of k] dom [of k] gone [of k] by (cases "map_of want k") auto
    qed (use after stopped(2) in \<open>auto simp: loop_outcome_def\<close>)
    then show "Q failed c'" by (rule Q)
  qed simp
  show ?thesis
    unfolding Reconcile_def
    by (intro cwp_bind, rule cwp_read, intro cwp_bind, rule cwp_range, intro cwp_bind, rule cwp_stop_loop,
        intro cwp_bind, rule cwp_range, rule starts) (auto simp: core_fields)
qed

lemma cwp_shutdownAll:
  assumes "core_ok c"
    and "\<And>c'. core_ok c' \<Longrightarrow> mc_informers c' = [] \<Longrightarrow> mc_stops c' = mc_stops c \<Longrightarrow> Q () c'"
  shows "cwp h (shutdownAll h) Q c"
proof -
  have "Q () (fold (core_stop_unseen []) keys c)" if keys: "mset keys = mset (map fst (mc_informers c))" for keys
  proof (rule assms(2))
    note stopped = core_stop_fold [OF assms(1), of "[]" keys]
    show "core_ok (fold (core_stop_unseen []) keys c)" "mc_stops (fold (core_stop_unseen []) keys c) = mc_stops c"
      by (rule stopped)+
    have "map_of (mc_informers (fold (core_stop_unseen []) keys c)) k = None" for k
      using stopped(3) [of k] mset_eq_setD [OF keys] by (simp add: map_of_eq_None_iff)
    then show "mc_informers (fold (core_stop_unseen []) keys c) = []"
      by (metis list.set_cases map_of_eq_None_iff neq_Nil_conv list.set_intros(1) image_eqI)
  qed
  note last = this
  show ?thesis
    unfolding shutdownAll_def
    by (intro cwp_bind, rule cwp_read, intro cwp_bind, rule cwp_range, rule cwp_stop_loop, rule last)
      (simp add: core_fields)
qed

end

section \<open>The manager and the log together\<close>

definition quiet :: "'w read_host \<Rightarrow> 'w \<times> read_event list \<Rightarrow> 'w \<times> read_event list \<Rightarrow> bool" where
  "quiet h x y \<longleftrightarrow> same_core h (fst x) (fst y) \<and> suffix (snd x) (snd y)"

definition lwp ::
  "'w read_host \<Rightarrow> ('w \<times> read_event list, 'a) state \<Rightarrow> ('a \<Rightarrow> manager_core \<Rightarrow> read_event list \<Rightarrow> bool) \<Rightarrow>
   manager_core \<Rightarrow> read_event list \<Rightarrow> bool" where
  "lwp h m Q c tr \<longleftrightarrow>
     (\<forall>w. core (rh_load h w) = c \<longrightarrow> wp m (\<lambda>a x. Q a (core (rh_load h (fst x))) (snd x)) (w, tr))"

lemma lwp_return: "Q x c tr \<Longrightarrow> lwp h (State_Monad.return x) Q c tr"
  by (simp add: lwp_def wp_return)

lemma lwp_bind: "lwp h m (\<lambda>a. lwp h (f a) Q) c tr \<Longrightarrow> lwp h (State_Monad.bind m f) Q c tr"
  unfolding lwp_def wp_bind by (fastforce elim: wp_mono)

lemma lwp_mono: "lwp h m Q c tr \<Longrightarrow> (\<And>a c' tr'. Q a c' tr' \<Longrightarrow> R a c' tr') \<Longrightarrow> lwp h m R c tr"
  unfolding lwp_def by (blast intro: wp_mono)

lemma lwp_call: "keeps (same_core h) m \<Longrightarrow> (\<And>a. Q a c (ev a # tr)) \<Longrightarrow> lwp h (log_call ev m) Q c tr"
  by (auto simp: lwp_def wp_log_call keeps_def same_core_def split: prod.split) (metis snd_conv)

lemma lwp_quiet: "keeps (quiet h) m \<Longrightarrow> (\<And>a tr'. suffix tr tr' \<Longrightarrow> Q a c tr') \<Longrightarrow> lwp h m Q c tr"
  by (auto simp: lwp_def keeps_def quiet_def same_core_def wp_def split: prod.split) (metis fst_conv snd_conv)

text \<open>What is known of the manager, and that the log grows.\<close>

lemma lwp_cwp:
  assumes "cwp (read_logging h) m P c" "keeps write_free m"
    "\<And>a c' tr'. P a c' \<Longrightarrow> suffix tr tr' \<Longrightarrow> Q a c' tr'"
  shows "lwp h m Q c tr"
proof -
  have "wp m (\<lambda>a x. P a (core (rh_load h (fst x))) \<and> suffix tr (snd x)) (w, tr)" if "core (rh_load h w) = c" for w
    using assms(1,2) that write_free_suffix [of "(w, tr)"] by (simp add: cwp_def keeps_def wp_def split_beta)
  then show ?thesis unfolding lwp_def by (blast intro: wp_mono assms(3))
qed

section \<open>One tick\<close>

sublocale poll_host \<subseteq> quiet_order: kept_order "quiet h"
  by unfold_locales (auto simp: quiet_def same_core_def intro: suffix_order.trans)

text \<open>What the mapper is asked for a desire.\<close>

definition declared_gvr :: "ReadDesire \<Rightarrow> GroupVersionResource" where
  "declared_gvr d = \<lparr>gvr_Group = Group (rd_Identity d), gvr_Version = rd_TargetVersion d,
     gvr_Resource = Resource (rd_Identity d)\<rparr>"

text \<open>
  The targets a tick wants: one for each listed desire whose resource the mapper knew, scoped to the
  object of the desire; for a listed desire that is not wanted the mapper reported an error.
\<close>

definition wanted :: "ReadDesire list \<Rightarrow> read_event list \<Rightarrow> (Identity \<times> informerTarget) list \<Rightarrow> bool" where
  "wanted ds tr want \<longleftrightarrow> distinct (map fst want) \<and>
     (\<forall>k target. map_of want k = Some target \<longrightarrow>
        it_namespace target = Namespace k \<and> it_name target = Name k \<and>
        (\<exists>d \<in> set ds. rd_Identity d = k \<and> RvResourceFor (declared_gvr d) (Inr (it_gvr target)) \<in> set tr)) \<and>
     (\<forall>d \<in> set ds. map_of want (rd_Identity d) = None \<longrightarrow>
        (\<exists>err. RvResourceFor (declared_gvr d) (Inl err) \<in> set tr))"

lemma wanted_Nil: "wanted [] tr []"
  by (simp add: wanted_def)

lemma wanted_suffix: "wanted ds tr want \<Longrightarrow> suffix tr tr' \<Longrightarrow> wanted ds tr' want"
  unfolding wanted_def by (meson set_mono_suffix subsetD)

lemma wanted_resolved:
  assumes "wanted ds tr want" "RvResourceFor (declared_gvr d) (Inr gvr) \<in> set tr"
  shows "wanted (ds @ [d]) tr (AList.update (rd_Identity d)
     \<lparr>it_gvr = gvr, it_namespace = Namespace (rd_Identity d), it_name = Name (rd_Identity d)\<rparr> want)"
  using assms unfolding wanted_def by (auto simp: update_conv distinct_update split: if_splits)

lemma wanted_unresolved:
  assumes "wanted ds tr want" "RvResourceFor (declared_gvr d) (Inl err) \<in> set tr"
  shows "wanted (ds @ [d]) tr want"
  using assms unfolding wanted_def by fastforce

context poll_host
begin

lemma quiet_calls:
  "keeps (same_core h) m \<Longrightarrow> keeps (quiet h) (log_call ev m)"
  "(\<And>m. core (f m) = core m) \<Longrightarrow> keeps (quiet h) (update_memory (read_logging h) f)"
  by (simp_all add: keeps_def quiet_def log_call_def update_memory_def same_core_def split_beta load_store suffix_Cons)

lemma quiet_record_precheck: "keeps (quiet h) (record_precheck l (read_logging h) i msg)"
  unfolding record_precheck_def applyStatus_def read_preCheckFailed_def withReadCondition_def with_condition_def
    read_logging_sel
  by (intro keeps_rules quiet_calls call_keeps) (simp_all add: core_updates)

lemma lwp_resolveGVR:
  assumes "\<And>res tr'. suffix tr tr' \<Longrightarrow> RvResourceFor part res \<in> set tr' \<Longrightarrow> Q res c tr'"
    "part = \<lparr>gvr_Group = grp, gvr_Version = v, gvr_Resource = r\<rparr>"
  shows "lwp h (resolveGVR l (read_logging h) grp v r) Q c tr"
  unfolding resolveGVR_def Let_def read_logging_sel assms(2) [symmetric]
  by (intro lwp_bind lwp_call call_keeps)
    (auto intro!: lwp_bind lwp_call lwp_return call_keeps assms(1) simp: suffix_Cons split: sum.split)

lemma lwp_visit:
  assumes "wanted before tr want" "set seen = rd_Identity ` set before"
    and "\<And>err tr'. suffix tr tr' \<Longrightarrow> Q (Inl (poll_aborted mc err)) c (RvCtxErr (Some err) # tr')"
    and "\<And>seen' want' tr'. suffix tr tr' \<Longrightarrow> set seen' = rd_Identity ` set (before @ ds) \<Longrightarrow>
       wanted (before @ ds) tr' want' \<Longrightarrow> Q (Inr (seen', want')) c tr'"
  shows "lwp h (visit_desires l (read_logging h) mc ds seen want) Q c tr"
  using assms
proof (induction ds arbitrary: before tr seen want)
  case Nil
  then show ?case by (simp add: lwp_return)
next
  case (Cons d ds)
  have next_desire: "lwp h (visit_desires l (read_logging h) mc ds (List.insert (rd_Identity d) seen) want') Q c tr'"
    if "wanted (before @ [d]) tr' want'" "suffix tr tr'" for want' tr'
    by (rule Cons.IH [OF that(1)])
      (use Cons.prems(2) in \<open>auto intro!: Cons.prems(3,4) simp: suffix_order.trans [OF that(2)]\<close>)
  show ?case
    unfolding visit_desires.simps read_logging_sel
  proof (rule lwp_bind, rule lwp_call [OF call_keeps(1)], goal_cases)
    case (1 ctxErr)
    show ?case
    proof (cases ctxErr)
      case None
      show ?thesis
        unfolding None option.case
      proof (rule lwp_bind, rule lwp_resolveGVR [OF _ declared_gvr_def], goal_cases)
        case (1 res tr')
        then have grown: "suffix tr tr'" by (meson suffix_ConsD)
        note before = wanted_suffix [OF Cons.prems(1)]
        show ?case
        proof (cases res)
          case (Inl err)
          have "lwp h (visit_desires l (read_logging h) mc ds (List.insert (rd_Identity d) seen) want) Q c tr''"
            if more: "suffix tr' tr''" for tr''
          proof -
            have "suffix tr tr''" using grown more by (rule suffix_order.trans)
            then show ?thesis
              using 1 more by (intro next_desire wanted_unresolved [where err = err] before)
                (auto simp: Inl dest: set_mono_suffix)
          qed
          then show ?thesis unfolding Inl sum.case
            by (intro lwp_bind lwp_quiet [OF quiet_record_precheck])
        next
          case (Inr gvr)
          then show ?thesis using 1 grown before by (auto intro!: next_desire wanted_resolved)
        qed
      qed
    next
      case (Some err)
      then show ?thesis by (auto intro!: lwp_return Cons.prems(3))
    qed
  qed
qed

lemma lwp_report:
  assumes "\<And>r tr'. suffix tr tr' \<Longrightarrow> (case r of None \<Rightarrow> True | Some e \<Rightarrow> \<exists>err. RvCtxErr (Some err) \<in> set tr' \<and> e = poll_aborted mc err) \<Longrightarrow> Q r c tr'"
  shows "lwp h (report_failures l (read_logging h) mc failed keys) Q c tr"
  using assms
proof (induction keys arbitrary: tr)
  case Nil
  then show ?case by (simp add: lwp_return)
next
  case (Cons key keys)
  have IH: "lwp h (report_failures l (read_logging h) mc failed keys) Q c tr'" if "suffix tr tr'" for tr'
    by (rule Cons.IH, rule Cons.prems) (use that in \<open>auto intro: suffix_order.trans\<close>)
  have "lwp h (report_failures l (read_logging h) mc failed keys) Q c tr'"
    if "suffix (RvCtxErr None # tr) tr'" for tr'
    using IH that by (meson suffix_ConsD)
  then show ?case
    unfolding report_failures.simps read_logging_sel
    by (intro lwp_bind lwp_call call_keeps)
      (auto intro!: lwp_return Cons.prems lwp_bind lwp_quiet [OF quiet_record_precheck] IH
        simp: suffix_Cons dest: suffix_ConsD split: option.split)
qed

end

text \<open>
  What a tick does. Either it leaves the manager as it was (the listing failed, or the context ended
  before every listed desire was visited), or it makes the one call of \<open>Reconcile\<close>, with every listed
  desire seen and every resolved one wanted.
\<close>

definition tick_outcome ::
  "string \<Rightarrow> manager_core \<Rightarrow> read_event list \<Rightarrow> goerror option \<Rightarrow> manager_core \<Rightarrow> read_event list \<Rightarrow> bool" where
  "tick_outcome mc c tr r c' tr' \<longleftrightarrow>
     (\<exists>listed newer. tr' = newer @ RvList mc listed # tr \<and>
        (case listed of
           Inl err \<Rightarrow> newer = [] \<and> c' = c \<and> r = None
         | Inr ds \<Rightarrow>
             (\<exists>err. r = Some (poll_aborted mc err) \<and> RvCtxErr (Some err) \<in> set newer \<and> c' = c) \<or>
             (\<exists>want failed. wanted ds (newer @ RvList mc listed # tr) want \<and>
                reconciled (rd_Identity ` set ds) want c failed c' \<and>
                (case r of None \<Rightarrow> True | Some e \<Rightarrow> \<exists>err. e = poll_aborted mc err \<and> RvCtxErr (Some err) \<in> set tr'))))"

text \<open>
  How the poll loop ends: with the error of the context, or because its fuel ran out, after as many
  ticks. And how \<open>Start\<close> ends: with no informer left and every stop channel closed, and with nil when the context was cancelled or ran
  out of time.
\<close>

definition loop_ended ::
  "string \<Rightarrow> nat \<Rightarrow> read_event list \<Rightarrow> goerror option \<Rightarrow> read_event list \<Rightarrow> bool" where
  "loop_ended mc fuel tr r tr' \<longleftrightarrow>
     (case r of
        None \<Rightarrow> fuel + count_list tr (RvTick None) \<le> count_list tr' (RvTick None)
      | Some e \<Rightarrow> (\<exists>err. RvCtxErr (Some err) \<in> set tr' \<and> e = poll_aborted mc err) \<or> RvTick (Some e) \<in> set tr')"

definition start_ended ::
  "string \<Rightarrow> nat \<Rightarrow> read_event list \<Rightarrow> goerror option option \<Rightarrow> manager_core \<Rightarrow> read_event list \<Rightarrow> bool" where
  "start_ended mc fuel tr r c' tr' \<longleftrightarrow>
     (case r of
        None \<Rightarrow> fuel + count_list tr (RvTick None) \<le> count_list tr' (RvTick None)
      | Some res \<Rightarrow> mc_informers c' = [] \<and> mset (mc_closed c') = mset [0..<mc_stops c'] \<and>
          (case res of
             None \<Rightarrow> True
           | Some e \<Rightarrow> \<not> context_error e \<and>
               ((\<exists>err. RvCtxErr (Some err) \<in> set tr' \<and> e = poll_aborted mc err) \<or> RvTick (Some e) \<in> set tr')))"

lemma count_list_suffix: "suffix xs ys \<Longrightarrow> count_list xs x \<le> count_list ys x"
  by (auto simp: suffix_def)

lemma tick_outcome_log:
  assumes "tick_outcome mc c tr r c' tr'"
  shows "suffix tr tr'" "r = Some e \<Longrightarrow> \<exists>err. RvCtxErr (Some err) \<in> set tr' \<and> e = poll_aborted mc err"
proof -
  show "suffix tr tr'"
    using assms by (auto simp: tick_outcome_def suffix_def)
  show "\<exists>err. RvCtxErr (Some err) \<in> set tr' \<and> e = poll_aborted mc err" if "r = Some e"
  proof -
    obtain listed newer where tr': "tr' = newer @ RvList mc listed # tr"
      and "case listed of Inl err \<Rightarrow> r = None
        | Inr ds \<Rightarrow> (\<exists>err. r = Some (poll_aborted mc err) \<and> RvCtxErr (Some err) \<in> set newer) \<or>
            (case r of None \<Rightarrow> True | Some e \<Rightarrow> \<exists>err. e = poll_aborted mc err \<and> RvCtxErr (Some err) \<in> set tr')"
      using assms unfolding tick_outcome_def by (elim exE conjE) (force split: sum.splits)
    with that show ?thesis by (cases listed) auto
  qed
qed

context poll_host
begin

lemma lwp_pollOnce:
  assumes ok: "core_ok c"
    and Q: "\<And>r c' tr'. core_ok c' \<Longrightarrow> tick_outcome (rc_managementCluster rc) c tr r c' tr' \<Longrightarrow> Q r c' tr'"
  shows "lwp h (pollOnce l (read_logging h) rc) Q c tr"
  unfolding pollOnce_def read_logging_sel
proof (rule lwp_bind, rule lwp_call [OF call_keeps(3)], goal_cases)
  case (1 listed)
  let ?mc = "rc_managementCluster rc"
  let ?tr = "RvList ?mc listed # tr"
  show ?case
  proof (cases listed)
    case (Inl err)
    then show ?thesis by (auto intro!: lwp_return Q ok simp: tick_outcome_def)
  next
    case (Inr ds)
    have abort: "Q (Some (poll_aborted ?mc err)) c (RvCtxErr (Some err) # tr')" if "suffix ?tr tr'" for err tr'
    proof -
      from that obtain newer where "tr' = newer @ ?tr" by (auto simp: suffix_def)
      then have "tick_outcome ?mc c tr (Some (poll_aborted ?mc err)) c (RvCtxErr (Some err) # tr')"
        unfolding tick_outcome_def Inr
        by (intro exI [of _ "Inr ds"] exI [of _ "RvCtxErr (Some err) # newer"]) (simp, blast)
      then show ?thesis by (rule Q [OF ok])
    qed
    have finish: "lwp h (do { failed \<leftarrow> Reconcile l (read_logging h) seen want;
        keys \<leftarrow> rh_range (read_logging h) (map fst failed);
        report_failures l (read_logging h) ?mc (map_of failed) keys }) Q c tr'"
      if tr': "suffix ?tr tr'" and seen: "set seen = rd_Identity ` set ds" and want: "wanted ds tr' want" for seen want tr'
      unfolding read_logging_sel
    proof (rule lwp_bind, rule lwp_cwp [where P = "\<lambda>failed. reconciled (set seen) want c failed", OF _ Reconcile_write_free],
        goal_cases)
      case 1
      show "cwp (read_logging h) (Reconcile l (read_logging h) seen want)
          (\<lambda>failed. reconciled (set seen) want c failed) c"
        using want by (intro poll_host.cwp_Reconcile [OF poll_host_logging [OF poll_host_axioms] ok])
          (simp_all add: wanted_def)
    next
      case (2 failed c' tr1)
      show ?case
      proof (intro lwp_bind lwp_call call_keeps lwp_report, goal_cases)
        case (1 keys r tr2)
        then have "suffix tr' tr2" using 2(2) by (meson suffix_ConsD suffix_order.trans)
        moreover from this obtain newer where newer: "tr2 = newer @ ?tr"
          using tr' by (auto simp: suffix_def)
        moreover have "wanted ds tr2 want" using want \<open>suffix tr' tr2\<close> by (rule wanted_suffix)
        ultimately have "tick_outcome ?mc c tr r c' tr2"
          using 2(1) 1(2) seen unfolding tick_outcome_def Inr
          by (intro exI [of _ "Inr ds"] exI [of _ newer]) (auto split: option.splits)
        with 2(1) show ?case by (intro Q) (auto simp: reconciled_def)
      qed
    qed
    show ?thesis
      unfolding Inr sum.case
      by (rule lwp_bind, rule lwp_visit [OF wanted_Nil])
        (auto intro!: lwp_return abort finish [unfolded read_logging_sel] simp: Inr)
  qed
qed

lemma lwp_runPollLoop:
  assumes "core_ok c"
    and "\<And>r c' tr'. core_ok c' \<Longrightarrow> suffix tr tr' \<Longrightarrow> loop_ended (rc_managementCluster rc) fuel tr r tr' \<Longrightarrow> Q r c' tr'"
  shows "lwp h (runPollLoop fuel l (read_logging h) rc) Q c tr"
  using assms
proof (induction fuel arbitrary: c tr)
  case 0
  then show ?case by (simp add: lwp_return loop_ended_def)
next
  case (Suc fuel)
  show ?case
    unfolding runPollLoop.simps
  proof (rule lwp_bind, rule lwp_pollOnce [OF Suc.prems(1)], goal_cases)
    case (1 err c1 tr1)
    note grown = tick_outcome_log [OF 1(2)]
    show ?case
    proof (cases err)
      case (Some e)
      then show ?thesis using grown 1(1) by (auto intro!: lwp_return Suc.prems(2) simp: loop_ended_def)
    next
      case None
      have more: "lwp h (runPollLoop fuel l (read_logging h) rc) Q c1 (RvTick None # tr1)"
      proof (rule Suc.IH [OF 1(1)], rule Suc.prems(2))
        show "suffix tr tr'" if "suffix (RvTick None # tr1) tr'" for tr'
          using grown(1) that by (meson suffix_ConsD suffix_order.trans)
        show "loop_ended (rc_managementCluster rc) (Suc fuel) tr r tr'"
          if "loop_ended (rc_managementCluster rc) fuel (RvTick None # tr1) r tr'" for r tr'
          using that count_list_suffix [OF grown(1), of "RvTick None"] by (auto simp: loop_ended_def split: option.splits)
      qed
      show ?thesis
        unfolding None option.case read_logging_sel
      proof (rule lwp_bind, rule lwp_call [OF call_keeps(13)], goal_cases)
        case (1 ended)
        show ?case
          by (cases ended) (use more grown \<open>core_ok c1\<close> in
            \<open>auto intro!: lwp_return Suc.prems(2) simp: loop_ended_def suffix_Cons\<close>)
      qed
    qed
  qed
qed

lemma lwp_read_Start:
  assumes "core_ok c"
    and "\<And>r c' tr'. core_ok c' \<Longrightarrow> start_ended (rc_managementCluster rc) fuel tr r c' tr' \<Longrightarrow> Q r c' tr'"
  shows "lwp h (read_Start fuel l (read_logging h) rc) Q c tr"
proof -
  have logged: "poll_host (read_logging h)" by (rule poll_host_logging [OF poll_host_axioms])
  have workers: "lwp h (start_workers (read_logging h) n) R c (tr :: read_event list)"
    if "\<And>tr'. count_list tr' (RvTick None) = count_list tr (RvTick None) \<Longrightarrow> R () c tr'" for n R tr
    using that
  proof (induction n arbitrary: tr)
    case (Suc n)
    show ?case unfolding start_workers.simps read_logging_sel
      by (intro lwp_bind lwp_call call_keeps Suc.IH Suc.prems) simp
  qed (simp add: lwp_return)
  show ?thesis
    unfolding read_Start_def
  proof (rule lwp_bind, rule workers, rule lwp_bind, rule lwp_runPollLoop [OF assms(1)], goal_cases)
    case (1 tr1 ended c2 tr2)
    show ?case
    proof (cases ended)
      case None
      then show ?thesis using 1 by (auto intro!: lwp_return assms(2) simp: start_ended_def loop_ended_def)
    next
      case (Some pollErr)
      have finish: "Q r c3 (RvWaitGroup # tr3)"
        if "core_ok c3" "mc_informers c3 = []" "suffix (RvShutDown # tr2) tr3"
          "r = (if context_error pollErr then Some None else Some (Some pollErr))" for c3 tr3 r
      proof (rule assms(2) [OF that(1)])
        have "set tr2 \<subseteq> set tr3" using that(3) by (meson set_mono_suffix suffix_ConsD subsetD subsetI)
        then show "start_ended (rc_managementCluster rc) fuel tr r c3 (RvWaitGroup # tr3)"
          using 1(4) that Some by (auto simp: start_ended_def loop_ended_def core_ok_def)
      qed
      show ?thesis
        unfolding Some option.case read_logging_sel
        by (intro lwp_bind lwp_call call_keeps,
            rule lwp_cwp [where P = "\<lambda>_ c'. core_ok c' \<and> mc_informers c' = []",
              OF poll_host.cwp_shutdownAll [OF logged \<open>core_ok c2\<close>] shutdownAll_write_free],
            simp, intro lwp_bind lwp_call call_keeps, auto intro!: lwp_return finish)
    qed
  qed
qed

end

end
