(* ===== verification/ReadTruth.thy ===== *)
theory ReadTruth
  imports ReadWorker ReadPoll
begin

text \<open>
  Every status the read controller writes has its reason in the log: a worker's write follows from the
  answers it got for the desire, and a write of the poll goroutine reports a target the mapper does not
  know or an informer that could not be started.
\<close>

section \<open>Workers\<close>

lemma no_write_justified [simp]: "no_write e \<Longrightarrow> write_justified l e older"
  by (cases e) (simp_all add: write_justified_def)

lemma write_justifiedI:
  "read_verdict l key d answers cond content \<Longrightarrow> st = status_for (rl_kube l) now d cond content \<Longrightarrow>
   \<not> readStatusEqual (rl_kube l) st (rd_Status d) \<Longrightarrow>
   write_justified l (RvUpdate key st res) (RvNow now # answers @ RvGet key (Inr d) # before)"
  by (auto simp: write_justified_def)

lemma no_write_every: "list_all no_write calls \<Longrightarrow> every (write_justified l) tr \<Longrightarrow> every (write_justified l) (calls @ tr)"
  by (induction calls) simp_all

lemma resolution_no_write: "resolution l part answers res \<Longrightarrow> list_all no_write answers"
  by (induction rule: resolution.induct) simp_all

lemma live_verdict_no_write: "live_verdict l key d answers cond content \<Longrightarrow> list_all no_write answers"
  by (induction rule: live_verdict.induct) (auto dest: resolution_no_write)

lemma read_verdict_no_write: "read_verdict l key d answers cond content \<Longrightarrow> list_all no_write answers"
  by (induction rule: read_verdict.induct) (auto dest: live_verdict_no_write)

lemma apply_calls_justified:
  assumes "apply_calls l key (read_verdict l key) calls err" "every (write_justified l) tr"
  shows "every (write_justified l) (calls @ tr)"
  using assms
proof (induction rule: apply_calls.induct)
  case (written d answers cond content st now d')
  then show ?case
    using read_verdict_no_write [OF written(1)] by (simp add: write_justifiedI no_write_every)
next
  case (refused d answers cond content st now e)
  then show ?case
    using read_verdict_no_write [OF refused(1)] by (simp add: write_justifiedI no_write_every)
next
  case (unchanged d answers cond content now)
  then show ?case
    using read_verdict_no_write [OF unchanged(1)] by (simp add: no_write_every)
qed simp_all

lemma wp_worker_justified:
  assumes "every (write_justified l) tr"
  shows "wp (runWorker fuel l (read_logging h)) (\<lambda>r x. every (write_justified l) (snd x)) (w, tr)"
  using assms
proof (induction fuel arbitrary: w tr)
  case (Suc fuel)
  show ?case
    unfolding runWorker.simps wp_bind
  proof (rule wp_processNextWorkItem, goal_cases)
    case (1 calls again w')
    have "every (write_justified l) (calls @ tr)"
      using 1 Suc.prems by (auto simp: item_calls_def apply_calls_justified split: if_splits)
    then show ?case using Suc.IH by (simp add: wp_return)
  qed
qed (simp add: wp_return)

section \<open>The poll goroutine\<close>

text \<open>Why a tick reports a desire as failing its check.\<close>

definition precheck_cause :: "read_lib \<Rightarrow> Identity \<Rightarrow> string \<Rightarrow> read_event list \<Rightarrow> bool" where
  "precheck_cause l key msg before \<longleftrightarrow>
     (\<exists>d err answers rest. before = answers @ rest \<and> rd_Identity d = key \<and>
        resolution l (declared_gvr d) answers (Inl err) \<and> msg = no_mapping d err) \<or>
     (\<exists>informer err. RvAddEventHandler informer key (Some err) \<in> set before \<and>
        msg = start_failed (wrap ''readdesire: add event handler failed'' err))"

definition poll_write_justified :: "read_lib \<Rightarrow> read_event \<Rightarrow> read_event list \<Rightarrow> bool" where
  "poll_write_justified l e older =
     (case e of
        RvUpdate key st res \<Rightarrow>
          (\<exists>now d msg before. older = RvNow now # RvGet key (Inr d) # before \<and>
             precheck_cause l key msg before \<and>
             st = status_for (rl_kube l) now d (read_failed d ReasonPreCheckFailed msg) (old_content d) \<and>
             \<not> readStatusEqual (rl_kube l) st (rd_Status d))
      | _ \<Rightarrow> True)"

abbreviation poll_log :: "read_lib \<Rightarrow> read_event list \<Rightarrow> read_event list \<Rightarrow> bool" where
  "poll_log l \<equiv> log_from (poll_write_justified l)"

lemma no_write_poll_justified [simp]: "no_write e \<Longrightarrow> poll_write_justified l e older"
  by (cases e) (simp_all add: poll_write_justified_def)

lemma poll_log_call: "poll_log l tr tr' \<Longrightarrow> no_write e \<Longrightarrow> poll_log l tr (e # tr')"
  by (rule log_from_Cons) simp_all

lemma poll_log_append: "poll_log l tr tr' \<Longrightarrow> list_all no_write calls \<Longrightarrow> poll_log l tr (calls @ tr')"
  by (induction calls) (simp_all add: poll_log_call)

lemma wp_record_precheck:
  assumes cause: "precheck_cause l i msg tr" and tr: "poll_log l tr0 tr"
    and Q: "\<And>err w' tr'. poll_log l tr0 tr' \<Longrightarrow> suffix tr tr' \<Longrightarrow> Q err (w', tr')"
  shows "wp (record_precheck l (read_logging h) i msg) Q (w, tr)"
  unfolding record_precheck_def
proof (rule wp_applyStatus [where verdict = "\<lambda>d answers cond content.
      answers = [] \<and> cond = read_failed d ReasonPreCheckFailed msg \<and> content = old_content d"], goal_cases)
  case (1 d w')
  show ?case
    unfolding read_preCheckFailed_def read_logging_sel
    by (rule wp_clock) (auto simp: status_calls_def)
next
  case (2 calls err w')
  show ?case
  proof (rule Q)
    show "suffix tr (calls @ tr)" by (simp add: suffix_def)
    have "poll_write_justified l (RvUpdate i st res) (RvNow now # RvGet i (Inr d) # tr)"
      if "st = status_for (rl_kube l) now d (read_failed d ReasonPreCheckFailed msg) (old_content d)"
        "\<not> readStatusEqual (rl_kube l) st (rd_Status d)" for st now d res
      using that cause by (auto simp: poll_write_justified_def)
    note justified = this
    from 2 show "poll_log l tr0 (calls @ tr)"
      by (cases rule: apply_calls.cases) (use tr justified in \<open>auto intro!: log_from_Cons\<close>)
  qed
qed

text \<open>An informer that failed to start left its handler's error in the log.\<close>

definition failure_logged :: "read_event list \<Rightarrow> Identity \<Rightarrow> goerror \<Rightarrow> bool" where
  "failure_logged tr k e \<longleftrightarrow>
     (\<exists>informer err. RvAddEventHandler informer k (Some err) \<in> set tr \<and>
        e = wrap ''readdesire: add event handler failed'' err)"

definition failures_logged :: "(Identity \<times> goerror) list \<Rightarrow> read_event list \<Rightarrow> bool" where
  "failures_logged failed tr \<longleftrightarrow> (\<forall>p \<in> set failed. failure_logged tr (fst p) (snd p))"

lemma failures_logged_suffix: "failures_logged failed tr \<Longrightarrow> suffix tr tr' \<Longrightarrow> failures_logged failed tr'"
  unfolding failures_logged_def failure_logged_def by (meson set_mono_suffix subsetD)

lemma failures_logged_update:
  assumes "failures_logged [(k, e)] tr" "failures_logged failed tr"
  shows "failures_logged (AList.update k e failed) tr"
proof -
  have "set (AList.update k e failed) \<subseteq> insert (k, e) (set failed)"
    by (induction failed) auto
  moreover have "\<forall>p \<in> insert (k, e) (set failed). failure_logged tr (fst p) (snd p)"
    using assms by (simp add: failures_logged_def)
  ultimately show ?thesis unfolding failures_logged_def by (meson subsetD)
qed

lemma wp_any: "(\<And>a s'. Q a s') \<Longrightarrow> wp m Q s"
  by (simp add: wp_def split: prod.split)

lemma wp_write_free:
  assumes "keeps write_free m" "wp m P (w, tr)" "\<And>a w' calls. list_all no_write calls \<Longrightarrow> P a (w', calls @ tr) \<Longrightarrow> Q a (w', calls @ tr)"
  shows "wp m Q (w, tr)"
  using assms unfolding wp_def keeps_def write_free_def
  by (auto simp: split_beta) (metis prod.collapse snd_conv)

lemma wp_ensure_failure:
  "wp (ensure_informer l (read_logging h) key target)
     (\<lambda>err x. case err of None \<Rightarrow> True | Some e \<Rightarrow> failures_logged [(key, e)] (snd x)) (w, tr)"
proof -
  have start: "wp (start_informer l (read_logging h) key target)
     (\<lambda>err x. case err of None \<Rightarrow> True | Some e \<Rightarrow> failures_logged [(key, e)] (snd x)) x" for x
    unfolding start_informer_def wp_bind read_logging_sel
    by (rule wp_logI)+ (auto simp: wp_rules wp_bind_eta make_stop_def put_informer_def read_memory_def update_memory_def
        failures_logged_def failure_logged_def split: option.split prod.split)
  show ?thesis
    unfolding ensure_informer_def
    by (auto simp: wp_rules wp_bind_eta read_memory_def close_stop_def delete_informer_def update_memory_def start
        split: option.split)
qed

lemma wp_start_loop_failures:
  assumes "failures_logged failed tr"
  shows "wp (start_loop l (read_logging h) want keys failed) (\<lambda>failed' x. failures_logged failed' (snd x)) (w, tr)"
  using assms
proof (induction keys arbitrary: failed w tr)
  case (Cons key keys)
  show ?case
  proof (cases "want key")
    case None
    then show ?thesis using Cons by simp
  next
    case (Some target)
    have grows: "keeps write_free (ensure_informer l (read_logging h) key target)"
      unfolding ensure_informer_def close_stop_def delete_informer_def
      by (intro write_free_rules start_informer_write_free)
    show ?thesis
      unfolding start_loop.simps Some option.case wp_bind
    proof (rule wp_write_free [OF grows wp_ensure_failure], goal_cases)
      case (1 err w' calls)
      have "failures_logged failed (calls @ tr)"
        using Cons.prems by (rule failures_logged_suffix) (simp add: suffix_def)
      then have "failures_logged (case err of None \<Rightarrow> failed | Some e \<Rightarrow> AList.update key e failed) (calls @ tr)"
        using 1(2) by (auto simp: failures_logged_update split: option.splits)
      then show ?case by (rule Cons.IH)
    qed
  qed
qed (simp add: wp_return)

lemma wp_visit_log:
  assumes "poll_log l tr0 tr" "\<And>r w' tr'. poll_log l tr0 tr' \<Longrightarrow> Q r (w', tr')"
  shows "wp (visit_desires l (read_logging h) mc ds seen want) Q (w, tr)"
  using assms(1)
proof (induction ds arbitrary: w tr seen want)
  case Nil
  then show ?case by (simp add: wp_return assms(2))
next
  case (Cons d ds)
  show ?case
    unfolding visit_desires.simps wp_bind read_logging_sel
  proof (rule wp_logI, goal_cases)
    case (1 ctxErr w')
    have tr: "poll_log l tr0 (RvCtxErr ctxErr # tr)" using Cons.prems by (simp add: poll_log_call)
    show ?case
    proof (cases ctxErr)
      case (Some err)
      then show ?thesis using tr by (simp add: wp_return assms(2))
    next
      case None
      show ?thesis
        unfolding None option.case wp_bind snd_conv
      proof (rule wp_resolveGVR, goal_cases)
        case (1 res answers w2)
        then have res: "resolution l (declared_gvr d) answers res" by (simp add: declared_gvr_def)
        have tr': "poll_log l tr0 (answers @ RvCtxErr None # tr)"
          using tr None resolution_no_write [OF res] by (simp add: poll_log_append)
        show ?case
        proof (cases res)
          case (Inl err)
          have "precheck_cause l (rd_Identity d) (no_mapping d err) (answers @ RvCtxErr None # tr)"
            using res Inl by (auto simp: precheck_cause_def)
          then show ?thesis
            unfolding Inl sum.case wp_bind by (rule wp_record_precheck [OF _ tr']) (rule Cons.IH)
        qed (use tr' Cons.IH in simp)
      qed
    qed
  qed
qed

lemma wp_report_log:
  assumes "poll_log l tr0 tr" "\<And>k e. failed k = Some e \<Longrightarrow> failure_logged tr k e"
    "\<And>r w' tr'. poll_log l tr0 tr' \<Longrightarrow> Q r (w', tr')"
  shows "wp (report_failures l (read_logging h) mc failed keys) Q (w, tr)"
  using assms(1,2)
proof (induction keys arbitrary: w tr)
  case Nil
  then show ?case by (simp add: wp_return assms(3))
next
  case (Cons key keys)
  show ?case
    unfolding report_failures.simps wp_bind read_logging_sel
  proof (rule wp_logI, goal_cases)
    case (1 ctxErr w')
    have tr: "poll_log l tr0 (RvCtxErr ctxErr # tr)" using Cons.prems(1) by (simp add: poll_log_call)
    have logged: "failure_logged tr' k e" if "failed k = Some e" "suffix (RvCtxErr ctxErr # tr) tr'" for k e tr'
      using Cons.prems(2) [OF that(1)] set_mono_suffix [OF that(2)] by (auto simp: failure_logged_def)
    have later: "wp (report_failures l (read_logging h) mc failed keys) Q (w2, tr')"
      if "poll_log l tr0 tr'" "suffix (RvCtxErr ctxErr # tr) tr'" for w2 tr'
      using that(1) logged [OF _ that(2)] by (rule Cons.IH)
    show ?case
    proof (cases "ctxErr = None \<and> failed key \<noteq> None")
      case True
      then obtain e where e: "failed key = Some e" by auto
      have "precheck_cause l key (start_failed e) (RvCtxErr ctxErr # tr)"
        using logged [OF e suffix_order.refl] by (auto simp: precheck_cause_def failure_logged_def)
      then have "wp (record_precheck l (read_logging h) key (start_failed e))
          (\<lambda>_. wp (report_failures l (read_logging h) mc failed keys) Q) (w', RvCtxErr ctxErr # tr)"
        by (rule wp_record_precheck [OF _ tr]) (rule later)
      with True e show ?thesis by (simp add: wp_bind)
    next
      case False
      then show ?thesis using tr later [OF tr suffix_order.refl]
        by (auto simp: wp_return assms(3) split: option.split)
    qed
  qed
qed

lemma wp_Reconcile_failures:
  "wp (Reconcile l (read_logging h) seen want) (\<lambda>failed x. failures_logged failed (snd x)) (w, tr)"
proof -
  have starts: "wp (start_loop l (read_logging h) want keys []) (\<lambda>failed x. failures_logged failed (snd x)) x" for want keys x
    using wp_start_loop_failures [of "[]" "snd x"] by (cases x) (simp add: failures_logged_def)
  show ?thesis
    unfolding Reconcile_def wp_bind by (rule wp_any, rule wp_any, rule wp_any, rule wp_any, rule starts)
qed

lemma wp_pollOnce_log:
  assumes "poll_log l tr0 tr" "\<And>r w' tr'. poll_log l tr0 tr' \<Longrightarrow> Q r (w', tr')"
  shows "wp (pollOnce l (read_logging h) rc) Q (w, tr)"
  unfolding pollOnce_def wp_bind read_logging_sel
proof (rule wp_logI, goal_cases)
  case (1 listed w')
  have tr: "poll_log l tr0 (RvList (rc_managementCluster rc) listed # tr)"
    using assms(1) by (simp add: poll_log_call)
  have finish: "wp (Reconcile l (read_logging h) seen want)
      (\<lambda>failed. wp (log_call (RvRange (map fst failed)) (rh_range h (map fst failed)))
        (\<lambda>keys. wp (report_failures l (read_logging h) (rc_managementCluster rc) (map_of failed) keys) Q)) (w2, tr2)"
    if tr2: "poll_log l tr0 tr2" for seen want w2 tr2
  proof (rule wp_write_free [OF Reconcile_write_free wp_Reconcile_failures], rule wp_logI, rule wp_report_log)
    fix failed w3 calls r w4 k e
    assume calls: "list_all no_write calls" and failed: "failures_logged failed (snd (w3, calls @ tr2))"
    show "poll_log l tr0 (RvRange (map fst failed) r # snd (w3, calls @ tr2))"
      using poll_log_append [OF tr2 calls] by (simp add: poll_log_call)
    show "failure_logged (RvRange (map fst failed) r # snd (w3, calls @ tr2)) k e" if "map_of failed k = Some e"
      using failed map_of_SomeD [OF that] by (force simp: failures_logged_def failure_logged_def)
  qed (rule assms(2))
  show ?case
    by (cases listed)
      (use tr assms(2) in \<open>auto simp: wp_return wp_bind wp_bind_eta intro!: wp_visit_log finish split: sum.split\<close>)
qed

lemma wp_poll_loop_log:
  assumes "poll_log l tr0 tr" "\<And>r w' tr'. poll_log l tr0 tr' \<Longrightarrow> Q r (w', tr')"
  shows "wp (runPollLoop fuel l (read_logging h) rc) Q (w, tr)"
  using assms(1)
proof (induction fuel arbitrary: w tr)
  case 0
  then show ?case by (simp add: wp_return assms(2))
next
  case (Suc fuel)
  show ?case
    unfolding runPollLoop.simps wp_bind
  proof (rule wp_pollOnce_log [OF Suc.prems], goal_cases)
    case (1 err w' tr')
    then show ?case
      using assms(2) poll_log_call [OF 1] Suc.IH
      by (auto simp: wp_return wp_bind intro!: wp_logI split: option.split)
  qed
qed

end
