(* ===== verification/ReadStore.thy ===== *)
theory ReadStore
  imports ReadTruth ControllerStore
begin

text \<open>
  The read controller over the in-memory store, with its own memory beside it. The calls to the libraries
  act on the rest of the world only, so they leave both alone, and \<open>range\<close> visits the keys in an order that
  world decides.
\<close>

definition on_shared :: "('m \<Rightarrow> 'a \<times> 'm) \<Rightarrow> ('k \<times> 'c \<times> 'm, 'a) state" where
  "on_shared f = State (\<lambda>(k, c, s). case f s of (a, s') \<Rightarrow> (a, (k, c, s')))"

definition memory_read_host ::
  "('k \<Rightarrow> Identity \<Rightarrow> nat) \<Rightarrow> 'k read_host \<Rightarrow> ('k \<times> controller_memory \<times> Store) read_host" where
  "memory_read_host rank h = \<lparr>
     rh_load = (\<lambda>(k, m, s). m),
     rh_store = (\<lambda>m (k, _, s). (k, m, s)),
     rh_ctx_Err = on_rest (rh_ctx_Err h),
     rh_Now = on_rest (rh_Now h),
     rh_ListReadDesires = (\<lambda>mc. on_shared (\<lambda>s. (mem_ListReadDesires mc s, s))),
     rh_GetReadDesire = (\<lambda>i. on_shared (\<lambda>s. (mem_GetReadDesire i s, s))),
     rh_UpdateReadDesireStatus = (\<lambda>i st. on_shared (mem_UpdateReadDesireStatus i st)),
     rh_ResourceFor = (\<lambda>gvr. on_rest (rh_ResourceFor h gvr)),
     rh_Reset = on_rest (rh_Reset h),
     rh_Get = (\<lambda>ri n. on_rest (rh_Get h ri n)),
     rh_NewFilteredDynamicInformer = (\<lambda>gvr ns d sel. on_rest (rh_NewFilteredDynamicInformer h gvr ns d sel)),
     rh_AddEventHandler = (\<lambda>gi i. on_rest (rh_AddEventHandler h gi i)),
     rh_HasSynced = (\<lambda>gi. on_rest (rh_HasSynced h gi)),
     rh_ListerGet = (\<lambda>gi ns n. on_rest (rh_ListerGet h gi ns n)),
     rh_WaitForCacheSync = (\<lambda>ch gi. on_rest (rh_WaitForCacheSync h ch gi)),
     rh_go = (\<lambda>g. on_rest (rh_go h g)),
     rh_range = (\<lambda>ks. State (\<lambda>(k, x). (sort_key (rank k) ks, (k, x)))),
     rh_WaitGroup_Wait = on_rest (rh_WaitGroup_Wait h),
     rh_tick = (\<lambda>d. on_rest (rh_tick h d)),
     rh_queue_Add = (\<lambda>i. on_rest (rh_queue_Add h i)),
     rh_queue_Get = on_rest (rh_queue_Get h),
     rh_queue_Done = (\<lambda>i. on_rest (rh_queue_Done h i)),
     rh_queue_Forget = (\<lambda>i. on_rest (rh_queue_Forget h i)),
     rh_queue_AddRateLimited = (\<lambda>i. on_rest (rh_queue_AddRateLimited h i)),
     rh_queue_ShutDown = on_rest (rh_queue_ShutDown h)\<rparr>"

lemma memory_read_host_memory [simp]:
  "rh_load (memory_read_host rank h) (k, m, s) = m" "rh_store (memory_read_host rank h) m' (k, m, s) = (k, m', s)"
  "rh_GetReadDesire (memory_read_host rank h) i = on_shared (\<lambda>s. (mem_GetReadDesire i s, s))"
  "rh_UpdateReadDesireStatus (memory_read_host rank h) i st = on_shared (mem_UpdateReadDesireStatus i st)"
  by (simp_all add: memory_read_host_def)

interpretation memory_poll: poll_host "memory_read_host rank h" for rank :: "'k \<Rightarrow> Identity \<Rightarrow> nat" and h
proof unfold_locales
  let ?h = "memory_read_host rank h"
  have rest: "keeps (same_core ?h) (on_rest n)" for n :: "('k, 'x) state"
    by (simp add: keeps_def same_core_def on_rest_def memory_read_host_def split_beta)
  have shared: "keeps (same_core ?h) (on_shared f)" for f :: "Store \<Rightarrow> 'x \<times> Store"
    by (simp add: keeps_def same_core_def on_shared_def memory_read_host_def split_beta)
  show "keeps (same_core ?h) (rh_range ?h keys)" for keys
    by (simp add: keeps_def same_core_def memory_read_host_def split_beta)
  show "run_state (rh_range ?h keys) w = (keys', w') \<Longrightarrow> mset keys' = mset keys" for keys w keys' w'
    by (auto simp: memory_read_host_def split: prod.splits)
  show "keeps (same_core ?h) (rh_ctx_Err ?h)" "keeps (same_core ?h) (rh_Now ?h)"
    "keeps (same_core ?h) (rh_ResourceFor ?h gvr)" "keeps (same_core ?h) (rh_Reset ?h)"
    "keeps (same_core ?h) (rh_NewFilteredDynamicInformer ?h gvr ns d sel)"
    "keeps (same_core ?h) (rh_AddEventHandler ?h gi i)" "keeps (same_core ?h) (rh_go ?h g)"
    "keeps (same_core ?h) (rh_WaitGroup_Wait ?h)" "keeps (same_core ?h) (rh_tick ?h d)"
    "keeps (same_core ?h) (rh_queue_ShutDown ?h)" for gvr ns d sel gi i g
    using rest by (simp_all add: memory_read_host_def)
  show "keeps (same_core ?h) (rh_ListReadDesires ?h mc)" "keeps (same_core ?h) (rh_GetReadDesire ?h i)"
    "keeps (same_core ?h) (rh_UpdateReadDesireStatus ?h i st)" for mc i st
    using shared by (simp_all add: memory_read_host_def)
qed (simp add: memory_read_host_def split_beta)

section \<open>A sync settles its desire\<close>

lemma wp_observe_settles:
  assumes "condition_api (FindCond (rl_kube l)) (SetCond (rl_kube l))"
  shows "wp (observe l h key v gen current) (\<lambda>st w'. observed (rl_kube l) (rs_Status st) gen) w"
proof -
  let ?Q = "\<lambda>st w'. observed (rl_kube l) (rs_Status st) gen"
  have status: "wp (withReadCondition (rl_kube l) clock current (SuccessfulCondition c gen reason msg) content) ?Q w"
    for clock c reason msg content w
    unfolding withReadCondition_def with_condition_def wp_bind
    by (rule wp_any) (simp add: wp_return observed_set [OF assms])
  have mirrored: "wp (mirror l h current gen obj) ?Q w" for obj w
    unfolding mirror_def read_status_defs by (auto simp: status split: sum.split)
  have live: "wp (observeLive l h key v gen current) ?Q w" for w
    unfolding observeLive_def read_status_defs wp_bind
  proof (rule wp_any, goal_cases)
    case (1 resolved w')
    show ?case
      by (cases resolved) (simp_all add: status wp_bind, rule wp_any, simp add: status mirrored split: sum.split)
  qed
  show ?thesis
    unfolding observe_def read_status_defs wp_bind
  proof (rule wp_any, goal_cases)
    case (1 listed w')
    show ?case
      by (cases listed)
        (simp_all add: status wp_bind split_beta, rule wp_any, simp add: status mirrored live split: sum.split)
  qed
qed

interpretation rest_only: kept_order "\<lambda>x y :: 'k \<times> 'm. snd y = snd x"
  by unfold_locales auto

lemma keeps_rest_only: "keeps (\<lambda>x y. snd y = snd x) (on_rest m)" "keeps (\<lambda>x y. snd y = snd x) (read_memory h)"
  by (simp_all add: keeps_def on_rest_def read_memory_def split_beta)

lemma observe_rest_only: "keeps (\<lambda>x y. snd y = snd x) (observe l (memory_read_host rank h) key v gen current)"
  unfolding observe_def observeLive_def mirror_def resolveGVR_def Let_def Lister_def read_status_defs withReadCondition_def
    with_condition_def memory_read_host_def read_host.select_convs
  by (intro keeps_rules keeps_rest_only)

lemma sync_mem:
  assumes api: "condition_api (FindCond (rl_kube l)) (SetCond (rl_kube l))"
  shows "wp (sync l (memory_read_host rank h) key)
     (\<lambda>err (k', m', s'). err = None \<and>
        (case mem_GetReadDesire key s of
           Inl e \<Rightarrow> m' = m \<and> s' = s
         | Inr d \<Rightarrow>
             (\<exists>st. mem_GetReadDesire key s' = Inr (d\<lparr>rd_Status := st\<rparr>) \<and> observed (rl_kube l) (rs_Status st) (rd_Generation d)) \<and>
             (\<forall>i. i \<noteq> key \<longrightarrow> lookup_item s' i = lookup_item s i) \<and>
             cm_skippedWrites m' + cm_performedWrites m' = cm_skippedWrites m + cm_performedWrites m + 1)) (k, m, s)"
proof (cases "mem_GetReadDesire key s")
  case (Inl e)
  then have "errors_Is e ErrNotFound" by (auto simp: mem_GetReadDesire_def split: if_splits option.splits)
  with Inl show ?thesis
    by (simp add: sync_def applyStatus_def wp_bind memory_read_host_def on_shared_def wp_State wp_return)
next
  case (Inr d)
  then obtain r where key: "DesireTypeOf key = TypeRead" "lookup_item s key = Some r" "d = projectReadDesire r"
    by (auto simp: mem_GetReadDesire_def split: if_splits option.splits)
  let ?h = "memory_read_host rank h"
  have "wp (observe l ?h key (rd_TargetVersion d) (rd_Generation d) (rd_Status d)) (\<lambda>st x. snd x = (m, s)) (k, m, s)"
    using observe_rest_only [of l rank h key "rd_TargetVersion d" "rd_Generation d" "rd_Status d"]
    by (simp add: wp_def keeps_def split_beta)
  then have "wp (observe l ?h key (rd_TargetVersion d) (rd_Generation d) (rd_Status d))
      (\<lambda>st x. observed (rl_kube l) (rs_Status st) (rd_Generation d) \<and> snd x = (m, s)) (k, m, s)"
    using wp_observe_settles [OF api] by (simp add: wp_conj)
  then show ?thesis
    unfolding sync_def applyStatus_def wp_bind
  proof (simp add: on_shared_def wp_State Inr wp_bind_eta, elim wp_mono, goal_cases)
    case (1 st x)
    then obtain k' where x: "x = (k', m, s)" by (cases x) auto
    show ?case
    proof (cases "readStatusEqual (rl_kube l) st (rd_Status d)")
      case True
      then have "observed (rl_kube l) (rs_Status (rd_Status d)) (rd_Generation d)"
        using 1 observed_equal [OF api] by (auto simp: readStatusEqual_def)
      then have "\<exists>st. d = d\<lparr>rd_Status := st\<rparr> \<and> observed (rl_kube l) (rs_Status st) (rd_Generation d)"
        by (intro exI [of _ "rd_Status d"]) simp
      with True Inr x show ?thesis
        by (simp add: wp_bind wp_return update_memory_def wp_State)
    next
      case False
      let ?r = "r\<lparr>rec_ReadStatus := st\<rparr>"
      have upd: "mem_UpdateReadDesireStatus key st s = (Inr (projectReadDesire ?r), put_item key ?r s)"
        using key by (simp add: mem_UpdateReadDesireStatus_def Let_def)
      have "mem_GetReadDesire key (put_item key ?r s) = Inr (d\<lparr>rd_Status := st\<rparr>)"
        using key by (simp add: mem_GetReadDesire_def projectReadDesire_def)
      with 1 have "\<exists>st. mem_GetReadDesire key (put_item key ?r s) = Inr (d\<lparr>rd_Status := st\<rparr>) \<and>
          observed (rl_kube l) (rs_Status st) (rd_Generation d)" by blast
      with False x show ?thesis
        by (simp add: wp_bind wp_bind_eta wp_return update_memory_def wp_State on_shared_def upd)
    qed
  qed
qed

end
