(* ===== verification/ReadProperties.thy ===== *)
theory ReadProperties
  imports ReadStore ControllerSamples
begin

text \<open>
  What the read controller promises: which informers run, that each of them is stopped once, that the
  statuses it writes are true, and that a write is suppressed exactly when it would change nothing but
  the metadata the API server manages.
\<close>

section \<open>A host for the witnesses\<close>

text \<open>A cluster with one resource and no object; every informer syncs and the context ends at the first tick.\<close>

definition calm_read_host :: "unit read_host" where
  "calm_read_host = \<lparr>
     rh_load = (\<lambda>_. snd (read_New ''mc1'' Second [])), rh_store = (\<lambda>m w. w),
     rh_ctx_Err = State_Monad.return None, rh_Now = State_Monad.return 7,
     rh_ListReadDesires = (\<lambda>mc. State_Monad.return (Inr [])),
     rh_GetReadDesire = (\<lambda>i. State_Monad.return (Inl ErrNotFound)),
     rh_UpdateReadDesireStatus = (\<lambda>i st. State_Monad.return (Inl ErrNotFound)),
     rh_ResourceFor = (\<lambda>gvr. State_Monad.return (Inr gvr)), rh_Reset = State_Monad.return (),
     rh_Get = (\<lambda>ri n. State_Monad.return (Inl (ErrorString ''NotFound''))),
     rh_NewFilteredDynamicInformer = (\<lambda>gvr ns d sel. State_Monad.return 1),
     rh_AddEventHandler = (\<lambda>gi i. State_Monad.return None),
     rh_HasSynced = (\<lambda>gi. State_Monad.return True),
     rh_ListerGet = (\<lambda>gi ns n. State_Monad.return (Inl (ErrorString ''NotFound''))),
     rh_WaitForCacheSync = (\<lambda>ch gi. State_Monad.return True),
     rh_go = (\<lambda>g. State_Monad.return ()), rh_range = (\<lambda>ks. State_Monad.return ks),
     rh_WaitGroup_Wait = State_Monad.return (), rh_tick = (\<lambda>d. State_Monad.return (Some Canceled)),
     rh_queue_Add = (\<lambda>i. State_Monad.return ()), rh_queue_Get = State_Monad.return None,
     rh_queue_Done = (\<lambda>i. State_Monad.return ()), rh_queue_Forget = (\<lambda>i. State_Monad.return ()),
     rh_queue_AddRateLimited = (\<lambda>i. State_Monad.return ()), rh_queue_ShutDown = State_Monad.return ()\<rparr>"

definition sample_read_lib :: read_lib where
  "sample_read_lib = \<lparr>rl_kube = sample_lib, rl_MarshalObject = (\<lambda>obj. Inr (ObjContent obj)),
     rl_OneTermEqualSelector = (\<lambda>k v. k @ ''='' @ v)\<rparr>"


definition sample_read_store :: Store where
  "sample_read_store = snd (mem_CreateReadDesire sample_dns sample_read (mem_New 0))"

abbreviation calm_memory_host :: "(unit \<times> controller_memory \<times> Store) read_host" where
  "calm_memory_host \<equiv> memory_read_host (\<lambda>_ _. 0) calm_read_host"

abbreviation new_memory :: controller_memory where
  "new_memory \<equiv> snd (read_New ''mc1'' Second [])"

text \<open>A manager that watches a desire that is gone.\<close>

definition sample_gvr :: GroupVersionResource where
  "sample_gvr = \<lparr>gvr_Group = ''apps'', gvr_Version = ''v1'', gvr_Resource = ''deployments''\<rparr>"

definition watching :: controller_memory where
  "watching = new_memory\<lparr>cm_stops := 1, cm_informers := \<lparr>im_informers =
     [((sample_id TypeRead)\<lparr>Name := ''gone''\<rparr>,
       \<lparr>ti_informer = Some 5, ti_lister = Some 5, ti_stopCh = 0, ti_gvr = sample_gvr\<rparr>)], im_syncTimeout = Second\<rparr>\<rparr>"

lemma watching_ok: "core_ok (core watching)" "core_ok (core new_memory)"
  by (simp_all add: core_ok_def core_def watching_def read_New_def newInformerManager_def)

section \<open>The informers\<close>

text \<open>
  C10. Reconcile leaves exactly the informers that are due. A key that is not wanted keeps its informer when
  its desire is still listed and loses it otherwise, so a failure to resolve a target never tears down a
  running informer. A wanted key keeps an informer on the right resource, gets a new one in place of one
  on another resource, and is left without one exactly when its start failed, which is reported. Every
  stop channel is that of one running informer or has been closed, once.
\<close>

theorem reconcile_exact:
  assumes "poll_host h" "core_ok (core (rh_load h w))" "distinct (map fst want)"
  shows "wp (Reconcile l h seen want)
    (\<lambda>failed w'. reconciled (set seen) want (core (rh_load h w)) failed (core (rh_load h w'))) w"
  using poll_host.cwp_Reconcile [OF assms, of seen "\<lambda>failed c'. reconciled (set seen) want (core (rh_load h w)) failed c'" l]
  by (simp add: cwp_def)

theorem reconcile_exact_witness:
  "wp (Reconcile sample_read_lib calm_memory_host [sample_id TypeRead]
      [(sample_id TypeRead, \<lparr>it_gvr = sample_gvr, it_namespace = ''ns'', it_name = ''web''\<rparr>)])
    (\<lambda>failed w'. reconciled {sample_id TypeRead}
       [(sample_id TypeRead, \<lparr>it_gvr = sample_gvr, it_namespace = ''ns'', it_name = ''web''\<rparr>)]
       (core watching) failed (core (rh_load calm_memory_host w'))) ((), watching, sample_read_store)"
  using reconcile_exact [OF memory_poll.poll_host_axioms, of "\<lambda>_ _. 0" calm_read_host "((), watching, sample_read_store)"
      "[(sample_id TypeRead, \<lparr>it_gvr = sample_gvr, it_namespace = ''ns'', it_name = ''web''\<rparr>)]"
      sample_read_lib "[sample_id TypeRead]"] watching_ok
  by simp



text \<open>
  C13. Over the whole life of a controller the set of informers is well formed: each desire is watched by at
  most one informer, and no stop channel is closed twice, which would panic. When Start returns no
  informer is left and every stop channel that was ever made has been closed, and Start returns an error
  only when it is not the cancellation or the deadline of its context. Start runs on only as long as the
  ticker fires.
\<close>

theorem read_start_stops_every_informer:
  assumes "poll_host h" "rh_load h w = snd (read_New mc interval opts)"
  shows "wp (read_Start fuel l (read_logging h) (fst (read_New mc interval opts)))
    (\<lambda>r x. core_ok (core (rh_load h (fst x))) \<and> start_ended mc fuel [] r (core (rh_load h (fst x))) (snd x)) (w, [])"
proof -
  have "core_ok (core (rh_load h w))"
    by (simp add: assms(2) core_ok_def core_def read_New_def newInformerManager_def)
  from poll_host.lwp_read_Start [OF assms(1) this, of "fst (read_New mc interval opts)" fuel "[]"
      "\<lambda>r c' tr'. core_ok c' \<and> start_ended mc fuel [] r c' tr'" l]
  show ?thesis by (simp add: lwp_def read_New_def)
qed

theorem read_start_stops_every_informer_witness:
  "wp (read_Start 3 sample_read_lib (read_logging calm_memory_host) (fst (read_New ''mc1'' Second [])))
    (\<lambda>r x. core_ok (core (rh_load calm_memory_host (fst x))) \<and>
      start_ended ''mc1'' 3 [] r (core (rh_load calm_memory_host (fst x))) (snd x))
    (((), new_memory, sample_read_store), [])"
  using read_start_stops_every_informer [OF memory_poll.poll_host_axioms, of "\<lambda>_ _. 0" calm_read_host
      "((), new_memory, sample_read_store)" "''mc1''" Second "[]" 3 sample_read_lib]
  by simp

section \<open>The first sync of an informer\<close>

text \<open>
  What is relied on of \<open>WaitForCacheSync\<close>: it returns false only when the channel it was given is closed.
\<close>

definition wait_law :: "'w read_host \<Rightarrow> bool" where
  "wait_law h \<longleftrightarrow>
     (\<forall>c informer w w'. run_state (rh_WaitForCacheSync h (StopOnly c) informer) w = (False, w') \<longrightarrow>
        c \<in> set (cm_closed (rh_load h w')))"

text \<open>
  How the wait for the first sync ends: the key is enqueued right after the informer was found synced,
  or the informer was stopped. When the timeout elapses first the key is enqueued at once as well.
\<close>

definition await_outcome :: "Identity \<Rightarrow> informer \<Rightarrow> duration \<Rightarrow> stop_channel \<Rightarrow> bool \<Rightarrow> read_event list \<Rightarrow> bool" where
  "await_outcome key informer timeout stopCh stopped calls \<longleftrightarrow>
     (let limited = RvWaitForCacheSync (StopOrTimeout stopCh timeout) informer;
          unlimited = RvWaitForCacheSync (StopOnly stopCh) informer in
      calls = [RvAdd key, limited True] \<or>
      calls = [limited False] \<and> stopped \<or>
      calls = [RvAdd key, unlimited True, RvAdd key, limited False] \<or>
      calls = [unlimited False, RvAdd key, limited False] \<and> stopped)"

text \<open>
  C21. No first sync is lost: the goroutine that waits for it enqueues the key after the informer has synced,
  however long that takes, unless the informer is stopped before; and when the sync takes longer than the
  timeout it enqueues the key once more in between, so the desire is reported either way.
\<close>

theorem first_sync_enqueued:
  assumes "wait_law h"
  shows "wp (await_sync (read_logging h) key informer stopCh)
    (\<lambda>_ x. \<exists>calls. snd x = calls @ tr \<and>
       await_outcome key informer (im_syncTimeout (cm_informers (rh_load h w))) stopCh
         (stopCh \<in> set (cm_closed (rh_load h (fst x)))) calls) (w, tr)"
proof -
  have last: "wp (log_call (RvWaitForCacheSync (StopOnly stopCh) informer) (rh_WaitForCacheSync h (StopOnly stopCh) informer))
      (\<lambda>ok. wp (if ok then log_call (\<lambda>_. RvAdd key) (rh_queue_Add h key) else State_Monad.return ())
        (\<lambda>_ x. \<exists>calls. snd x = calls @ tr \<and> await_outcome key informer timeout stopCh
          (stopCh \<in> set (cm_closed (rh_load h (fst x)))) calls))
      (w', RvAdd key # RvWaitForCacheSync (StopOrTimeout stopCh timeout) informer False # tr)" for w' timeout
  proof -
    obtain ok w2 where run: "run_state (rh_WaitForCacheSync h (StopOnly stopCh) informer) w' = (ok, w2)" by fastforce
    show ?thesis
      using assms run by (cases ok) (auto simp: wp_log_call wp_return await_outcome_def wait_law_def split: prod.split)
  qed
  show ?thesis
    unfolding await_sync_def timeoutOrStop_def wp_bind read_memory_def wp_State read_logging_sel
    using last by (auto simp: wp_log_call wp_return wp_bind wp_bind_eta wp_State await_outcome_def split: prod.split)
qed

lemma calm_wait_law: "wait_law calm_read_host"
  by (simp add: wait_law_def calm_read_host_def)

theorem first_sync_enqueued_witness:
  "wp (await_sync (read_logging calm_read_host) (sample_id TypeRead) 1 0)
    (\<lambda>_ x. \<exists>calls. snd x = calls @ [] \<and>
       await_outcome (sample_id TypeRead) 1 (im_syncTimeout (cm_informers (rh_load calm_read_host ()))) 0
         (0 \<in> set (cm_closed (rh_load calm_read_host (fst x)))) calls) ((), [])"
  using first_sync_enqueued [OF calm_wait_law, of "sample_id TypeRead" 1 0 "[]" "()"] by simp

section \<open>The statuses\<close>


text \<open>
  A worker handles each item of the queue completely: it takes a key, reads its desire, observes the
  object and writes the status if it changed, forgets the key or, when a call failed for another reason
  than the end of the context, has it retried with backoff, and marks it done as the last thing. A desire
  that is gone is no failure. The worker stops only when the queue is shut down.
\<close>

lemma worker_handles_item:
  "wp (processNextWorkItem l (read_logging h)) (\<lambda>again x. \<exists>calls. snd x = calls @ tr \<and> item_calls l calls again) (w, tr)"
  by (rule wp_processNextWorkItem) auto



text \<open>
  A worker that takes an item after the informers were stopped for the end of the process finds none for it, and
  writes NotFound without content for a desire that is still stored.
\<close>

lemma stopped_manager_clears_content:
  assumes stopped: "im_informers (cm_informers m) = []"
    and d: "mem_GetReadDesire key s = Inr d" "rs_KubeContent (rd_Status d) \<noteq> []"
  shows "wp (sync l (memory_read_host rank h) key)
     (\<lambda>err (k', m', s'). err = None \<and> (\<exists>now. mem_GetReadDesire key s' =
        Inr (d\<lparr>rd_Status := status_for (rl_kube l) now d (read_failed d ReasonNotFound []) []\<rparr>))) (k, m, s)"
proof -
  obtain r where key: "DesireTypeOf key = TypeRead" "lookup_item s key = Some r" "d = projectReadDesire r"
    using d(1) by (auto simp: mem_GetReadDesire_def split: if_splits option.splits)
  have no_json: "json_decode [] = None" by (simp add: json_decode_def skip_ws_def eval_nat_numeral)
  have differs: "\<not> readStatusEqual (rl_kube l) \<lparr>rs_Status = st, rs_KubeContent = []\<rparr> (rd_Status d)" for st
    using d(2) no_json by (auto simp: readStatusEqual_def semanticContentEqual_objects)
  have upd: "mem_UpdateReadDesireStatus key st s = (Inr (projectReadDesire (r\<lparr>rec_ReadStatus := st\<rparr>)), put_item key (r\<lparr>rec_ReadStatus := st\<rparr>) s)" for st
    using key by (simp add: mem_UpdateReadDesireStatus_def Let_def)
  have got: "mem_GetReadDesire key (put_item key (r\<lparr>rec_ReadStatus := st\<rparr>) s) = Inr (d\<lparr>rd_Status := st\<rparr>)" for st
    using key by (simp add: mem_GetReadDesire_def projectReadDesire_def)
  obtain now k' where clock: "run_state (rh_Now h) k = (now, k')" by fastforce
  show ?thesis
    using clock stopped
    by (simp add: sync_def applyStatus_def observe_def Lister_def notFound_def withReadCondition_def with_condition_def
        wp_bind wp_bind_eta wp_return wp_State on_shared_def read_memory_def update_memory_def d(1) differs upd got memory_read_host_def on_rest_def status_for_def) blast
qed

section \<open>Content\<close>

text \<open>
  C15. Two contents count as the same exactly when they are the same bytes, or are both JSON objects with the
  same fields, whatever the order of their keys, their white space and their escapes, where of the
  metadata object the fields managedFields, resourceVersion and generation do not count. Content that is
  not a JSON object is the same as itself only, apart from null.
\<close>

theorem semantic_content_equal:
  "semanticContentEqual a b \<longleftrightarrow>
     a = b \<or>
     json_decode a = Some JNull \<and> json_decode b = Some JNull \<or>
     (\<exists>ms ns. json_decode a = Some (JObject ms) \<and> json_decode b = Some (JObject ns) \<and> same_object ms ns)"
  by (rule semanticContentEqual_objects)

text \<open>
  C16. The canonical form of a content reads back as the object without its volatile metadata, and it is a fixed
  point: its own canonical form is itself, and it counts as the same as the content it was made from.
\<close>

theorem canonical_content_round_trip:
  "case canonicalContent content of
     None \<Rightarrow> canonical_value content = None
   | Some normalized \<Rightarrow>
       json_decode normalized = canonical_value content \<and> canonicalContent normalized = Some normalized \<and>
       semanticContentEqual content normalized"
proof (cases "canonical_value content")
  case None
  then show ?thesis by (simp add: canonicalContent_eq)
next
  case (Some v)
  note again = canonical_value_marshal [OF Some]
  have "json_decode (marshal_value v) = Some v"
    using canonical_value_ok [OF Some] by (rule decode_marshal)
  with Some again show ?thesis by (simp add: canonicalContent_eq semanticContentEqual_value)
qed

end
