(* ===== verification/RedisQuiet.thy ===== *)
theory RedisQuiet
  imports RedisSample MemoryStore
begin

text \<open>
  The Redis-backed store when nothing disturbs it: the server executes the commands of one client, none
  fails, and the encoding keeps every record. Then a run of an operation is determined; the lemmas here
  compute it command by command.
\<close>

section \<open>Commands on a calm server\<close>

abbreviation calm :: "(string \<times> bytes option) list \<Rightarrow> (string \<times> bytes) list \<Rightarrow> uint64 \<Rightarrow> server rworld" where
  "calm ws xs n \<equiv> \<lparr>rw_server = \<lparr>sv_db = xs, sv_watch = ws, sv_dirty = False, sv_schedule = []\<rparr>, rw_conflicts = n\<rparr>"

definition lossless :: "codec \<Rightarrow> bool" where
  "lossless cd \<longleftrightarrow> (\<forall>r. \<exists>b. json_Marshal cd r = Inr b \<and> json_Unmarshal cd b = Inr r)"

lemma sample_lossless: "lossless sample_codec"
  by (simp add: lossless_def sample_codec_def dec_enc_record)

lemma calm_step: "sv_schedule s = [] \<Longrightarrow> next_step s = (\<lparr>other_txs = [], srv_error = None, exec_ran = False\<rparr>, s)"
  by (simp add: next_step_def)

lemmas calm_defs = server_client_def calm_step on_server_def wp_State wp_bind wp_return

lemma calm_load:
  assumes "red_inv v cd all_stable (map_of xs)"
  shows "wp (loadRecord server_client cd (redisKey i)) Q (calm ws xs n) =
      Q (case recmap cd (map_of xs) i of None \<Rightarrow> Inl ErrNotFound | Some r \<Rightarrow> Inr r) (calm ws xs n)"
    and "wp (getRecordTx server_client cd (redisKey i)) R (calm ws xs n) =
      R (Inr (recmap cd (map_of xs) i)) (calm ws xs n)"
proof -
  have stored: "\<exists>r. json_Unmarshal cd b = Inr r \<and> recmap cd (map_of xs) i = Some r" if "map_of xs (redisKey i) = Some b" for b
    using red_inv_stored [OF assms that] by blast
  have none: "recmap cd (map_of xs) i = None" if "map_of xs (redisKey i) = None"
    using that by (simp add: recmap_def)
  show "wp (loadRecord server_client cd (redisKey i)) Q (calm ws xs n) =
      Q (case recmap cd (map_of xs) i of None \<Rightarrow> Inl ErrNotFound | Some r \<Rightarrow> Inr r) (calm ws xs n)"
    and "wp (getRecordTx server_client cd (redisKey i)) R (calm ws xs n) =
      R (Inr (recmap cd (map_of xs) i)) (calm ws xs n)"
    using stored none
    by (cases "map_of xs (redisKey i)"; force simp: loadRecord_def getRecordTx_def calm_defs srv_get_def)+
qed

text \<open>A commit, with the key space it leaves.\<close>

definition committed :: "redis_cmd list \<Rightarrow> (string \<times> bytes) list \<Rightarrow> (string \<times> bytes) list" where
  "committed cmds xs = fold alist_cmd cmds xs"

lemma map_of_committed: "map_of (committed cmds xs) = apply_cmds cmds (map_of xs)"
  by (simp add: committed_def map_of_alist_cmds)

lemma calm_commit:
  "wp (put_tx server_client cd key r delKeys) Q (calm ws xs n) =
     (case json_Marshal cd r of
        Inl e \<Rightarrow> Q (Inl (wrap (''desire: marshal '' @ key) e)) (calm ws xs n)
      | Inr b \<Rightarrow> Q (Inr r) (calm [] (committed (SetCmd key b # map DelCmd delKeys) xs) n))"
  "wp (del_tx server_client key) R (calm ws xs n) = R (Inr ()) (calm [] (committed [DelCmd key] xs) n)"
  by (simp_all add: put_tx_def del_tx_def calm_defs srv_exec_def Let_def committed_def split: sum.split)

text \<open>One attempt is enough: the callback commits, or its error is not that of a lost race.\<close>

definition attempt :: "('a option result \<Rightarrow> server rworld \<Rightarrow> bool) \<Rightarrow> 'a result \<Rightarrow> server rworld \<Rightarrow> bool" where
  "attempt Q r s =
     (let s' = s\<lparr>rw_server := (rw_server s)\<lparr>sv_watch := []\<rparr>\<rparr> in
      case r of
        Inr x \<Rightarrow> Q (Inr (Some x)) s'
      | Inl err \<Rightarrow>
          if errors_Is err ErrCASNoop then Q (Inr None) s'
          else \<not> errors_Is err TxFailedErr \<and> Q (Inl err) s')"

lemma calm_watchRetry:
  assumes "\<And>ws. wp fn (attempt Q) (calm ws xs n)"
  shows "wp (watchRetry server_client fn keys) Q (calm [] xs n)"
proof -
  have "watchRetry server_client fn keys = watchRetry_loop (Suc 15) 1 server_client fn keys"
    by (simp add: watchRetry_def maxCASRetries_def)
  moreover have "wp (watchRetry_loop (Suc 15) 1 server_client fn keys) Q (calm [] xs n)"
    unfolding watchRetry_loop.simps client_Watch_def wp_bind
    by (simp add: calm_defs srv_watch_def, rule wp_mono [OF assms])
      (auto simp: attempt_def Let_def calm_defs split: sum.splits)
  ultimately show ?thesis by simp
qed

lemma attempt_simps [simp]:
  "attempt Q (Inr x) (calm ws xs n) = Q (Inr (Some x)) (calm [] xs n)"
  "is_sentinel err \<Longrightarrow> err \<noteq> ErrCASNoop \<Longrightarrow> err \<noteq> TxFailedErr \<Longrightarrow>
     attempt Q (Inl err) (calm ws xs n) = Q (Inl err) (calm [] xs n)"
  "attempt Q (Inl ErrCASNoop) (calm ws xs n) = Q (Inr None) (calm [] xs n)"
  "attempt Q (Inl (Wrapf p ErrOwnerConflict q)) (calm ws xs n) = Q (Inl (Wrapf p ErrOwnerConflict q)) (calm [] xs n)"
  by (simp_all add: attempt_def Let_def errors_Is_sentinel)

section \<open>The three kinds of transactions\<close>

text \<open>
  What a callback may do: fail with an error of the store, or produce a value for the commit; in both cases
  it may have counted an owner conflict.
\<close>

definition store_error :: "goerror \<Rightarrow> bool" where
  "store_error e \<longleftrightarrow> e \<in> {ErrNotFound, ErrAlreadyExists, ErrVersionConflict, ErrDeletePending} \<or>
     (\<exists>p q. e = Wrapf p ErrOwnerConflict q)"

lemma store_error_simps [simp]:
  "store_error ErrNotFound" "store_error ErrAlreadyExists" "store_error ErrVersionConflict"
  "store_error ErrDeletePending" "store_error (Wrapf p ErrOwnerConflict q)"
  by (auto simp: store_error_def)

lemma attempt_error [simp]: "store_error e \<Longrightarrow> attempt Q (Inl e) (calm ws xs n) = Q (Inl e) (calm [] xs n)"
  by (auto simp: store_error_def)

definition decides ::
  "(string \<times> bytes) list \<Rightarrow> uint64 \<Rightarrow> (server rworld, 'a result) state \<Rightarrow> 'a result \<Rightarrow> uint64 \<Rightarrow> bool" where
  "decides xs n m r n' \<longleftrightarrow> (\<forall>ws. run_state m (calm ws xs n) = (r, calm ws xs n'))"

lemma decides_wp: "decides xs n m r n' \<Longrightarrow> wp m Q (calm ws xs n) = Q r (calm ws xs n')"
  by (simp add: decides_def wp_def)

lemma decides_return: "decides xs n (State_Monad.return r) r n"
  by (simp add: decides_def)

definition checked_owner :: "string \<Rightarrow> string \<Rightarrow> goerror option" where
  "checked_owner existing attempted = (if existing = attempted then None else Some ErrOwnerConflict)"

definition counted :: "string \<Rightarrow> string \<Rightarrow> uint64 \<Rightarrow> uint64" where
  "counted existing attempted n = (if existing = attempted then n else n + 1)"

lemma run_red_CheckOwner:
  "run_state (red_CheckOwner a b) (calm ws xs n) = (checked_owner a b, calm ws xs (counted a b n))"
  by (simp add: red_CheckOwner_def CheckOwner_cases checked_owner_def counted_def)

lemma mem_CheckOwner_counted:
  "mem_CheckOwner a b s = (checked_owner a b, s\<lparr>ownerConflictTotal := counted a b (ownerConflictTotal s)\<rparr>)"
  by (simp add: mem_CheckOwner_cases checked_owner_def counted_def)

lemma run_bind: "run_state (State_Monad.bind m f) s = (case run_state m s of (a, s') \<Rightarrow> run_state (f a) s')"
  by (simp add: State_Monad.bind_def split: prod.split)

lemma calm_casMutate:
  assumes inv: "red_inv v cd all_stable (map_of xs)" and cd: "lossless cd"
    and m: "decides xs n (mutate (record_of (recmap cd (map_of xs) i)) (recmap cd (map_of xs) i \<noteq> None)) r n'"
    and Q: "\<And>e. r = Inl e \<Longrightarrow> store_error e \<and> Q (Inl e) (calm [] xs n')"
      "\<And>x b. r = Inr x \<Longrightarrow> json_Unmarshal cd b = Inr x \<Longrightarrow>
         Q (Inr (Some x)) (calm [] (committed [SetCmd (redisKey i) b] xs) n')"
  shows "wp (casMutate server_client cd (redisKey i) mutate) Q (calm [] xs n)"
  unfolding casMutate_def
proof (rule calm_watchRetry)
  fix ws
  have body: "wp (casMutate_body server_client cd (redisKey i) mutate) R (calm ws xs n) =
      (case r of Inl e \<Rightarrow> R (Inl e) (calm ws xs n')
       | Inr x \<Rightarrow> wp (put_tx server_client cd (redisKey i) x []) R (calm ws xs n'))" for R
    using m unfolding casMutate_body_def wp_bind
    by (simp add: calm_load [OF inv] wp_bind decides_wp wp_return split: sum.split)
  show "wp (casMutate_body server_client cd (redisKey i) mutate) (attempt Q) (calm ws xs n)"
  proof (cases r)
    case (Inr x)
    obtain b where "json_Marshal cd x = Inr b" "json_Unmarshal cd b = Inr x" using cd by (auto simp: lossless_def)
    then show ?thesis using Inr Q(2) by (simp add: body calm_commit)
  qed (use Q(1) in \<open>simp add: body\<close>)
qed

lemma calm_casDelete:
  assumes inv: "red_inv v cd all_stable (map_of xs)"
    and p: "decides xs n (State_Monad.bind (precheck (record_of (recmap cd (map_of xs) i)) (recmap cd (map_of xs) i \<noteq> None))
        (\<lambda>p. State_Monad.return (case p of Some e \<Rightarrow> Inl e | None \<Rightarrow> Inr ()))) r n'"
    and Q: "\<And>e. r = Inl e \<Longrightarrow> store_error e \<and> Q (Inl e) (calm [] xs n') \<or> e = ErrCASNoop \<and> Q (Inr ()) (calm [] xs n')"
      "r = Inr () \<Longrightarrow> Q (Inr ()) (calm [] (committed [DelCmd (redisKey i)] xs) n')"
  shows "wp (casDelete server_client cd (redisKey i) precheck) Q (calm [] xs n)"
  unfolding casDelete_def wp_bind
proof (rule calm_watchRetry)
  fix ws
  obtain e where e: "run_state (precheck (record_of (recmap cd (map_of xs) i)) (recmap cd (map_of xs) i \<noteq> None))
      (calm ws xs n) = (e, calm ws xs n')" "r = (case e of Some e \<Rightarrow> Inl e | None \<Rightarrow> Inr ())"
    using p [unfolded decides_def run_bind, THEN spec, of ws]
    by (cases "run_state (precheck (record_of (recmap cd (map_of xs) i)) (recmap cd (map_of xs) i \<noteq> None)) (calm ws xs n)")
      (auto simp del: not_None_eq)
  have body: "wp (casDelete_body server_client cd (redisKey i) precheck) R (calm ws xs n) =
      (case e of Some err \<Rightarrow> R (Inl err) (calm ws xs n') | None \<Rightarrow> wp (del_tx server_client (redisKey i)) R (calm ws xs n'))" for R
    using e(1) unfolding casDelete_body_def wp_bind
    unfolding calm_load(2) [OF inv]
    by (cases "recmap cd (map_of xs) i"; cases e) (simp_all add: wp_bind, simp_all add: wp_def)
  show "wp (casDelete_body server_client cd (redisKey i) precheck)
      (attempt (\<lambda>a. wp (State_Monad.return (case a of Inl e \<Rightarrow> Inl e | Inr _ \<Rightarrow> Inr ())) Q)) (calm ws xs n)"
  proof (cases e)
    case None
    then show ?thesis using Q(2) e(2) by (simp add: body calm_commit wp_return)
  next
    case (Some err)
    then show ?thesis using Q(1) [of err] e(2) by (auto simp: body wp_return)
  qed
qed

lemma calm_load_siblings:
  assumes inv: "red_inv v cd all_stable (map_of xs)"
  shows "wp (load_siblings server_client cd i AllTypes Map.empty) Q (calm ws xs n) =
    Q (Inr (sibs_of cd i (map_of xs))) (calm ws xs n)"
proof -
  have "sibs_of cd i (map_of xs) = (\<lambda>t. if t = TypeApply then recmap cd (map_of xs) (sibling i TypeApply)
      else if t = TypeDelete then recmap cd (map_of xs) (sibling i TypeDelete)
      else if t = TypeRead then recmap cd (map_of xs) (sibling i TypeRead) else None)"
    by (auto simp: sibs_of_def AllTypes_def fun_eq_iff)
  then show ?thesis
    by (simp add: AllTypes_def wp_bind calm_load [OF inv] wp_return split: option.split)
      (auto simp: fun_eq_iff intro!: arg_cong2 [of _ _ _ _ Q])
qed

lemma calm_casCreate:
  assumes inv: "red_inv v cd all_stable (map_of xs)" and cd: "lossless cd"
    and b: "decides xs n (build (sibs_of cd i (map_of xs))) r n'"
    and Q: "\<And>e. r = Inl e \<Longrightarrow> store_error e \<and> Q (Inl e) (calm [] xs n')"
      "\<And>x ks b. r = Inr (x, ks) \<Longrightarrow> json_Unmarshal cd b = Inr x \<Longrightarrow>
         Q (Inr (Some x)) (calm [] (committed (SetCmd (redisKey (rec_Identity x)) b # map DelCmd ks) xs) n')"
  shows "wp (casCreate server_client cd i build) Q (calm [] xs n)"
  unfolding casCreate_def
proof (rule calm_watchRetry)
  fix ws
  have body: "wp (casCreate_body server_client cd i build) R (calm ws xs n) =
      (case r of Inl e \<Rightarrow> R (Inl e) (calm ws xs n')
       | Inr (x, ks) \<Rightarrow> wp (put_tx server_client cd (redisKey (rec_Identity x)) x ks) R (calm ws xs n'))" for R
    using b unfolding casCreate_body_def wp_bind calm_load_siblings [OF inv]
    by (simp add: wp_bind decides_wp wp_return split: sum.split prod.split)
  show "wp (casCreate_body server_client cd i build) (attempt Q) (calm ws xs n)"
  proof (cases r)
    case (Inr p)
    then obtain x ks where r: "r = Inr (x, ks)" by (cases p) auto
    obtain b where "json_Marshal cd x = Inr b" "json_Unmarshal cd b = Inr x" using cd by (auto simp: lossless_def)
    then show ?thesis using r Q(2) by (simp add: body calm_commit)
  qed (use Q(1) in \<open>simp add: body\<close>)
qed

section \<open>Reading a whole management cluster\<close>

definition page :: "string \<Rightarrow> uint64 \<Rightarrow> (string \<times> bytes) list \<Rightarrow> string list" where
  "page pat cur xs = filter (\<lambda>k. srv_glob pat k \<and> srv_bucket k = cur) (map fst xs)"

definition pages :: "string \<Rightarrow> (string \<times> bytes) list \<Rightarrow> string list" where
  "pages pat xs =
     collect_keys (collect_keys (collect_keys (collect_keys [] (page pat 0 xs)) (page pat 1 xs)) (page pat 2 xs)) (page pat 3 xs)"

lemma bucket_cases: "srv_bucket k \<in> {0, 1, 2, 3}"
proof -
  have "length k mod 4 \<in> {0, 1, 2, 3}" by auto
  then show ?thesis unfolding srv_bucket_def by auto
qed

lemma pages_set: "set (pages pat xs) = {k. k \<in> fst ` set xs \<and> srv_glob pat k}" "distinct (pages pat xs)"
proof -
  show "set (pages pat xs) = {k. k \<in> fst ` set xs \<and> srv_glob pat k}"
    using bucket_cases unfolding pages_def page_def by (auto simp: collect_keys_set)
  show "distinct (pages pat xs)"
    unfolding pages_def by (intro collect_keys_distinct) simp
qed

lemma calm_scan:
  assumes "4 < fuel"
  shows "wp (scanKeys fuel server_client pat) Q (calm ws xs n) = Q (Some (Inr (pages pat xs))) (calm ws xs n)"
proof -
  obtain f where "fuel = Suc (Suc (Suc (Suc f)))"
    using assms that [of "fuel - 4"] by simp
  then show ?thesis
    by (simp add: scanKeys_def calm_defs srv_scan_def Let_def pages_def page_def)
qed

lemma calm_mget:
  "wp (mget_loop server_client keys) Q (calm ws xs n) = Q (Inr (map (value_at (map_of xs)) keys)) (calm ws xs n)"
proof (induction "length keys" arbitrary: keys Q rule: less_induct)
  case less
  show ?case
  proof (cases "keys = []")
    case False
    then have "wp (mget_loop server_client (drop mgetBatch keys)) R (calm ws xs n) =
        R (Inr (map (value_at (map_of xs)) (drop mgetBatch keys))) (calm ws xs n)" for R
      by (intro less) (simp add: mgetBatch_def)
    with False show ?thesis
      by (subst mget_loop.simps)
        (simp add: calm_defs srv_mget_def map_result_def copy_batch_def value_at_def [abs_def] map_append [symmetric] del: map_append)
  qed (simp add: mget_loop.simps wp_return)
qed

definition found_at :: "codec \<Rightarrow> (string \<times> bytes) list \<Rightarrow> string \<Rightarrow> resourceRecord" where
  "found_at cd xs k = (case map_of xs k of None \<Rightarrow> zero_record | Some b \<Rightarrow>
     (case json_Unmarshal cd b of Inl e \<Rightarrow> zero_record | Inr r \<Rightarrow> r))"

lemma found_key:
  assumes "red_inv v cd all_stable (map_of xs)" "k \<in> fst ` set xs" "prefix keyPrefix k"
  shows "\<exists>b. map_of xs k = Some b \<and> json_Unmarshal cd b = Inr (found_at cd xs k) \<and> k = redisKey (rec_Identity (found_at cd xs k)) \<and>
    recmap cd (map_of xs) (rec_Identity (found_at cd xs k)) = Some (found_at cd xs k)"
proof -
  obtain b where b: "map_of xs k = Some b" using assms(2) by (metis domIff dom_map_of_conv_image_fst option.exhaust)
  then obtain r where r: "json_Unmarshal cd b = Inr r" "k = redisKey (rec_Identity r)"
    using assms(1,3) unfolding red_inv_def by blast
  have f: "found_at cd xs k = r" using b r(1) by (simp add: found_at_def)
  have "recmap cd (map_of xs) (rec_Identity r) = Some r" using b r by (simp add: recmap_def)
  with b r f show ?thesis by simp
qed

lemma decode_found:
  assumes inv: "red_inv v cd all_stable (map_of xs)" and keys: "\<forall>k\<in>set keys. k \<in> fst ` set xs \<and> prefix keyPrefix k"
  shows "decode_values cd (zip keys (map (value_at (map_of xs)) keys)) = Inr (map (\<lambda>k. (k, found_at cd xs k)) keys)"
  using keys
proof (induction keys)
  case (Cons k ks)
  then show ?case using found_key [OF inv, of k] by (auto simp: value_at_def map_result_def)
qed simp

end
