(* ===== verification/Conformance.thy ===== *)
theory Conformance
  imports MemoryStore
begin

text \<open>
  \<open>pkg/desire/store/conformance/suite.go\<close>: the scenarios every backend has to pass, as programs over
  the interfaces \<open>SpecStore\<close> and \<open>StatusStore\<close> of \<open>pkg/desire/store.go\<close>. A scenario starts on a new
  store and says whether it passed. Eight scenarios are left out: they overwrite a byte slice or a
  slice of conditions the store shares with its caller, and a value of the model shares no storage.
\<close>

section \<open>The interfaces\<close>

record 's SpecStore =
  st_CreateApplyDesire :: "ApplyDesire \<Rightarrow> ('s, ApplyDesire result) state"
  st_GetApplyDesire :: "Identity \<Rightarrow> ('s, ApplyDesire result) state"
  st_UpdateApplyDesireSpec :: "Identity \<Rightarrow> ApplySpec \<Rightarrow> string \<Rightarrow> int64 \<Rightarrow> ('s, ApplyDesire result) state"
  st_DeleteApplyDesire :: "Identity \<Rightarrow> string \<Rightarrow> int64 \<Rightarrow> ('s, unit result) state"
  st_CreateDeleteDesire :: "DeleteDesire \<Rightarrow> ('s, DeleteDesire result) state"
  st_GetDeleteDesire :: "Identity \<Rightarrow> ('s, DeleteDesire result) state"
  st_DeleteDeleteDesire :: "Identity \<Rightarrow> string \<Rightarrow> int64 \<Rightarrow> ('s, unit result) state"
  st_CreateReadDesire :: "ReadDesire \<Rightarrow> ('s, ReadDesire result) state"
  st_GetReadDesire :: "Identity \<Rightarrow> ('s, ReadDesire result) state"
  st_DeleteReadDesire :: "Identity \<Rightarrow> string \<Rightarrow> int64 \<Rightarrow> ('s, unit result) state"
  st_ListApplyDesires :: "string \<Rightarrow> ('s, ApplyDesire list result) state"
  st_ListDeleteDesires :: "string \<Rightarrow> ('s, DeleteDesire list result) state"
  st_ListReadDesires :: "string \<Rightarrow> ('s, ReadDesire list result) state"
  st_DeleteByPrefix :: "string \<Rightarrow> PrefixSelector \<Rightarrow> ('s, unit result) state"

text \<open>
  The suite asks its stores to implement both interfaces, so the second extends the first; the three
  lookups are methods of both.
\<close>

record 's StatusStore = "'s SpecStore" +
  st_UpdateApplyDesireStatus :: "Identity \<Rightarrow> Status \<Rightarrow> int64 \<Rightarrow> ('s, ApplyDesire result) state"
  st_UpdateDeleteDesireStatus :: "Identity \<Rightarrow> Status \<Rightarrow> int64 \<Rightarrow> ('s, DeleteDesire result) state"
  st_UpdateReadDesireStatus :: "Identity \<Rightarrow> ReadStatus \<Rightarrow> ('s, ReadDesire result) state"

section \<open>Assertions\<close>

text \<open>
  What a test does with a result. \<open>succeeds\<close>, \<open>fails_with\<close>, \<open>fails\<close> and \<open>require\<close> end the test with
  \<open>t.Fatalf\<close> when they do not hold; \<open>expect\<close> is \<open>t.Errorf\<close>, which fails the test and goes on.
\<close>

type_synonym 's scenario = "('s, bool) state"

definition passed :: "'s scenario" where
  "passed = State_Monad.return True"

definition succeeds :: "('s, 'a result) state \<Rightarrow> ('a \<Rightarrow> 's scenario) \<Rightarrow> 's scenario" where
  "succeeds op k = do {
     r \<leftarrow> op;
     case r of Inl err \<Rightarrow> State_Monad.return False | Inr x \<Rightarrow> k x
   }"

definition fails_with :: "goerror \<Rightarrow> ('s, 'a result) state \<Rightarrow> 's scenario \<Rightarrow> 's scenario" where
  "fails_with target op k = do {
     r \<leftarrow> op;
     case r of
       Inl err \<Rightarrow> if errors_Is err target then k else State_Monad.return False
     | Inr x \<Rightarrow> State_Monad.return False
   }"

definition fails :: "('s, 'a result) state \<Rightarrow> 's scenario \<Rightarrow> 's scenario" where
  "fails op k = do {
     r \<leftarrow> op;
     case r of Inl err \<Rightarrow> k | Inr x \<Rightarrow> State_Monad.return False
   }"

definition require :: "bool \<Rightarrow> 's scenario \<Rightarrow> 's scenario" where
  "require b k = (if b then k else State_Monad.return False)"

definition expect :: "bool \<Rightarrow> 's scenario \<Rightarrow> 's scenario" where
  "expect b k = do {
     rest \<leftarrow> k;
     State_Monad.return (b \<and> rest)
   }"

lemmas assertion_defs = passed_def succeeds_def fails_with_def fails_def require_def expect_def

section \<open>Fixtures\<close>

definition resourceConfigMaps :: string where "resourceConfigMaps = ''configmaps''"
definition ownerA :: string where "ownerA = ''owner-a''"
definition kubeContentV1 :: bytes where
  "kubeContentV1 = [CHR ''{'', CHR 0x22, CHR ''v'', CHR 0x22, CHR '':'', CHR ''1'', CHR ''}'']"
definition kubeContentV2 :: bytes where
  "kubeContentV2 = [CHR ''{'', CHR 0x22, CHR ''v'', CHR 0x22, CHR '':'', CHR ''2'', CHR ''}'']"
definition testTargetVersion :: string where "testTargetVersion = ''v1''"

definition identity :: "string \<Rightarrow> DesireType \<Rightarrow> string \<Rightarrow> Identity" where
  "identity managementCluster typ name =
     \<lparr>ManagementCluster = managementCluster, DesireTypeOf = typ, Group = ''apps'', Resource = resourceConfigMaps,
      Namespace = ''default'', Name = name\<rparr>"

definition newApplyDesire :: "Identity \<Rightarrow> string \<Rightarrow> bytes \<Rightarrow> ApplyDesire" where
  "newApplyDesire i owner content =
     zero_ApplyDesire\<lparr>ad_Identity := i, ad_Owner := owner, ad_Spec := \<lparr>KubeContent = content\<rparr>\<rparr>"

definition newDeleteDesire :: "Identity \<Rightarrow> string \<Rightarrow> DeleteDesire" where
  "newDeleteDesire i owner =
     \<lparr>dd_Identity = i, dd_Owner = owner, dd_OriginID = [], dd_Status = zero_Status, dd_Generation = 0, dd_Version = 0\<rparr>"

definition newReadDesire :: "Identity \<Rightarrow> string \<Rightarrow> ReadDesire" where
  "newReadDesire i owner =
     \<lparr>rd_Identity = i, rd_Owner = owner, rd_OriginID = [], rd_TargetVersion = testTargetVersion,
      rd_Status = zero_ReadStatus, rd_Generation = 0, rd_Version = 0\<rparr>"

text \<open>\<open>metav1.Now()\<close> is the argument \<open>now\<close>.\<close>

definition condition :: "timestamp \<Rightarrow> string \<Rightarrow> string \<Rightarrow> Condition" where
  "condition now reason status =
     \<lparr>cond_Type = TypeSuccessful, cond_Status = status, cond_ObservedGeneration = 0,
      cond_LastTransitionTime = now, cond_Reason = reason, cond_Message = reason\<rparr>"

definition with_conditions :: "Condition list \<Rightarrow> Status" where
  "with_conditions cs = \<lparr>Conditions = cs\<rparr>"

definition emptyObject :: bytes where "emptyObject = ''{}''"

text \<open>The JSON texts of the scenarios; \<open>Q\<close> stands for the quotation mark.\<close>

definition json_text :: "string \<Rightarrow> bytes" where
  "json_text s = map (\<lambda>c. if c = CHR ''Q'' then CHR 0x22 else c) s"

section \<open>ApplyDesire\<close>

definition Apply_CreateGetRoundTrip :: "'s StatusStore \<Rightarrow> 's scenario" where
  "Apply_CreateGetRoundTrip store =
     (let i = identity ''cluster-a'' TypeApply ''cm-1'';
          d = (newApplyDesire i ownerA (json_text ''{QkindQ:QConfigMapQ}''))\<lparr>ad_Generation := 99\<rparr> in
      succeeds (st_CreateApplyDesire store d) (\<lambda>created.
      expect (ad_Version created = 1) (
      expect (ad_Generation created = 1) (
      succeeds (st_GetApplyDesire store i) (\<lambda>got.
      expect (ad_Version got = ad_Version created) (
      expect (ad_Generation got = ad_Generation created)
      passed))))))"

definition Apply_CreateExistingReturnsAlreadyExists :: "'s StatusStore \<Rightarrow> 's scenario" where
  "Apply_CreateExistingReturnsAlreadyExists store =
     (let i = identity ''cluster-a'' TypeApply ''cm-2'';
          d = newApplyDesire i ownerA emptyObject in
      succeeds (st_CreateApplyDesire store d) (\<lambda>_.
      fails_with ErrAlreadyExists (st_CreateApplyDesire store d)
      passed))"

definition Apply_CreateDuplicateDifferentOwnerReturnsOwnerConflict :: "'s StatusStore \<Rightarrow> 's scenario" where
  "Apply_CreateDuplicateDifferentOwnerReturnsOwnerConflict store =
     (let i = identity ''cluster-a'' TypeApply ''owner-first'' in
      succeeds (st_CreateApplyDesire store (newApplyDesire i ownerA emptyObject)) (\<lambda>_.
      fails_with ErrOwnerConflict (st_CreateApplyDesire store (newApplyDesire i ''owner-b'' emptyObject))
      passed))"

definition Apply_UpdateSpecRejectsEmptyKubeContent :: "'s StatusStore \<Rightarrow> 's scenario" where
  "Apply_UpdateSpecRejectsEmptyKubeContent store =
     (let i = identity ''cluster-a'' TypeApply ''empty-update'' in
      succeeds (st_CreateApplyDesire store (newApplyDesire i ownerA kubeContentV1)) (\<lambda>created.
      fails (st_UpdateApplyDesireSpec store i \<lparr>KubeContent = []\<rparr> ownerA (ad_Version created)) (
      succeeds (st_GetApplyDesire store i) (\<lambda>got.
      expect (ad_Generation got = ad_Generation created \<and> ad_Version got = ad_Version created)
      passed))))"

definition Apply_RecreateAfterDeleteClearsStatus :: "timestamp \<Rightarrow> 's StatusStore \<Rightarrow> 's scenario" where
  "Apply_RecreateAfterDeleteClearsStatus now store =
     (let idApply = identity ''cluster-a'' TypeApply ''status-clear'';
          idRead = identity (ManagementCluster idApply) TypeRead (Name idApply) in
      succeeds (st_CreateApplyDesire store (newApplyDesire idApply ownerA emptyObject)) (\<lambda>created.
      succeeds (st_CreateReadDesire store (newReadDesire idRead ownerA)) (\<lambda>_.
      succeeds (st_UpdateApplyDesireStatus store idApply
          (with_conditions [condition now ReasonApplied ConditionTrue]) (ad_Version created)) (\<lambda>withStatus.
      succeeds (st_DeleteApplyDesire store idApply ownerA (ad_Version withStatus)) (\<lambda>_.
      succeeds (st_CreateApplyDesire store (newApplyDesire idApply ownerA kubeContentV2)) (\<lambda>recreated.
      require (Conditions (ad_Status recreated) = []) (
      require (ad_Generation recreated = 1)
      passed)))))))"

definition Apply_GetMissingReturnsNotFound :: "'s StatusStore \<Rightarrow> 's scenario" where
  "Apply_GetMissingReturnsNotFound store =
     fails_with ErrNotFound (st_GetApplyDesire store (identity ''cluster-a'' TypeApply ''does-not-exist''))
     passed"

definition Apply_UpdateSpecSuccessIncrementsVersion :: "'s StatusStore \<Rightarrow> 's scenario" where
  "Apply_UpdateSpecSuccessIncrementsVersion store =
     (let i = identity ''cluster-a'' TypeApply ''cm-4'' in
      succeeds (st_CreateApplyDesire store (newApplyDesire i ownerA kubeContentV1)) (\<lambda>created.
      succeeds (st_UpdateApplyDesireSpec store i \<lparr>KubeContent = kubeContentV2\<rparr> ownerA (ad_Version created)) (\<lambda>updated.
      expect (sint (ad_Version created) < sint (ad_Version updated)) (
      expect (ad_Generation updated = ad_Generation created + 1)
      passed))))"

definition initialContent :: bytes where
  "initialContent = json_text ''{QvQ:1,QmetaQ:{QaQ:true,QbQ:[1,2]}}''"
definition equivalentContent :: bytes where
  "equivalentContent = json_text '' { QmetaQ: { QbQ: [1, 2], QaQ: true }, QvQ: 1 } ''"
definition changedContent :: bytes where
  "changedContent = json_text ''{QvQ:2,QmetaQ:{QaQ:true,QbQ:[1,2]}}''"

definition Apply_OnlyChangedSpecAdvancesGeneration :: "timestamp \<Rightarrow> 's StatusStore \<Rightarrow> 's scenario" where
  "Apply_OnlyChangedSpecAdvancesGeneration now store =
     (let i = identity ''cluster-a'' TypeApply ''generation-writes'' in
      succeeds (st_CreateApplyDesire store (newApplyDesire i ownerA initialContent)) (\<lambda>created.
      let observed = (condition now ReasonApplied ConditionTrue)\<lparr>cond_ObservedGeneration := ad_Generation created\<rparr> in
      succeeds (st_UpdateApplyDesireStatus store i (with_conditions [observed]) (ad_Version created)) (\<lambda>withStatus.
      succeeds (st_GetApplyDesire store i) (\<lambda>prior.
      succeeds (st_UpdateApplyDesireSpec store i \<lparr>KubeContent = initialContent\<rparr> ownerA (ad_Version withStatus)) (\<lambda>first.
      succeeds (st_UpdateApplyDesireSpec store i \<lparr>KubeContent = equivalentContent\<rparr> ownerA (ad_Version first)) (\<lambda>snd_upd.
      expect (ad_Generation first = ad_Generation created \<and> ad_Generation snd_upd = ad_Generation created \<and>
          ad_Version first = ad_Version withStatus + 1 \<and> ad_Version snd_upd = ad_Version first + 1 \<and>
          ad_Status first = ad_Status prior \<and> ad_Status snd_upd = ad_Status prior) (
      fails_with ErrVersionConflict (st_UpdateApplyDesireStatus store i (ad_Status prior) (ad_Version withStatus)) (
      succeeds (st_UpdateApplyDesireSpec store i \<lparr>KubeContent = equivalentContent\<rparr> ownerA (ad_Version snd_upd)) (\<lambda>repeated.
      expect (ad_Generation repeated = ad_Generation snd_upd \<and> ad_Version repeated = ad_Version snd_upd + 1) (
      succeeds (st_UpdateApplyDesireSpec store i \<lparr>KubeContent = changedContent\<rparr> ownerA (ad_Version repeated)) (\<lambda>third.
      expect (length (Conditions (ad_Status third)) = 1 \<and> ad_Generation third = ad_Generation repeated + 1 \<and>
          ad_Version third = ad_Version repeated + 1 \<and> ad_Status third = ad_Status prior \<and>
          cond_ObservedGeneration (hd (Conditions (ad_Status third))) = ad_Generation created) (
      fails_with ErrVersionConflict
        (st_UpdateApplyDesireSpec store i \<lparr>KubeContent = changedContent\<rparr> ownerA (ad_Version repeated)) (
      fails_with ErrOwnerConflict
        (st_UpdateApplyDesireSpec store i \<lparr>KubeContent = changedContent\<rparr> ''other-owner'' (ad_Version third)) (
      succeeds (st_GetApplyDesire store i) (\<lambda>got.
      expect (ad_Generation got = ad_Generation third \<and> ad_Version got = ad_Version third \<and>
          ad_Status got = ad_Status third)
      passed)))))))))))))))"

definition previousSuccess :: "timestamp \<Rightarrow> Status" where
  "previousSuccess now = with_conditions [\<lparr>cond_Type = TypeSuccessful, cond_Status = ConditionTrue,
     cond_ObservedGeneration = 1, cond_LastTransitionTime = now, cond_Reason = ReasonApplied, cond_Message = []\<rparr>]"

definition previousFailure :: "timestamp \<Rightarrow> Status" where
  "previousFailure now = with_conditions [\<lparr>cond_Type = TypeSuccessful, cond_Status = ConditionFalse,
     cond_ObservedGeneration = 1, cond_LastTransitionTime = now, cond_Reason = ReasonKubeAPIError,
     cond_Message = ''previous API failure''\<rparr>]"

definition Apply_UpdateSpecPreservesStatus :: "Status \<Rightarrow> 's StatusStore \<Rightarrow> 's scenario" where
  "Apply_UpdateSpecPreservesStatus status store =
     (let i = identity ''cluster-a'' TypeApply ''status-preserved-on-update'' in
      succeeds (st_CreateApplyDesire store (newApplyDesire i ownerA kubeContentV1)) (\<lambda>created.
      succeeds (st_UpdateApplyDesireStatus store i status (ad_Version created)) (\<lambda>withStatus.
      succeeds (st_GetApplyDesire store i) (\<lambda>prior.
      succeeds (st_UpdateApplyDesireSpec store i \<lparr>KubeContent = kubeContentV2\<rparr> ownerA (ad_Version withStatus)) (\<lambda>updated.
      expect (ad_Generation updated = ad_Generation created + 1) (
      expect (ad_Status updated = ad_Status prior) (
      succeeds (st_GetApplyDesire store i) (\<lambda>got.
      expect (ad_Status got = ad_Status prior)
      passed))))))))"

definition Apply_DifferentOwnerRejected :: "'s StatusStore \<Rightarrow> 's scenario" where
  "Apply_DifferentOwnerRejected store =
     (let i = identity ''cluster-a'' TypeApply ''owner-reject'' in
      succeeds (st_CreateApplyDesire store (newApplyDesire i ownerA kubeContentV1)) (\<lambda>created.
      fails_with ErrOwnerConflict
        (st_UpdateApplyDesireSpec store i \<lparr>KubeContent = kubeContentV2\<rparr> ''owner-b'' (ad_Version created)) (
      succeeds (st_GetApplyDesire store i) (\<lambda>got.
      expect (ad_Generation got = ad_Generation created \<and> ad_Version got = ad_Version created)
      passed))))"

definition Apply_DeleteSuccess :: "'s StatusStore \<Rightarrow> 's scenario" where
  "Apply_DeleteSuccess store =
     (let i = identity ''cluster-a'' TypeApply ''cm-6'' in
      succeeds (st_CreateApplyDesire store (newApplyDesire i ownerA emptyObject)) (\<lambda>created.
      succeeds (st_DeleteApplyDesire store i ownerA (ad_Version created)) (\<lambda>_.
      fails_with ErrNotFound (st_GetApplyDesire store i)
      passed)))"

section \<open>DeleteDesire\<close>

definition Delete_CreateGetRoundTrip :: "'s StatusStore \<Rightarrow> 's scenario" where
  "Delete_CreateGetRoundTrip store =
     (let i = identity ''cluster-a'' TypeDelete ''del-1'';
          d = (newDeleteDesire i ownerA)\<lparr>dd_Generation := 99\<rparr> in
      succeeds (st_CreateDeleteDesire store d) (\<lambda>created.
      expect (dd_Version created = 1) (
      expect (dd_Generation created = 1) (
      succeeds (st_GetDeleteDesire store i) (\<lambda>got.
      expect (dd_Identity got = i \<and> dd_Owner got = ownerA \<and> dd_Generation got = dd_Generation created)
      passed)))))"

definition Delete_DeleteSuccess :: "'s StatusStore \<Rightarrow> 's scenario" where
  "Delete_DeleteSuccess store =
     (let i = identity ''cluster-a'' TypeDelete ''del-4'' in
      succeeds (st_CreateDeleteDesire store (newDeleteDesire i ownerA)) (\<lambda>created.
      succeeds (st_DeleteDeleteDesire store i ownerA (dd_Version created)) (\<lambda>_.
      fails_with ErrNotFound (st_GetDeleteDesire store i)
      passed)))"

definition Delete_DeleteStaleVersionRejected :: "'s StatusStore \<Rightarrow> 's scenario" where
  "Delete_DeleteStaleVersionRejected store =
     (let i = identity ''cluster-a'' TypeDelete ''del-stale'' in
      succeeds (st_CreateDeleteDesire store (newDeleteDesire i ownerA)) (\<lambda>created.
      fails_with ErrVersionConflict (st_DeleteDeleteDesire store i ownerA (dd_Version created + 1))
      passed))"

definition Delete_DeleteForeignOwnerRejected :: "'s StatusStore \<Rightarrow> 's scenario" where
  "Delete_DeleteForeignOwnerRejected store =
     (let i = identity ''cluster-a'' TypeDelete ''del-owner'' in
      succeeds (st_CreateDeleteDesire store (newDeleteDesire i ownerA)) (\<lambda>created.
      fails_with ErrOwnerConflict (st_DeleteDeleteDesire store i ''owner-b'' (dd_Version created))
      passed))"

section \<open>ReadDesire\<close>

definition Read_CreateGetRoundTrip :: "'s StatusStore \<Rightarrow> 's scenario" where
  "Read_CreateGetRoundTrip store =
     (let i = identity ''cluster-a'' TypeRead ''read-1'';
          d = (newReadDesire i ownerA)\<lparr>rd_Generation := 99\<rparr> in
      succeeds (st_CreateReadDesire store d) (\<lambda>created.
      expect (rd_Version created = 1) (
      expect (rd_Generation created = 1) (
      succeeds (st_GetReadDesire store i) (\<lambda>got.
      expect (rd_Identity got = i \<and> rd_Owner got = ownerA \<and> rd_Generation got = rd_Generation created)
      passed)))))"

definition Read_DeleteSuccess :: "'s StatusStore \<Rightarrow> 's scenario" where
  "Read_DeleteSuccess store =
     (let i = identity ''cluster-a'' TypeRead ''read-4'' in
      succeeds (st_CreateReadDesire store (newReadDesire i ownerA)) (\<lambda>created.
      succeeds (st_DeleteReadDesire store i ownerA (rd_Version created)) (\<lambda>_.
      fails_with ErrNotFound (st_GetReadDesire store i)
      passed)))"

definition Read_DeleteStaleVersionRejected :: "'s StatusStore \<Rightarrow> 's scenario" where
  "Read_DeleteStaleVersionRejected store =
     (let i = identity ''cluster-a'' TypeRead ''read-stale'' in
      succeeds (st_CreateReadDesire store (newReadDesire i ownerA)) (\<lambda>created.
      fails_with ErrVersionConflict (st_DeleteReadDesire store i ownerA (rd_Version created + 1))
      passed))"

definition Read_DeleteForeignOwnerRejected :: "'s StatusStore \<Rightarrow> 's scenario" where
  "Read_DeleteForeignOwnerRejected store =
     (let i = identity ''cluster-a'' TypeRead ''read-owner'' in
      succeeds (st_CreateReadDesire store (newReadDesire i ownerA)) (\<lambda>created.
      fails_with ErrOwnerConflict (st_DeleteReadDesire store i ''owner-b'' (rd_Version created))
      passed))"

section \<open>Listing by management cluster\<close>

definition Listing_Apply :: "'s StatusStore \<Rightarrow> 's scenario" where
  "Listing_Apply store =
     (let idA = identity ''cluster-a'' TypeApply ''res-a'';
          idB = identity ''cluster-b'' TypeApply ''res-b'';
          only = (\<lambda>l i. length l = 1 \<and> ad_Identity (hd l) = i \<and> ad_Generation (hd l) = 1) in
      succeeds (st_CreateApplyDesire store (newApplyDesire idA ''owner'' emptyObject)) (\<lambda>_.
      succeeds (st_CreateApplyDesire store (newApplyDesire idB ''owner'' emptyObject)) (\<lambda>_.
      succeeds (st_ListApplyDesires store ''cluster-a'') (\<lambda>listA.
      require (only listA idA) (
      succeeds (st_ListApplyDesires store ''cluster-b'') (\<lambda>listB.
      require (only listB idB)
      passed))))))"

definition Listing_Delete :: "'s StatusStore \<Rightarrow> 's scenario" where
  "Listing_Delete store =
     (let idA = identity ''cluster-a'' TypeDelete ''res-a'';
          idB = identity ''cluster-b'' TypeDelete ''res-b'';
          only = (\<lambda>l i. length l = 1 \<and> dd_Identity (hd l) = i \<and> dd_Generation (hd l) = 1) in
      succeeds (st_CreateDeleteDesire store (newDeleteDesire idA ''owner'')) (\<lambda>_.
      succeeds (st_CreateDeleteDesire store (newDeleteDesire idB ''owner'')) (\<lambda>_.
      succeeds (st_ListDeleteDesires store ''cluster-a'') (\<lambda>listA.
      require (only listA idA) (
      succeeds (st_ListDeleteDesires store ''cluster-b'') (\<lambda>listB.
      require (only listB idB)
      passed))))))"

definition Listing_Read :: "'s StatusStore \<Rightarrow> 's scenario" where
  "Listing_Read store =
     (let idA = identity ''cluster-a'' TypeRead ''res-a'';
          idB = identity ''cluster-b'' TypeRead ''res-b'';
          only = (\<lambda>l i. length l = 1 \<and> rd_Identity (hd l) = i \<and> rd_Generation (hd l) = 1) in
      succeeds (st_CreateReadDesire store (newReadDesire idA ''owner'')) (\<lambda>_.
      succeeds (st_CreateReadDesire store (newReadDesire idB ''owner'')) (\<lambda>_.
      succeeds (st_ListReadDesires store ''cluster-a'') (\<lambda>listA.
      require (only listA idA) (
      succeeds (st_ListReadDesires store ''cluster-b'') (\<lambda>listB.
      require (only listB idB)
      passed))))))"

section \<open>Mutual exclusion\<close>

definition Mutual_ApplyThenDeleteSupersedes :: "'s StatusStore \<Rightarrow> 's scenario" where
  "Mutual_ApplyThenDeleteSupersedes store =
     (let i = identity ''cluster-a'' TypeApply ''mutual-1'';
          deleteID = identity (ManagementCluster i) TypeDelete (Name i) in
      succeeds (st_CreateApplyDesire store (newApplyDesire i ownerA emptyObject)) (\<lambda>_.
      succeeds (st_CreateDeleteDesire store (newDeleteDesire deleteID ownerA)) (\<lambda>_.
      do {
        got \<leftarrow> st_GetApplyDesire store i;
        expect (case got of Inl err \<Rightarrow> errors_Is err ErrNotFound | Inr d \<Rightarrow> False) (
        succeeds (st_GetDeleteDesire store deleteID) (\<lambda>_.
        passed))
      })))"

definition Mutual_DeleteThenApplyRejected :: "'s StatusStore \<Rightarrow> 's scenario" where
  "Mutual_DeleteThenApplyRejected store =
     (let i = identity ''cluster-a'' TypeDelete ''mutual-2'';
          applyID = identity (ManagementCluster i) TypeApply (Name i) in
      succeeds (st_CreateDeleteDesire store (newDeleteDesire i ownerA)) (\<lambda>_.
      fails_with ErrDeletePending (st_CreateApplyDesire store (newApplyDesire applyID ownerA emptyObject))
      passed))"

definition Mutual_ConfirmedDeleteThenApplyRecreates :: "timestamp \<Rightarrow> 's StatusStore \<Rightarrow> 's scenario" where
  "Mutual_ConfirmedDeleteThenApplyRecreates now store =
     (let deleteID = identity ''cluster-a'' TypeDelete ''mutual-recreate'';
          applyID = identity (ManagementCluster deleteID) TypeApply (Name deleteID) in
      succeeds (st_CreateDeleteDesire store (newDeleteDesire deleteID ownerA)) (\<lambda>deleted.
      succeeds (st_UpdateDeleteDesireStatus store deleteID
          (with_conditions [condition now ReasonDeleted ConditionTrue]) (dd_Version deleted)) (\<lambda>_.
      succeeds (st_CreateApplyDesire store (newApplyDesire applyID ownerA emptyObject)) (\<lambda>_.
      fails_with ErrNotFound (st_GetDeleteDesire store deleteID)
      passed))))"

definition Mutual_ReadCoexistsWithApply :: "'s StatusStore \<Rightarrow> 's scenario" where
  "Mutual_ReadCoexistsWithApply store =
     (let idApply = identity ''cluster-a'' TypeApply ''mutual-4'';
          idRead = identity (ManagementCluster idApply) TypeRead (Name idApply) in
      succeeds (st_CreateApplyDesire store (newApplyDesire idApply ownerA emptyObject)) (\<lambda>appliedD.
      succeeds (st_CreateReadDesire store (newReadDesire idRead ownerA)) (\<lambda>readD.
      expect (rd_Version readD = 1) (
      succeeds (st_GetApplyDesire store idApply) (\<lambda>got.
      expect (ad_Version got = ad_Version appliedD) (
      succeeds (st_GetReadDesire store idRead) (\<lambda>gotRead.
      expect (rd_Version gotRead = rd_Version readD)
      passed)))))))"

definition Mutual_ReadCoexistsWithDelete :: "'s StatusStore \<Rightarrow> 's scenario" where
  "Mutual_ReadCoexistsWithDelete store =
     (let idDelete = identity ''cluster-a'' TypeDelete ''mutual-5'';
          idRead = identity (ManagementCluster idDelete) TypeRead (Name idDelete) in
      succeeds (st_CreateDeleteDesire store (newDeleteDesire idDelete ownerA)) (\<lambda>deletedD.
      succeeds (st_CreateReadDesire store (newReadDesire idRead ownerA)) (\<lambda>readD.
      expect (rd_Version readD = 1) (
      succeeds (st_GetDeleteDesire store idDelete) (\<lambda>got.
      expect (dd_Version got = dd_Version deletedD) (
      succeeds (st_GetReadDesire store idRead) (\<lambda>gotRead.
      expect (rd_Version gotRead = rd_Version readD)
      passed)))))))"

section \<open>Ownership across types\<close>

definition Owner_ReadUnderApplyForeignOwnerRejected :: "'s StatusStore \<Rightarrow> 's scenario" where
  "Owner_ReadUnderApplyForeignOwnerRejected store =
     (let idApply = identity ''cluster-a'' TypeApply ''cross-owner-1'';
          idRead = identity (ManagementCluster idApply) TypeRead (Name idApply) in
      succeeds (st_CreateApplyDesire store (newApplyDesire idApply ownerA emptyObject)) (\<lambda>_.
      fails_with ErrOwnerConflict (st_CreateReadDesire store (newReadDesire idRead ''owner-b''))
      passed))"

definition Owner_DeleteUnderApplyForeignOwnerRejected :: "'s StatusStore \<Rightarrow> 's scenario" where
  "Owner_DeleteUnderApplyForeignOwnerRejected store =
     (let idApply = identity ''cluster-a'' TypeApply ''cross-owner-2'';
          idDelete = identity (ManagementCluster idApply) TypeDelete (Name idApply) in
      succeeds (st_CreateApplyDesire store (newApplyDesire idApply ownerA emptyObject)) (\<lambda>_.
      fails_with ErrOwnerConflict (st_CreateDeleteDesire store (newDeleteDesire idDelete ''owner-b''))
      passed))"

definition Owner_ApplyUnderReadForeignOwnerRejected :: "'s StatusStore \<Rightarrow> 's scenario" where
  "Owner_ApplyUnderReadForeignOwnerRejected store =
     (let idRead = identity ''cluster-a'' TypeRead ''cross-owner-rev-1'';
          idApply = identity (ManagementCluster idRead) TypeApply (Name idRead) in
      succeeds (st_CreateReadDesire store (newReadDesire idRead ownerA)) (\<lambda>_.
      fails_with ErrOwnerConflict (st_CreateApplyDesire store (newApplyDesire idApply ''owner-b'' emptyObject))
      passed))"

definition Owner_ApplyUnderDeleteForeignOwnerRejected :: "'s StatusStore \<Rightarrow> 's scenario" where
  "Owner_ApplyUnderDeleteForeignOwnerRejected store =
     (let idDelete = identity ''cluster-a'' TypeDelete ''cross-owner-rev-2'';
          idApply = identity (ManagementCluster idDelete) TypeApply (Name idDelete) in
      succeeds (st_CreateDeleteDesire store (newDeleteDesire idDelete ownerA)) (\<lambda>_.
      fails_with ErrOwnerConflict (st_CreateApplyDesire store (newApplyDesire idApply ''owner-b'' emptyObject))
      passed))"

definition Owner_MatchingOwnerAcrossTypesAllowed :: "'s StatusStore \<Rightarrow> 's scenario" where
  "Owner_MatchingOwnerAcrossTypesAllowed store =
     (let idRead = identity ''cluster-a'' TypeRead ''cross-owner-3'';
          idApply = identity (ManagementCluster idRead) TypeApply (Name idRead) in
      succeeds (st_CreateReadDesire store (newReadDesire idRead ownerA)) (\<lambda>_.
      succeeds (st_CreateApplyDesire store (newApplyDesire idApply ownerA emptyObject)) (\<lambda>_.
      passed)))"

definition Owner_MismatchedTypeAccessorsDoNotTouchApply :: "'s StatusStore \<Rightarrow> 's scenario" where
  "Owner_MismatchedTypeAccessorsDoNotTouchApply store =
     (let idApply = identity ''cluster-a'' TypeApply ''type-guard'' in
      succeeds (st_CreateApplyDesire store (newApplyDesire idApply ownerA emptyObject)) (\<lambda>created.
      fails_with ErrNotFound (st_GetDeleteDesire store idApply) (
      fails_with ErrNotFound (st_DeleteDeleteDesire store idApply ownerA (ad_Version created)) (
      fails_with ErrNotFound (st_GetReadDesire store idApply) (
      fails_with ErrNotFound (st_DeleteReadDesire store idApply ownerA (ad_Version created)) (
      fails_with ErrNotFound (st_UpdateDeleteDesireStatus store idApply zero_Status (ad_Version created)) (
      fails_with ErrNotFound (st_UpdateReadDesireStatus store idApply zero_ReadStatus) (
      succeeds (st_GetApplyDesire store idApply) (\<lambda>got.
      require (ad_Version got = ad_Version created)
      passed)))))))))"

section \<open>Deleting by prefix\<close>

definition any_of :: "DesireType \<Rightarrow> PrefixSelector" where
  "any_of typ = \<lparr>sel_Type = typ, sel_Group = [], sel_Resource = [], sel_Namespace = [], sel_Name = []\<rparr>"

definition Prefix_RemovesMatchingApplyOnly :: "'s StatusStore \<Rightarrow> 's scenario" where
  "Prefix_RemovesMatchingApplyOnly store =
     (let keep = identity ''cluster-a'' TypeApply ''keep'';
          drp = identity ''cluster-a'' TypeApply ''drop'';
          otherCluster = identity ''cluster-b'' TypeApply ''drop'' in
      succeeds (st_CreateApplyDesire store (newApplyDesire keep ownerA emptyObject)) (\<lambda>_.
      succeeds (st_CreateApplyDesire store (newApplyDesire drp ownerA emptyObject)) (\<lambda>_.
      succeeds (st_CreateApplyDesire store (newApplyDesire otherCluster ownerA emptyObject)) (\<lambda>_.
      succeeds (st_DeleteByPrefix store ''cluster-a'' ((any_of TypeApply)\<lparr>sel_Name := ''drop''\<rparr>)) (\<lambda>_.
      fails_with ErrNotFound (st_GetApplyDesire store drp) (
      succeeds (st_GetApplyDesire store keep) (\<lambda>_.
      succeeds (st_GetApplyDesire store otherCluster) (\<lambda>_.
      passed))))))))"

definition Prefix_ClearsOneSubStateLeavesOthers :: "'s StatusStore \<Rightarrow> 's scenario" where
  "Prefix_ClearsOneSubStateLeavesOthers store =
     (let idApply = identity ''cluster-a'' TypeApply ''shared'';
          idRead = identity (ManagementCluster idApply) TypeRead (Name idApply) in
      succeeds (st_CreateApplyDesire store (newApplyDesire idApply ownerA emptyObject)) (\<lambda>_.
      succeeds (st_CreateReadDesire store (newReadDesire idRead ownerA)) (\<lambda>_.
      succeeds (st_DeleteByPrefix store ''cluster-a'' ((any_of TypeApply)\<lparr>sel_Name := ''shared''\<rparr>)) (\<lambda>_.
      fails_with ErrNotFound (st_GetApplyDesire store idApply) (
      succeeds (st_GetReadDesire store idRead) (\<lambda>_.
      passed))))))"

definition Prefix_MatchesResourcePrefix :: "'s StatusStore \<Rightarrow> 's scenario" where
  "Prefix_MatchesResourcePrefix store =
     (let cm = identity ''cluster-a'' TypeDelete ''obj-1'';
          secret = (identity ''cluster-a'' TypeDelete ''obj-2'')\<lparr>Resource := ''secrets''\<rparr> in
      succeeds (st_CreateDeleteDesire store (newDeleteDesire cm ownerA)) (\<lambda>_.
      succeeds (st_CreateDeleteDesire store (newDeleteDesire secret ownerA)) (\<lambda>_.
      succeeds (st_DeleteByPrefix store ''cluster-a'' ((any_of TypeDelete)\<lparr>sel_Resource := ''config''\<rparr>)) (\<lambda>_.
      fails_with ErrNotFound (st_GetDeleteDesire store cm) (
      succeeds (st_GetDeleteDesire store secret) (\<lambda>_.
      passed))))))"

definition Prefix_PartialClearLeavesSiblingVersionUntouched :: "'s StatusStore \<Rightarrow> 's scenario" where
  "Prefix_PartialClearLeavesSiblingVersionUntouched store =
     (let idApply = identity ''cluster-a'' TypeApply ''ver-bump'';
          idRead = identity (ManagementCluster idApply) TypeRead (Name idApply) in
      succeeds (st_CreateApplyDesire store (newApplyDesire idApply ownerA emptyObject)) (\<lambda>applied.
      succeeds (st_CreateReadDesire store (newReadDesire idRead ownerA)) (\<lambda>_.
      succeeds (st_DeleteByPrefix store ''cluster-a'' ((any_of TypeRead)\<lparr>sel_Name := Name idRead\<rparr>)) (\<lambda>_.
      succeeds (st_GetApplyDesire store idApply) (\<lambda>got.
      require (ad_Version got = ad_Version applied) (
      succeeds (st_UpdateApplyDesireSpec store idApply \<lparr>KubeContent = kubeContentV2\<rparr> ownerA (ad_Version applied)) (\<lambda>_.
      passed)))))))"

section \<open>Statuses of apply desires\<close>

definition ApplyStatus_GetMissingReturnsNotFound :: "'s StatusStore \<Rightarrow> 's scenario" where
  "ApplyStatus_GetMissingReturnsNotFound store =
     fails_with ErrNotFound (st_GetApplyDesire store (identity ''cluster-a'' TypeApply ''missing''))
     passed"

definition ApplyStatus_UpdateStatusSuccessIncrementsVersion :: "timestamp \<Rightarrow> 's StatusStore \<Rightarrow> 's scenario" where
  "ApplyStatus_UpdateStatusSuccessIncrementsVersion now store =
     (let i = identity ''cluster-a'' TypeApply ''cm-2'' in
      succeeds (st_CreateApplyDesire store (newApplyDesire i ownerA emptyObject)) (\<lambda>created.
      succeeds (st_UpdateApplyDesireStatus store i (with_conditions [condition now ReasonApplied ConditionTrue])
          (ad_Version created)) (\<lambda>updated.
      expect (sint (ad_Version created) < sint (ad_Version updated)) (
      expect (ad_Generation updated = ad_Generation created)
      passed))))"

definition ApplyStatus_StaleStatusWriteAfterSpecUpdateIsRejected :: "timestamp \<Rightarrow> 's StatusStore \<Rightarrow> 's scenario" where
  "ApplyStatus_StaleStatusWriteAfterSpecUpdateIsRejected now store =
     (let i = identity ''cluster-a'' TypeApply ''stale-status-after-spec'' in
      succeeds (st_CreateApplyDesire store (newApplyDesire i ownerA kubeContentV1)) (\<lambda>created.
      let oldCondition = (condition now ReasonApplied ConditionTrue)\<lparr>cond_ObservedGeneration := ad_Generation created\<rparr> in
      succeeds (st_UpdateApplyDesireStatus store i (with_conditions [oldCondition]) (ad_Version created)) (\<lambda>withStatus.
      succeeds (st_GetApplyDesire store i) (\<lambda>prior.
      succeeds (st_UpdateApplyDesireSpec store i \<lparr>KubeContent = kubeContentV2\<rparr> ownerA (ad_Version withStatus)) (\<lambda>updated.
      require (ad_Generation updated = ad_Generation withStatus + 1 \<and> ad_Version updated = ad_Version withStatus + 1 \<and>
          ad_Status updated = ad_Status prior) (
      let staleCondition = (condition now ReasonKubeAPIError ConditionFalse)
            \<lparr>cond_ObservedGeneration := ad_Generation withStatus\<rparr> in
      fails_with ErrVersionConflict
        (st_UpdateApplyDesireStatus store i (with_conditions [staleCondition]) (ad_Version withStatus)) (
      succeeds (st_GetApplyDesire store i) (\<lambda>got.
      expect (ad_Generation got = ad_Generation updated \<and> ad_Version got = ad_Version updated \<and>
          KubeContent (ad_Spec got) = kubeContentV2 \<and> ad_Status got = ad_Status updated)
      passed))))))))"

definition ApplyStatus_StatusWriteDoesNotChangeSpec :: "timestamp \<Rightarrow> 's StatusStore \<Rightarrow> 's scenario" where
  "ApplyStatus_StatusWriteDoesNotChangeSpec now store =
     (let i = identity ''cluster-a'' TypeApply ''cm-3'' in
      succeeds (st_CreateApplyDesire store (newApplyDesire i ownerA kubeContentV1)) (\<lambda>created.
      succeeds (st_UpdateApplyDesireStatus store i (with_conditions [condition now ReasonApplied ConditionTrue])
          (ad_Version created)) (\<lambda>afterStatus.
      expect (KubeContent (ad_Spec afterStatus) = kubeContentV1) (
      expect (ad_Generation afterStatus = ad_Generation created)
      passed))))"

section \<open>Statuses of delete desires\<close>

definition DeleteStatus_GetMissingReturnsNotFound :: "'s StatusStore \<Rightarrow> 's scenario" where
  "DeleteStatus_GetMissingReturnsNotFound store =
     fails_with ErrNotFound (st_GetDeleteDesire store (identity ''cluster-a'' TypeDelete ''missing''))
     passed"

definition DeleteStatus_UpdateStatusSuccessIncrementsVersion :: "timestamp \<Rightarrow> 's StatusStore \<Rightarrow> 's scenario" where
  "DeleteStatus_UpdateStatusSuccessIncrementsVersion now store =
     (let i = identity ''cluster-a'' TypeDelete ''del-2'';
          status = with_conditions [condition now ReasonWaitingForDeletion ConditionFalse] in
      succeeds (st_CreateDeleteDesire store (newDeleteDesire i ownerA)) (\<lambda>created.
      succeeds (st_UpdateDeleteDesireStatus store i status (dd_Version created)) (\<lambda>updated.
      expect (sint (dd_Version created) < sint (dd_Version updated)) (
      expect (dd_Generation updated = dd_Generation created) (
      succeeds (st_GetDeleteDesire store i) (\<lambda>got.
      expect (length (Conditions (dd_Status got)) = 1 \<and>
          cond_Reason (hd (Conditions (dd_Status got))) = ReasonWaitingForDeletion)
      passed))))))"

definition DeleteStatus_StaleVersionRejected :: "timestamp \<Rightarrow> 's StatusStore \<Rightarrow> 's scenario" where
  "DeleteStatus_StaleVersionRejected now store =
     (let i = identity ''cluster-a'' TypeDelete ''del-3'';
          status = with_conditions [condition now ReasonWaitingForDeletion ConditionFalse] in
      succeeds (st_CreateDeleteDesire store (newDeleteDesire i ownerA)) (\<lambda>created.
      succeeds (st_UpdateDeleteDesireStatus store i status (dd_Version created)) (\<lambda>_.
      fails_with ErrVersionConflict (st_UpdateDeleteDesireStatus store i status (dd_Version created))
      passed)))"

section \<open>Statuses of read desires\<close>

definition syncedStatus :: "timestamp \<Rightarrow> bytes \<Rightarrow> ReadStatus" where
  "syncedStatus now content =
     \<lparr>rs_Status = with_conditions [condition now ReasonSynced ConditionTrue], rs_KubeContent = content\<rparr>"

definition ReadStatus_GetMissingReturnsNotFound :: "'s StatusStore \<Rightarrow> 's scenario" where
  "ReadStatus_GetMissingReturnsNotFound store =
     fails_with ErrNotFound (st_GetReadDesire store (identity ''cluster-a'' TypeRead ''missing''))
     passed"

definition ReadStatus_UpdateMissingReturnsNotFound :: "timestamp \<Rightarrow> 's StatusStore \<Rightarrow> 's scenario" where
  "ReadStatus_UpdateMissingReturnsNotFound now store =
     fails_with ErrNotFound
       (st_UpdateReadDesireStatus store (identity ''cluster-a'' TypeRead ''missing'') (syncedStatus now []))
     passed"

definition ReadStatus_UpdateStatusSucceedsWithoutVersionCheck :: "timestamp \<Rightarrow> 's StatusStore \<Rightarrow> 's scenario" where
  "ReadStatus_UpdateStatusSucceedsWithoutVersionCheck now store =
     (let i = identity ''cluster-a'' TypeRead ''read-2'' in
      succeeds (st_CreateReadDesire store (newReadDesire i ownerA)) (\<lambda>_.
      succeeds (st_UpdateReadDesireStatus store i (syncedStatus now [])) (\<lambda>updated.
      expect (rd_Generation updated = 1)
      passed)))"

primrec repeated_writes :: "nat \<Rightarrow> timestamp \<Rightarrow> Identity \<Rightarrow> 's StatusStore \<Rightarrow> 's scenario" where
  "repeated_writes 0 now i store = passed"
| "repeated_writes (Suc n) now i store =
     succeeds (st_UpdateReadDesireStatus store i (syncedStatus now [])) (\<lambda>_. repeated_writes n now i store)"

definition ReadStatus_RepeatedWritesNeverFail :: "timestamp \<Rightarrow> 's StatusStore \<Rightarrow> 's scenario" where
  "ReadStatus_RepeatedWritesNeverFail now store =
     (let i = identity ''cluster-a'' TypeRead ''read-4'' in
      succeeds (st_CreateReadDesire store (newReadDesire i ownerA)) (\<lambda>_.
      repeated_writes 5 now i store))"

definition ReadStatus_DoesNotAdvanceVersion_Apply :: "timestamp \<Rightarrow> 's StatusStore \<Rightarrow> 's scenario" where
  "ReadStatus_DoesNotAdvanceVersion_Apply now store =
     (let i = identity ''cluster-a'' TypeApply ''shared-1'';
          readID = i\<lparr>DesireTypeOf := TypeRead\<rparr> in
      succeeds (st_CreateApplyDesire store (newApplyDesire i ownerA kubeContentV1)) (\<lambda>createdApply.
      succeeds (st_CreateReadDesire store (newReadDesire readID ownerA)) (\<lambda>_.
      succeeds (st_UpdateReadDesireStatus store readID (syncedStatus now [])) (\<lambda>_.
      succeeds (st_UpdateApplyDesireStatus store i (with_conditions [condition now ReasonApplied ConditionTrue])
          (ad_Version createdApply)) (\<lambda>_.
      passed)))))"

definition ReadStatus_DoesNotAdvanceVersion_Delete :: "timestamp \<Rightarrow> 's StatusStore \<Rightarrow> 's scenario" where
  "ReadStatus_DoesNotAdvanceVersion_Delete now store =
     (let i = identity ''cluster-a'' TypeDelete ''shared-2'';
          readID = i\<lparr>DesireTypeOf := TypeRead\<rparr> in
      succeeds (st_CreateDeleteDesire store (newDeleteDesire i ownerA)) (\<lambda>createdDelete.
      succeeds (st_CreateReadDesire store (newReadDesire readID ownerA)) (\<lambda>_.
      succeeds (st_UpdateReadDesireStatus store readID (syncedStatus now [])) (\<lambda>_.
      succeeds (st_UpdateDeleteDesireStatus store i
          (with_conditions [condition now ReasonWaitingForDeletion ConditionFalse]) (dd_Version createdDelete)) (\<lambda>_.
      passed)))))"

definition ReadStatus_KubeContentMirror :: "timestamp \<Rightarrow> 's StatusStore \<Rightarrow> 's scenario" where
  "ReadStatus_KubeContentMirror now store =
     (let i = identity ''cluster-a'' TypeRead ''read-3'';
          content = json_text ''{QkindQ:QConfigMapQ,QdataQ:{QkQ:QvQ}}'' in
      succeeds (st_CreateReadDesire store (newReadDesire i ownerA)) (\<lambda>created.
      expect (rs_KubeContent (rd_Status created) = []) (
      succeeds (st_UpdateReadDesireStatus store i (syncedStatus now content)) (\<lambda>updated.
      expect (rs_KubeContent (rd_Status updated) = content) (
      succeeds (st_GetReadDesire store i) (\<lambda>got2.
      expect (rs_KubeContent (rd_Status got2) = content)
      passed))))))"

section \<open>The suites\<close>

definition RunSpecStoreSuite :: "timestamp \<Rightarrow> 's StatusStore \<Rightarrow> 's scenario list" where
  "RunSpecStoreSuite now store =
     [Apply_CreateGetRoundTrip store, Apply_CreateExistingReturnsAlreadyExists store,
      Apply_CreateDuplicateDifferentOwnerReturnsOwnerConflict store, Apply_UpdateSpecRejectsEmptyKubeContent store,
      Apply_RecreateAfterDeleteClearsStatus now store, Apply_GetMissingReturnsNotFound store,
      Apply_UpdateSpecSuccessIncrementsVersion store, Apply_OnlyChangedSpecAdvancesGeneration now store,
      Apply_UpdateSpecPreservesStatus (previousSuccess now) store,
      Apply_UpdateSpecPreservesStatus (previousFailure now) store,
      Apply_DifferentOwnerRejected store, Apply_DeleteSuccess store,
      Delete_CreateGetRoundTrip store, Delete_DeleteSuccess store, Delete_DeleteStaleVersionRejected store,
      Delete_DeleteForeignOwnerRejected store,
      Read_CreateGetRoundTrip store, Read_DeleteSuccess store, Read_DeleteStaleVersionRejected store,
      Read_DeleteForeignOwnerRejected store,
      Listing_Apply store, Listing_Delete store, Listing_Read store,
      Mutual_ApplyThenDeleteSupersedes store, Mutual_DeleteThenApplyRejected store,
      Mutual_ConfirmedDeleteThenApplyRecreates now store, Mutual_ReadCoexistsWithApply store,
      Mutual_ReadCoexistsWithDelete store,
      Owner_ReadUnderApplyForeignOwnerRejected store, Owner_DeleteUnderApplyForeignOwnerRejected store,
      Owner_ApplyUnderReadForeignOwnerRejected store, Owner_ApplyUnderDeleteForeignOwnerRejected store,
      Owner_MatchingOwnerAcrossTypesAllowed store, Owner_MismatchedTypeAccessorsDoNotTouchApply store,
      Prefix_RemovesMatchingApplyOnly store, Prefix_ClearsOneSubStateLeavesOthers store,
      Prefix_MatchesResourcePrefix store, Prefix_PartialClearLeavesSiblingVersionUntouched store]"

definition RunStatusStoreSuite :: "timestamp \<Rightarrow> 's StatusStore \<Rightarrow> 's scenario list" where
  "RunStatusStoreSuite now store =
     [ApplyStatus_GetMissingReturnsNotFound store, ApplyStatus_UpdateStatusSuccessIncrementsVersion now store,
      ApplyStatus_StaleStatusWriteAfterSpecUpdateIsRejected now store,
      ApplyStatus_StatusWriteDoesNotChangeSpec now store,
      DeleteStatus_GetMissingReturnsNotFound store, DeleteStatus_UpdateStatusSuccessIncrementsVersion now store,
      DeleteStatus_StaleVersionRejected now store,
      ReadStatus_GetMissingReturnsNotFound store, ReadStatus_UpdateMissingReturnsNotFound now store,
      ReadStatus_UpdateStatusSucceedsWithoutVersionCheck now store, ReadStatus_RepeatedWritesNeverFail now store,
      ReadStatus_DoesNotAdvanceVersion_Apply now store, ReadStatus_DoesNotAdvanceVersion_Delete now store,
      ReadStatus_KubeContentMirror now store]"

text \<open>Every scenario runs on a store of its own.\<close>

definition conforms :: "timestamp \<Rightarrow> 's StatusStore \<Rightarrow> 's \<Rightarrow> bool" where
  "conforms now store new \<longleftrightarrow>
     list_all (\<lambda>t. fst (run_state t new)) (RunSpecStoreSuite now store @ RunStatusStoreSuite now store)"

end
