(* ===== verification/StoreSimulation.thy ===== *)
theory StoreSimulation
  imports Conformance "HOL-Library.Multiset"
begin

text \<open>
  When one store behaves like another: a relation between their states under which every operation
  returns the same on both and leads to related states again. A listing may come in another order. The
  locale holds the consequence the conformance suite is about: both stores get the same verdict.
\<close>

definition simulates ::
  "('s \<Rightarrow> 't \<Rightarrow> bool) \<Rightarrow> ('a \<Rightarrow> 'b \<Rightarrow> bool) \<Rightarrow> ('s, 'a) state \<Rightarrow> ('t, 'b) state \<Rightarrow> bool" where
  "simulates R E m n \<longleftrightarrow> (\<forall>s t. R s t \<longrightarrow> wp m (\<lambda>x s'. wp n (\<lambda>y t'. E x y \<and> R s' t') t) s)"

lemma simulatesD:
  "simulates R E m n \<Longrightarrow> R s t \<Longrightarrow> wp m (\<lambda>x s'. wp n (\<lambda>y t'. E x y \<and> R s' t') t) s"
  by (simp add: simulates_def)

lemma simulates_return: "E x y \<Longrightarrow> simulates R E (State_Monad.return x) (State_Monad.return y)"
  by (simp add: simulates_def wp_return)

lemma simulates_bind:
  assumes "simulates R E m n" and "\<And>x y. E x y \<Longrightarrow> simulates R F (f x) (g y)"
  shows "simulates R F (State_Monad.bind m f) (State_Monad.bind n g)"
proof -
  have "wp (State_Monad.bind m f) (\<lambda>x s'. wp (State_Monad.bind n g) (\<lambda>y t'. F x y \<and> R s' t') t) s" if "R s t" for s t
  proof -
    obtain x s' y t' where run: "run_state m s = (x, s')" "run_state n t = (y, t')" by (meson surj_pair)
    with simulatesD [OF assms(1) that] have "E x y" "R s' t'" by (simp_all add: wp_def)
    then show ?thesis using simulatesD [OF assms(2)] run by (simp add: wp_bind) (simp add: wp_def)
  qed
  then show ?thesis by (simp add: simulates_def)
qed

lemma simulates_bind_eq:
  assumes "simulates R (=) m n" and "\<And>x. simulates R (=) (f x) (g x)"
  shows "simulates R (=) (State_Monad.bind m f) (State_Monad.bind n g)"
  using assms by (auto intro: simulates_bind)

text \<open>Two listings with the same desires.\<close>

definition same_listing :: "'d list result \<Rightarrow> 'd list result \<Rightarrow> bool" where
  "same_listing = rel_sum (=) (\<lambda>xs ys. mset xs = mset ys)"

lemma singleton_listing:
  "mset xs = mset ys \<Longrightarrow> length xs = 1 \<and> P (hd xs) \<longleftrightarrow> length ys = 1 \<and> P (hd ys)"
proof -
  assume "mset xs = mset ys"
  moreover from this have "length xs = length ys" by (rule mset_eq_length)
  ultimately show ?thesis by (cases xs; cases ys) auto
qed

lemma simulates_succeeds:
  assumes "simulates R (=) m n" and "\<And>x. simulates R (=) (k x) (k' x)"
  shows "simulates R (=) (succeeds m k) (succeeds n k')"
  unfolding succeeds_def
  by (rule simulates_bind [OF assms(1)]) (auto intro: simulates_return assms(2) split: sum.split)

lemma simulates_listing:
  assumes "simulates R same_listing m n" and "\<And>xs ys. mset xs = mset ys \<Longrightarrow> simulates R (=) (k xs) (k' ys)"
  shows "simulates R (=) (succeeds m k) (succeeds n k')"
  unfolding succeeds_def
  by (rule simulates_bind [OF assms(1)])
    (auto simp: same_listing_def intro: simulates_return assms(2) split: sum.split elim: rel_sum.cases)

lemma simulates_fails:
  assumes "simulates R (=) m n" and "simulates R (=) k k'"
  shows "simulates R (=) (fails_with e m k) (fails_with e n k')" "simulates R (=) (fails m k) (fails n k')"
  unfolding fails_with_def fails_def
  by (rule simulates_bind [OF assms(1)], auto intro: simulates_return assms(2) split: sum.split)+

lemma simulates_require: "b = b' \<Longrightarrow> simulates R (=) k k' \<Longrightarrow> simulates R (=) (require b k) (require b' k')"
  by (simp add: require_def simulates_return)

lemma simulates_expect: "simulates R (=) k k' \<Longrightarrow> simulates R (=) (expect b k) (expect b k')"
  unfolding expect_def by (erule simulates_bind) (simp add: simulates_return)

lemma simulates_passed: "simulates R (=) passed passed"
  by (simp add: passed_def simulates_return)

lemmas simulates_rules = simulates_succeeds simulates_bind_eq simulates_fails simulates_require [OF refl] simulates_expect simulates_passed

text \<open>A run gets one verdict on related states.\<close>

lemma simulates_verdict:
  "simulates R (=) m n \<Longrightarrow> R s t \<Longrightarrow> fst (run_state m s) = fst (run_state n t)"
  using simulatesD [of R "(=)" m n s t] by (simp add: wp_def split_beta)

section \<open>Stores that behave alike\<close>

locale store_simulation =
  fixes store :: "'s StatusStore" and reference :: "'t StatusStore" and R :: "'s \<Rightarrow> 't \<Rightarrow> bool"
  assumes create:
      "simulates R (=) (st_CreateApplyDesire store a) (st_CreateApplyDesire reference a)"
      "simulates R (=) (st_CreateDeleteDesire store d) (st_CreateDeleteDesire reference d)"
      "simulates R (=) (st_CreateReadDesire store g) (st_CreateReadDesire reference g)"
    and get:
      "simulates R (=) (st_GetApplyDesire store i) (st_GetApplyDesire reference i)"
      "simulates R (=) (st_GetDeleteDesire store i) (st_GetDeleteDesire reference i)"
      "simulates R (=) (st_GetReadDesire store i) (st_GetReadDesire reference i)"
    and update_spec: "DesireTypeOf i = TypeApply \<Longrightarrow>
      simulates R (=) (st_UpdateApplyDesireSpec store i spec owner n) (st_UpdateApplyDesireSpec reference i spec owner n)"
    and delete:
      "simulates R (=) (st_DeleteApplyDesire store i owner n) (st_DeleteApplyDesire reference i owner n)"
      "simulates R (=) (st_DeleteDeleteDesire store i owner n) (st_DeleteDeleteDesire reference i owner n)"
      "simulates R (=) (st_DeleteReadDesire store i owner n) (st_DeleteReadDesire reference i owner n)"
    and listing:
      "simulates R same_listing (st_ListApplyDesires store mc) (st_ListApplyDesires reference mc)"
      "simulates R same_listing (st_ListDeleteDesires store mc) (st_ListDeleteDesires reference mc)"
      "simulates R same_listing (st_ListReadDesires store mc) (st_ListReadDesires reference mc)"
    and delete_by_prefix:
      "simulates R (=) (st_DeleteByPrefix store mc sel) (st_DeleteByPrefix reference mc sel)"
    and update_status:
      "simulates R (=) (st_UpdateApplyDesireStatus store i st n) (st_UpdateApplyDesireStatus reference i st n)"
      "simulates R (=) (st_UpdateDeleteDesireStatus store i st n) (st_UpdateDeleteDesireStatus reference i st n)"
      "simulates R (=) (st_UpdateReadDesireStatus store i rst) (st_UpdateReadDesireStatus reference i rst)"
begin

lemmas operations = create get delete delete_by_prefix update_status

lemma update_spec_identity:
  "simulates R (=) (st_UpdateApplyDesireSpec store (identity mc TypeApply name) spec owner n)
     (st_UpdateApplyDesireSpec reference (identity mc TypeApply name) spec owner n)"
  by (rule update_spec) (simp add: identity_def)

lemma repeated_writes_agree: "simulates R (=) (repeated_writes k now i store) (repeated_writes k now i reference)"
  by (induction k) (simp_all add: simulates_rules operations)

lemmas scenario_rules = simulates_rules operations update_spec_identity repeated_writes_agree

lemma listings_agree:
  "simulates R (=) (Listing_Apply store) (Listing_Apply reference)"
  "simulates R (=) (Listing_Delete store) (Listing_Delete reference)"
  "simulates R (=) (Listing_Read store) (Listing_Read reference)"
  unfolding Listing_Apply_def Listing_Delete_def Listing_Read_def Let_def
  by (intro simulates_succeeds create simulates_listing [OF listing(1)] simulates_listing [OF listing(2)]
      simulates_listing [OF listing(3)] simulates_require singleton_listing simulates_passed; assumption)+

lemma agree_Apply:
  "simulates R (=) (Apply_CreateGetRoundTrip store) (Apply_CreateGetRoundTrip reference)"
  "simulates R (=) (Apply_CreateExistingReturnsAlreadyExists store) (Apply_CreateExistingReturnsAlreadyExists reference)"
  "simulates R (=) (Apply_CreateDuplicateDifferentOwnerReturnsOwnerConflict store) (Apply_CreateDuplicateDifferentOwnerReturnsOwnerConflict reference)"
  "simulates R (=) (Apply_UpdateSpecRejectsEmptyKubeContent store) (Apply_UpdateSpecRejectsEmptyKubeContent reference)"
  "simulates R (=) (Apply_RecreateAfterDeleteClearsStatus now store) (Apply_RecreateAfterDeleteClearsStatus now reference)"
  "simulates R (=) (Apply_GetMissingReturnsNotFound store) (Apply_GetMissingReturnsNotFound reference)"
  "simulates R (=) (Apply_UpdateSpecSuccessIncrementsVersion store) (Apply_UpdateSpecSuccessIncrementsVersion reference)"
  "simulates R (=) (Apply_OnlyChangedSpecAdvancesGeneration now store) (Apply_OnlyChangedSpecAdvancesGeneration now reference)"
  "simulates R (=) (Apply_UpdateSpecPreservesStatus status store) (Apply_UpdateSpecPreservesStatus status reference)"
  "simulates R (=) (Apply_DifferentOwnerRejected store) (Apply_DifferentOwnerRejected reference)"
  "simulates R (=) (Apply_DeleteSuccess store) (Apply_DeleteSuccess reference)"
  unfolding Apply_CreateGetRoundTrip_def Apply_CreateExistingReturnsAlreadyExists_def
    Apply_CreateDuplicateDifferentOwnerReturnsOwnerConflict_def Apply_UpdateSpecRejectsEmptyKubeContent_def
    Apply_RecreateAfterDeleteClearsStatus_def Apply_GetMissingReturnsNotFound_def
    Apply_UpdateSpecSuccessIncrementsVersion_def Apply_OnlyChangedSpecAdvancesGeneration_def
    Apply_UpdateSpecPreservesStatus_def Apply_DifferentOwnerRejected_def Apply_DeleteSuccess_def Let_def
  by (intro scenario_rules)+

lemma agree_Delete:
  "simulates R (=) (Delete_CreateGetRoundTrip store) (Delete_CreateGetRoundTrip reference)"
  "simulates R (=) (Delete_DeleteSuccess store) (Delete_DeleteSuccess reference)"
  "simulates R (=) (Delete_DeleteStaleVersionRejected store) (Delete_DeleteStaleVersionRejected reference)"
  "simulates R (=) (Delete_DeleteForeignOwnerRejected store) (Delete_DeleteForeignOwnerRejected reference)"
  unfolding Delete_CreateGetRoundTrip_def Delete_DeleteSuccess_def Delete_DeleteStaleVersionRejected_def
    Delete_DeleteForeignOwnerRejected_def Let_def
  by (intro scenario_rules)+

lemma agree_Read:
  "simulates R (=) (Read_CreateGetRoundTrip store) (Read_CreateGetRoundTrip reference)"
  "simulates R (=) (Read_DeleteSuccess store) (Read_DeleteSuccess reference)"
  "simulates R (=) (Read_DeleteStaleVersionRejected store) (Read_DeleteStaleVersionRejected reference)"
  "simulates R (=) (Read_DeleteForeignOwnerRejected store) (Read_DeleteForeignOwnerRejected reference)"
  unfolding Read_CreateGetRoundTrip_def Read_DeleteSuccess_def Read_DeleteStaleVersionRejected_def
    Read_DeleteForeignOwnerRejected_def Let_def
  by (intro scenario_rules)+

lemma agree_Mutual:
  "simulates R (=) (Mutual_ApplyThenDeleteSupersedes store) (Mutual_ApplyThenDeleteSupersedes reference)"
  "simulates R (=) (Mutual_DeleteThenApplyRejected store) (Mutual_DeleteThenApplyRejected reference)"
  "simulates R (=) (Mutual_ConfirmedDeleteThenApplyRecreates now store) (Mutual_ConfirmedDeleteThenApplyRecreates now reference)"
  "simulates R (=) (Mutual_ReadCoexistsWithApply store) (Mutual_ReadCoexistsWithApply reference)"
  "simulates R (=) (Mutual_ReadCoexistsWithDelete store) (Mutual_ReadCoexistsWithDelete reference)"
  unfolding Mutual_ApplyThenDeleteSupersedes_def Mutual_DeleteThenApplyRejected_def
    Mutual_ConfirmedDeleteThenApplyRecreates_def Mutual_ReadCoexistsWithApply_def
    Mutual_ReadCoexistsWithDelete_def Let_def
  by (intro scenario_rules)+

lemma agree_Owner:
  "simulates R (=) (Owner_ReadUnderApplyForeignOwnerRejected store) (Owner_ReadUnderApplyForeignOwnerRejected reference)"
  "simulates R (=) (Owner_DeleteUnderApplyForeignOwnerRejected store) (Owner_DeleteUnderApplyForeignOwnerRejected reference)"
  "simulates R (=) (Owner_ApplyUnderReadForeignOwnerRejected store) (Owner_ApplyUnderReadForeignOwnerRejected reference)"
  "simulates R (=) (Owner_ApplyUnderDeleteForeignOwnerRejected store) (Owner_ApplyUnderDeleteForeignOwnerRejected reference)"
  "simulates R (=) (Owner_MatchingOwnerAcrossTypesAllowed store) (Owner_MatchingOwnerAcrossTypesAllowed reference)"
  "simulates R (=) (Owner_MismatchedTypeAccessorsDoNotTouchApply store) (Owner_MismatchedTypeAccessorsDoNotTouchApply reference)"
  unfolding Owner_ReadUnderApplyForeignOwnerRejected_def Owner_DeleteUnderApplyForeignOwnerRejected_def
    Owner_ApplyUnderReadForeignOwnerRejected_def Owner_ApplyUnderDeleteForeignOwnerRejected_def
    Owner_MatchingOwnerAcrossTypesAllowed_def Owner_MismatchedTypeAccessorsDoNotTouchApply_def Let_def
  by (intro scenario_rules)+

lemma agree_Prefix:
  "simulates R (=) (Prefix_RemovesMatchingApplyOnly store) (Prefix_RemovesMatchingApplyOnly reference)"
  "simulates R (=) (Prefix_ClearsOneSubStateLeavesOthers store) (Prefix_ClearsOneSubStateLeavesOthers reference)"
  "simulates R (=) (Prefix_MatchesResourcePrefix store) (Prefix_MatchesResourcePrefix reference)"
  "simulates R (=) (Prefix_PartialClearLeavesSiblingVersionUntouched store) (Prefix_PartialClearLeavesSiblingVersionUntouched reference)"
  unfolding Prefix_RemovesMatchingApplyOnly_def Prefix_ClearsOneSubStateLeavesOthers_def
    Prefix_MatchesResourcePrefix_def Prefix_PartialClearLeavesSiblingVersionUntouched_def Let_def
  by (intro scenario_rules)+

lemma agree_ApplyStatus:
  "simulates R (=) (ApplyStatus_GetMissingReturnsNotFound store) (ApplyStatus_GetMissingReturnsNotFound reference)"
  "simulates R (=) (ApplyStatus_UpdateStatusSuccessIncrementsVersion now store) (ApplyStatus_UpdateStatusSuccessIncrementsVersion now reference)"
  "simulates R (=) (ApplyStatus_StaleStatusWriteAfterSpecUpdateIsRejected now store) (ApplyStatus_StaleStatusWriteAfterSpecUpdateIsRejected now reference)"
  "simulates R (=) (ApplyStatus_StatusWriteDoesNotChangeSpec now store) (ApplyStatus_StatusWriteDoesNotChangeSpec now reference)"
  unfolding ApplyStatus_GetMissingReturnsNotFound_def ApplyStatus_UpdateStatusSuccessIncrementsVersion_def
    ApplyStatus_StaleStatusWriteAfterSpecUpdateIsRejected_def ApplyStatus_StatusWriteDoesNotChangeSpec_def Let_def
  by (intro scenario_rules)+

lemma agree_DeleteStatus:
  "simulates R (=) (DeleteStatus_GetMissingReturnsNotFound store) (DeleteStatus_GetMissingReturnsNotFound reference)"
  "simulates R (=) (DeleteStatus_UpdateStatusSuccessIncrementsVersion now store) (DeleteStatus_UpdateStatusSuccessIncrementsVersion now reference)"
  "simulates R (=) (DeleteStatus_StaleVersionRejected now store) (DeleteStatus_StaleVersionRejected now reference)"
  unfolding DeleteStatus_GetMissingReturnsNotFound_def DeleteStatus_UpdateStatusSuccessIncrementsVersion_def
    DeleteStatus_StaleVersionRejected_def Let_def
  by (intro scenario_rules)+

lemma agree_ReadStatus:
  "simulates R (=) (ReadStatus_GetMissingReturnsNotFound store) (ReadStatus_GetMissingReturnsNotFound reference)"
  "simulates R (=) (ReadStatus_UpdateMissingReturnsNotFound now store) (ReadStatus_UpdateMissingReturnsNotFound now reference)"
  "simulates R (=) (ReadStatus_UpdateStatusSucceedsWithoutVersionCheck now store) (ReadStatus_UpdateStatusSucceedsWithoutVersionCheck now reference)"
  "simulates R (=) (ReadStatus_RepeatedWritesNeverFail now store) (ReadStatus_RepeatedWritesNeverFail now reference)"
  "simulates R (=) (ReadStatus_DoesNotAdvanceVersion_Apply now store) (ReadStatus_DoesNotAdvanceVersion_Apply now reference)"
  "simulates R (=) (ReadStatus_DoesNotAdvanceVersion_Delete now store) (ReadStatus_DoesNotAdvanceVersion_Delete now reference)"
  "simulates R (=) (ReadStatus_KubeContentMirror now store) (ReadStatus_KubeContentMirror now reference)"
  unfolding ReadStatus_GetMissingReturnsNotFound_def ReadStatus_UpdateMissingReturnsNotFound_def
    ReadStatus_UpdateStatusSucceedsWithoutVersionCheck_def ReadStatus_RepeatedWritesNeverFail_def
    ReadStatus_DoesNotAdvanceVersion_Apply_def ReadStatus_DoesNotAdvanceVersion_Delete_def
    ReadStatus_KubeContentMirror_def Let_def
  by (intro scenario_rules)+

lemmas all_agree = listings_agree agree_Apply agree_Delete agree_Read agree_Mutual agree_Owner agree_Prefix agree_ApplyStatus agree_DeleteStatus agree_ReadStatus

text \<open>Related stores get the same verdict.\<close>

lemma same_verdict:
  assumes "R s t"
  shows "conforms now store s \<longleftrightarrow> conforms now reference t"
  unfolding conforms_def RunSpecStoreSuite_def RunStatusStoreSuite_def
  using all_agree [THEN simulates_verdict, OF assms] by simp

end

end
