(* ===== verification/ConformanceMemory.thy ===== *)
theory ConformanceMemory
  imports Conformance
begin

text \<open>
  The in-memory store under the conformance suite. The two functions of the Kubernetes libraries the
  scenarios depend on are arguments: the DNS checks have to accept the names the scenarios use, and
  \<open>meta.FindStatusCondition\<close> has to find the only condition of a list. The scenarios are run by
  rewriting.
\<close>

section \<open>The store as a value of the interface\<close>

definition memory_store :: "dns_api \<Rightarrow> find_fn \<Rightarrow> Store StatusStore" where
  "memory_store v fnd = \<lparr>
     st_CreateApplyDesire = (\<lambda>d. State (mem_CreateApplyDesire v fnd d)),
     st_GetApplyDesire = (\<lambda>i. State (\<lambda>s. (mem_GetApplyDesire i s, s))),
     st_UpdateApplyDesireSpec = (\<lambda>i sp o1 n. State (mem_UpdateApplyDesireSpec i sp o1 n)),
     st_DeleteApplyDesire = (\<lambda>i o1 n. State (mem_DeleteApplyDesire i o1 n)),
     st_CreateDeleteDesire = (\<lambda>d. State (mem_CreateDeleteDesire v d)),
     st_GetDeleteDesire = (\<lambda>i. State (\<lambda>s. (mem_GetDeleteDesire i s, s))),
     st_DeleteDeleteDesire = (\<lambda>i o1 n. State (mem_DeleteDeleteDesire i o1 n)),
     st_CreateReadDesire = (\<lambda>d. State (mem_CreateReadDesire v d)),
     st_GetReadDesire = (\<lambda>i. State (\<lambda>s. (mem_GetReadDesire i s, s))),
     st_DeleteReadDesire = (\<lambda>i o1 n. State (mem_DeleteReadDesire i o1 n)),
     st_ListApplyDesires = (\<lambda>mc. State (\<lambda>s. (mem_ListApplyDesires mc s, s))),
     st_ListDeleteDesires = (\<lambda>mc. State (\<lambda>s. (mem_ListDeleteDesires mc s, s))),
     st_ListReadDesires = (\<lambda>mc. State (\<lambda>s. (mem_ListReadDesires mc s, s))),
     st_DeleteByPrefix = (\<lambda>mc sel. State (mem_DeleteByPrefix mc sel)),
     st_UpdateApplyDesireStatus = (\<lambda>i st n. State (mem_UpdateApplyDesireStatus i st n)),
     st_UpdateDeleteDesireStatus = (\<lambda>i st n. State (mem_UpdateDeleteDesireStatus i st n)),
     st_UpdateReadDesireStatus = (\<lambda>i st. State (mem_UpdateReadDesireStatus i st))\<rparr>"

definition suite_names :: "string list" where
  "suite_names =
    [''cm-1'', ''cm-2'', ''owner-first'', ''empty-update'', ''status-clear'', ''does-not-exist'', ''cm-4'',
     ''generation-writes'', ''status-preserved-on-update'', ''owner-reject'', ''cm-6'', ''del-1'', ''del-4'',
     ''del-stale'', ''del-owner'', ''read-1'', ''read-4'', ''read-stale'', ''read-owner'', ''res-a'',
     ''res-b'', ''mutual-1'', ''mutual-2'', ''mutual-recreate'', ''mutual-4'', ''mutual-5'',
     ''cross-owner-1'', ''cross-owner-2'', ''cross-owner-rev-1'', ''cross-owner-rev-2'', ''cross-owner-3'',
     ''type-guard'', ''keep'', ''drop'', ''shared'', ''obj-1'', ''obj-2'', ''ver-bump'', ''missing'',
     ''stale-status-after-spec'', ''cm-3'', ''del-2'', ''del-3'', ''read-2'', ''shared-1'', ''shared-2'',
     ''read-3'']"

definition names_ok :: "dns_api \<Rightarrow> bool" where
  "names_ok v \<longleftrightarrow>
     list_all (\<lambda>mc. IsDNS1123Label v mc = []) [''cluster-a'', ''cluster-b'', ''default''] \<and>
     list_all (\<lambda>res. IsDNS1035Label v res = []) [''configmaps'', ''secrets''] \<and>
     list_all (\<lambda>name. IsDNS1123Subdomain v name = []) (''apps'' # suite_names)"

definition finds_conditions :: "find_fn \<Rightarrow> bool" where
  "finds_conditions fnd \<longleftrightarrow> (\<forall>t. fnd [] t = None) \<and> (\<forall>c t. cond_Type c = t \<longrightarrow> fnd [c] t = Some c)"

section \<open>Running a scenario\<close>

lemma sib_identity [simp]: "sibling (identity mc t n) u = identity mc u n"
  by (simp add: sibling_def identity_def)
lemma identity_eq [simp]: "identity a t n = identity b u m \<longleftrightarrow> a = b \<and> t = u \<and> n = m"
  by (auto simp: identity_def)
lemma identity_retype [simp]: "(identity mc t n)\<lparr>DesireTypeOf := u\<rparr> = identity mc u n"
  by (simp add: identity_def)
lemma identity_secret [simp]:
  "sibling ((identity mc t n)\<lparr>Resource := res\<rparr>) u = (identity mc u n)\<lparr>Resource := res\<rparr>"
  "(identity mc t n)\<lparr>Resource := res\<rparr> = (identity mc' u m)\<lparr>Resource := res\<rparr> \<longleftrightarrow> identity mc t n = identity mc' u m"
  "identity mc t n = (identity mc' u m)\<lparr>Resource := ''secrets''\<rparr> \<longleftrightarrow> False"
  "(identity mc' u m)\<lparr>Resource := ''secrets''\<rparr> = identity mc t n \<longleftrightarrow> False"
  by (auto simp: identity_def sibling_def resourceConfigMaps_def)
lemma identity_sel [simp]: "ManagementCluster (identity a t n) = a" "DesireTypeOf (identity a t n) = t"
  "Group (identity a t n) = ''apps''" "Resource (identity a t n) = ''configmaps''" "Namespace (identity a t n) = ''default''"
  "Name (identity a t n) = n"
  by (simp_all add: identity_def resourceConfigMaps_def)
lemma fixture_sel [simp]: "ad_Identity (newApplyDesire i ow c) = i" "ad_Owner (newApplyDesire i ow c) = ow"
  "ad_Spec (newApplyDesire i ow c) = \<lparr>KubeContent = c\<rparr>"
  "dd_Identity (newDeleteDesire i ow) = i" "dd_Owner (newDeleteDesire i ow) = ow"
  "rd_Identity (newReadDesire i ow) = i" "rd_Owner (newReadDesire i ow) = ow"
  "rd_TargetVersion (newReadDesire i ow) = ''v1''"
  by (simp_all add: newApplyDesire_def newDeleteDesire_def newReadDesire_def testTargetVersion_def)

lemma parse_string_plain:
  "32 \<le> (of_char c :: nat) \<Longrightarrow> (of_char c :: nat) < 128 \<Longrightarrow> c \<noteq> CHR 0x22 \<Longrightarrow> c \<noteq> CHR 0x5C \<Longrightarrow>
   parse_string (c # r) = map_option (\<lambda>(x, t). (c # x, t)) (parse_string r)"
  "parse_string (CHR 0x22 # r) = Some ([], r)"
  by (subst parse_string.simps, auto simp: utf8_len_def in_range_def split: option.split)+

lemmas json_eval = json_decode_def skip_ws_def is_space_def parse_string_plain eat_def parse_number_def parse_int_part_def
  parse_frac_def parse_exp_def digits1_def is_digit_def obj_of_def max_depth_def Let_def json_text_def eval_nat_numeral

lemma decoded_small [simp]:
  "json_decode emptyObject = Some (JObject [])"
  "json_decode kubeContentV1 = Some (JObject [(''v'', JNumber ''1'')])"
  "json_decode kubeContentV2 = Some (JObject [(''v'', JNumber ''2'')])"
  "json_decode (json_text ''{QkindQ:QConfigMapQ}'') = Some (JObject [(''kind'', JString ''ConfigMap'')])"
  by (simp_all add: json_eval emptyObject_def kubeContentV1_def kubeContentV2_def)

abbreviation versioned :: "string \<Rightarrow> json" where
  "versioned n \<equiv> JObject [(''meta'', JObject [(''a'', JBool True), (''b'', JArray [JNumber ''1'', JNumber ''2''])]), (''v'', JNumber n)]"

lemma decoded_initial [simp]: "json_decode initialContent = Some (versioned ''1'')"
  by (simp add: json_eval initialContent_def)

lemma decoded_equivalent [simp]: "json_decode equivalentContent = Some (versioned ''1'')"
  by (simp add: json_eval equivalentContent_def)

lemma decoded_changed [simp]: "json_decode changedContent = Some (versioned ''2'')"
  by (simp add: json_eval changedContent_def)

lemma nonempty [simp]: "emptyObject \<noteq> []" "kubeContentV1 \<noteq> []" "kubeContentV2 \<noteq> []" "initialContent \<noteq> []"
  "equivalentContent \<noteq> []" "changedContent \<noteq> []" "json_text ''{QkindQ:QConfigMapQ}'' \<noteq> []"
  by (simp_all add: emptyObject_def kubeContentV1_def kubeContentV2_def initialContent_def equivalentContent_def changedContent_def json_text_def)

lemma content_valid [simp]: "json_decode c = Some v \<Longrightarrow> c \<noteq> [] \<Longrightarrow> ApplySpec_Validate \<lparr>KubeContent = c\<rparr> = None"
  by (simp add: ApplySpec_Validate_def json_Valid_def)
lemma content_empty [simp]: "ApplySpec_Validate \<lparr>KubeContent = []\<rparr> \<noteq> None"
  "ApplySpec_Validate \<lparr>KubeContent = []\<rparr> = Some (ErrorString ''ApplySpec.KubeContent must not be empty'')"
  by (simp_all add: ApplySpec_Validate_def)
lemma content_equal [simp]: "json_decode c = Some v \<Longrightarrow> json_decode d = Some w \<Longrightarrow>
   speccompare_Equal \<lparr>KubeContent = c\<rparr> \<lparr>KubeContent = d\<rparr> \<longleftrightarrow> v = w"
  by (auto simp: speccompare_Equal_def speccompare_decode_def json_Valid_def)

lemma owner_ne [simp]: "ownerA \<noteq> []" "ownerA \<noteq> ''owner-b''" "ownerA \<noteq> ''other-owner''" by (simp_all add: ownerA_def)
lemma validated [simp]:
  assumes "names_ok v" "mc \<in> {''cluster-a'', ''cluster-b''}" "n \<in> set suite_names"
    "t = TypeApply \<or> t = TypeDelete \<or> t = TypeRead"
  shows "Identity_Validate v (identity mc t n) = None"
    "Identity_Validate v ((identity mc t n)\<lparr>Resource := ''secrets''\<rparr>) = None"
  using assms
  by (auto simp: Identity_Validate_def validateDNS1123Label_def validateDNS1123Subdomain_def validateDNS1035Label_def
      names_ok_def list_all_iff)

lemma fixture_deleted [simp]:
  assumes "finds_conditions fnd"
  shows "IsDeleted fnd (with_conditions [condition now reason status]) \<longleftrightarrow> status = ConditionTrue \<and> reason = ReasonDeleted"
    and "\<not> IsDeleted fnd zero_Status"
proof -
  have "cond_Type (condition now reason status) = TypeSuccessful" by (simp add: condition_def)
  with assms have "fnd [condition now reason status] TypeSuccessful = Some (condition now reason status)"
    unfolding finds_conditions_def by blast
  then show "IsDeleted fnd (with_conditions [condition now reason status]) \<longleftrightarrow> status = ConditionTrue \<and> reason = ReasonDeleted"
    by (simp add: IsDeleted_def with_conditions_def) (simp add: condition_def)
  show "\<not> IsDeleted fnd zero_Status"
    using assms by (simp add: IsDeleted_def finds_conditions_def zero_Status_def)
qed

lemma zero_Conditions [simp]: "Conditions zero_Status = []" "rs_KubeContent zero_ReadStatus = []"
  by (simp_all add: zero_Status_def zero_ReadStatus_def)

lemmas mem_ops = mem_CreateApplyDesire_def mem_GetApplyDesire_def mem_UpdateApplyDesireSpec_def mem_DeleteApplyDesire_def
  mem_CreateDeleteDesire_def mem_GetDeleteDesire_def mem_DeleteDeleteDesire_def mem_CreateReadDesire_def mem_GetReadDesire_def
  mem_DeleteReadDesire_def mem_ListApplyDesires_def mem_ListDeleteDesires_def mem_ListReadDesires_def mem_DeleteByPrefix_def
  mem_UpdateApplyDesireStatus_def mem_UpdateDeleteDesireStatus_def mem_UpdateReadDesireStatus_def
  mem_checkTargetOwner_def mem_targetOwner_def AllTypes_def mem_CheckOwner_cases

lemma lookup_New [simp]: "items (mem_New n) = []" by (simp add: mem_New_def)

lemmas run = memory_store_def assertion_defs Let_def mem_ops ApplyDesire_Validate_def DeleteDesire_Validate_def ReadDesire_Validate_def suite_names_def

section \<open>The scenarios\<close>

abbreviation passes :: "dns_api \<Rightarrow> find_fn \<Rightarrow> uint64 \<Rightarrow> (Store StatusStore \<Rightarrow> Store scenario) \<Rightarrow> bool" where
  "passes v fnd n scenario \<equiv> fst (run_state (scenario (memory_store v fnd)) (mem_New n))"

lemma passes_Apply:
  assumes "names_ok v"
  shows "passes v fnd n Apply_CreateGetRoundTrip"
    "passes v fnd n Apply_CreateExistingReturnsAlreadyExists"
    "passes v fnd n Apply_CreateDuplicateDifferentOwnerReturnsOwnerConflict"
    "passes v fnd n Apply_UpdateSpecRejectsEmptyKubeContent"
    "passes v fnd n (Apply_RecreateAfterDeleteClearsStatus now)"
    "passes v fnd n Apply_GetMissingReturnsNotFound"
    "passes v fnd n Apply_UpdateSpecSuccessIncrementsVersion"
    "passes v fnd n (Apply_OnlyChangedSpecAdvancesGeneration now)"
    "passes v fnd n (Apply_UpdateSpecPreservesStatus status)"
    "passes v fnd n Apply_DifferentOwnerRejected"
    "passes v fnd n Apply_DeleteSuccess"
  using assms
  by (simp_all add: run Apply_CreateGetRoundTrip_def Apply_CreateExistingReturnsAlreadyExists_def
      Apply_CreateDuplicateDifferentOwnerReturnsOwnerConflict_def Apply_UpdateSpecRejectsEmptyKubeContent_def
      Apply_RecreateAfterDeleteClearsStatus_def Apply_GetMissingReturnsNotFound_def
      Apply_UpdateSpecSuccessIncrementsVersion_def Apply_OnlyChangedSpecAdvancesGeneration_def
      with_conditions_def Apply_UpdateSpecPreservesStatus_def Apply_DifferentOwnerRejected_def
      Apply_DeleteSuccess_def)

lemma passes_Delete:
  assumes "names_ok v"
  shows "passes v fnd n Delete_CreateGetRoundTrip"
    "passes v fnd n Delete_DeleteSuccess"
    "passes v fnd n Delete_DeleteStaleVersionRejected"
    "passes v fnd n Delete_DeleteForeignOwnerRejected"
  using assms
  by (simp_all add: run Delete_CreateGetRoundTrip_def Delete_DeleteSuccess_def
      Delete_DeleteStaleVersionRejected_def Delete_DeleteForeignOwnerRejected_def)

lemma passes_Read:
  assumes "names_ok v"
  shows "passes v fnd n Read_CreateGetRoundTrip"
    "passes v fnd n Read_DeleteSuccess"
    "passes v fnd n Read_DeleteStaleVersionRejected"
    "passes v fnd n Read_DeleteForeignOwnerRejected"
  using assms
  by (simp_all add: run Read_CreateGetRoundTrip_def Read_DeleteSuccess_def Read_DeleteStaleVersionRejected_def
      Read_DeleteForeignOwnerRejected_def)

lemma passes_Listing:
  assumes "names_ok v"
  shows "passes v fnd n Listing_Apply"
    "passes v fnd n Listing_Delete"
    "passes v fnd n Listing_Read"
  using assms
  by (simp_all add: run put_item_def Listing_Apply_def delete_item_def Listing_Delete_def Listing_Read_def)

lemma passes_Mutual:
  assumes "names_ok v" "finds_conditions fnd"
  shows "passes v fnd n Mutual_ApplyThenDeleteSupersedes"
    "passes v fnd n Mutual_DeleteThenApplyRejected"
    "passes v fnd n (Mutual_ConfirmedDeleteThenApplyRecreates now)"
    "passes v fnd n Mutual_ReadCoexistsWithApply"
    "passes v fnd n Mutual_ReadCoexistsWithDelete"
  using assms
  by (simp_all add: run Mutual_ApplyThenDeleteSupersedes_def Mutual_DeleteThenApplyRejected_def
      Mutual_ConfirmedDeleteThenApplyRecreates_def Mutual_ReadCoexistsWithApply_def
      Mutual_ReadCoexistsWithDelete_def)

lemma passes_Owner:
  assumes "names_ok v"
  shows "passes v fnd n Owner_ReadUnderApplyForeignOwnerRejected"
    "passes v fnd n Owner_DeleteUnderApplyForeignOwnerRejected"
    "passes v fnd n Owner_ApplyUnderReadForeignOwnerRejected"
    "passes v fnd n Owner_ApplyUnderDeleteForeignOwnerRejected"
    "passes v fnd n Owner_MatchingOwnerAcrossTypesAllowed"
    "passes v fnd n Owner_MismatchedTypeAccessorsDoNotTouchApply"
  using assms
  by (simp_all add: run Owner_ReadUnderApplyForeignOwnerRejected_def
      Owner_DeleteUnderApplyForeignOwnerRejected_def Owner_ApplyUnderReadForeignOwnerRejected_def
      Owner_ApplyUnderDeleteForeignOwnerRejected_def Owner_MatchingOwnerAcrossTypesAllowed_def
      Owner_MismatchedTypeAccessorsDoNotTouchApply_def)

lemma passes_Prefix:
  assumes "names_ok v"
  shows "passes v fnd n Prefix_RemovesMatchingApplyOnly"
    "passes v fnd n Prefix_ClearsOneSubStateLeavesOthers"
    "passes v fnd n Prefix_MatchesResourcePrefix"
    "passes v fnd n Prefix_PartialClearLeavesSiblingVersionUntouched"
  using assms
  by (simp_all add: run put_item_def Matches_def HasPrefix_def any_of_def Prefix_RemovesMatchingApplyOnly_def
      Prefix_ClearsOneSubStateLeavesOthers_def delete_item_def Prefix_MatchesResourcePrefix_def
      Prefix_PartialClearLeavesSiblingVersionUntouched_def)

lemma passes_ApplyStatus:
  assumes "names_ok v"
  shows "passes v fnd n ApplyStatus_GetMissingReturnsNotFound"
    "passes v fnd n (ApplyStatus_UpdateStatusSuccessIncrementsVersion now)"
    "passes v fnd n (ApplyStatus_StaleStatusWriteAfterSpecUpdateIsRejected now)"
    "passes v fnd n (ApplyStatus_StatusWriteDoesNotChangeSpec now)"
  using assms
  by (simp_all add: run ApplyStatus_GetMissingReturnsNotFound_def
      ApplyStatus_UpdateStatusSuccessIncrementsVersion_def
      ApplyStatus_StaleStatusWriteAfterSpecUpdateIsRejected_def ApplyStatus_StatusWriteDoesNotChangeSpec_def)

lemma passes_DeleteStatus:
  assumes "names_ok v"
  shows "passes v fnd n DeleteStatus_GetMissingReturnsNotFound"
    "passes v fnd n (DeleteStatus_UpdateStatusSuccessIncrementsVersion now)"
    "passes v fnd n (DeleteStatus_StaleVersionRejected now)"
  using assms
  by (simp_all add: run DeleteStatus_GetMissingReturnsNotFound_def
      DeleteStatus_UpdateStatusSuccessIncrementsVersion_def with_conditions_def condition_def
      DeleteStatus_StaleVersionRejected_def)

lemma passes_ReadStatus:
  assumes "names_ok v"
  shows "passes v fnd n ReadStatus_GetMissingReturnsNotFound"
    "passes v fnd n (ReadStatus_UpdateMissingReturnsNotFound now)"
    "passes v fnd n (ReadStatus_UpdateStatusSucceedsWithoutVersionCheck now)"
    "passes v fnd n (ReadStatus_RepeatedWritesNeverFail now)"
    "passes v fnd n (ReadStatus_DoesNotAdvanceVersion_Apply now)"
    "passes v fnd n (ReadStatus_DoesNotAdvanceVersion_Delete now)"
    "passes v fnd n (ReadStatus_KubeContentMirror now)"
  using assms
  by (simp_all add: run ReadStatus_GetMissingReturnsNotFound_def ReadStatus_UpdateMissingReturnsNotFound_def
      ReadStatus_UpdateStatusSucceedsWithoutVersionCheck_def ReadStatus_RepeatedWritesNeverFail_def
      eval_nat_numeral ReadStatus_DoesNotAdvanceVersion_Apply_def ReadStatus_DoesNotAdvanceVersion_Delete_def
      ReadStatus_KubeContentMirror_def syncedStatus_def new_read_record_def zero_record_def InitialGeneration_def)

text \<open>Every scenario passes on the in-memory store.\<close>

lemma memory_conforms:
  assumes "names_ok v" "finds_conditions fnd"
  shows "conforms now (memory_store v fnd) (mem_New n)"
  using assms unfolding conforms_def RunSpecStoreSuite_def RunStatusStoreSuite_def
  by (simp add: passes_Apply passes_Delete passes_Read passes_Listing passes_Mutual passes_Owner passes_Prefix
      passes_ApplyStatus passes_DeleteStatus passes_ReadStatus)

end
