(* ===== verification/RedisMemory.thy ===== *)
theory RedisMemory
  imports RedisQuiet StoreSimulation ConformanceMemory
begin

text \<open>
  The Redis-backed store on an undisturbed server behaves like the in-memory store: the simulation of
  \<open>StoreSimulation\<close>, proved operation by operation, and with it the conformance of the Redis-backed store.
\<close>

section \<open>The store as a value of the interface\<close>

text \<open>
  The server of the model lists its keys in four pages, so five steps are enough for a scan; running out of
  them would be the error below.
\<close>

definition finished :: "('s, 'a result option) state \<Rightarrow> ('s, 'a result) state" where
  "finished op = do {
     r \<leftarrow> op;
     State_Monad.return (case r of None \<Rightarrow> Inl ErrAborted | Some x \<Rightarrow> x)
   }"

definition redis_backend :: "dns_api \<Rightarrow> find_fn \<Rightarrow> codec \<Rightarrow> server rworld StatusStore" where
  "redis_backend v fnd cd = \<lparr>
     st_CreateApplyDesire = red_CreateApplyDesire v fnd server_client cd,
     st_GetApplyDesire = red_GetApplyDesire server_client cd,
     st_UpdateApplyDesireSpec = red_UpdateApplyDesireSpec server_client cd,
     st_DeleteApplyDesire = red_DeleteApplyDesire server_client cd,
     st_CreateDeleteDesire = red_CreateDeleteDesire v server_client cd,
     st_GetDeleteDesire = red_GetDeleteDesire server_client cd,
     st_DeleteDeleteDesire = red_DeleteDeleteDesire server_client cd,
     st_CreateReadDesire = red_CreateReadDesire v server_client cd,
     st_GetReadDesire = red_GetReadDesire server_client cd,
     st_DeleteReadDesire = red_DeleteReadDesire server_client cd,
     st_ListApplyDesires = (\<lambda>mc. finished (red_ListApplyDesires 5 server_client cd mc)),
     st_ListDeleteDesires = (\<lambda>mc. finished (red_ListDeleteDesires 5 server_client cd mc)),
     st_ListReadDesires = (\<lambda>mc. finished (red_ListReadDesires 5 server_client cd mc)),
     st_DeleteByPrefix = (\<lambda>mc sel. finished (red_DeleteByPrefix 5 server_client cd mc sel)),
     st_UpdateApplyDesireStatus = red_UpdateApplyDesireStatus server_client cd,
     st_UpdateDeleteDesireStatus = red_UpdateDeleteDesireStatus server_client cd,
     st_UpdateReadDesireStatus = red_UpdateReadDesireStatus server_client cd\<rparr>"

section \<open>The relation\<close>

definition undisturbed :: "dns_api \<Rightarrow> codec \<Rightarrow> server rworld \<Rightarrow> Store \<Rightarrow> bool" where
  "undisturbed v cd s m \<longleftrightarrow>
     (\<exists>xs. s = calm [] xs (ownerConflictTotal m) \<and> red_inv v cd all_stable (map_of xs) \<and> mem_inv v m \<and>
        recmap cd (map_of xs) = lookup_item m)"

lemma counter_items [simp]:
  "ownerConflictTotal (put_item i r m) = ownerConflictTotal m" "ownerConflictTotal (delete_item i m) = ownerConflictTotal m"
  by (simp_all add: put_item_def delete_item_def)

lemma undisturbed_New: "undisturbed v cd (calm [] [] n) (mem_New n)"
  using red_inv_empty [of v cd all_stable] mem_inv_New [of v n]
  by (auto simp: undisturbed_def mem_New_def recmap_def fun_eq_iff)

lemma undisturbed_same:
  assumes "red_inv v cd all_stable (map_of xs)" "recmap cd (map_of xs) = lookup_item m" "mem_inv v m" "ownerConflictTotal m = n"
  shows "undisturbed v cd (calm [] xs n) m"
  using assms by (auto simp: undisturbed_def)

lemma undisturbed_put:
  assumes "red_inv v cd all_stable (map_of xs)" "json_Unmarshal cd b = Inr r" "rec_Identity r = i" "mem_inv v m"
    and "(recmap cd (map_of xs))(i \<mapsto> r) = lookup_item m" "ownerConflictTotal m = n"
  shows "undisturbed v cd (calm [] (committed [SetCmd (redisKey i) b] xs) n) m"
proof -
  have "wf_map v ((recmap cd (map_of xs))(i \<mapsto> r))" using assms(4,5) by (simp add: mem_inv_def)
  then have "red_inv v cd all_stable ((map_of xs)(redisKey i \<mapsto> b))" using assms(1-3) by (intro red_inv_set) simp_all
  then show ?thesis using assms by (auto simp: undisturbed_def map_of_committed)
qed

lemma undisturbed_del:
  assumes "red_inv v cd all_stable (map_of xs)" "mem_inv v m" "(recmap cd (map_of xs))(i := None) = lookup_item m"
    "ownerConflictTotal m = n"
  shows "undisturbed v cd (calm [] (committed [DelCmd (redisKey i)] xs) n) m"
  using assms red_inv_del [OF assms(1), of i] by (auto simp: undisturbed_def map_of_committed)

lemma removed_keys:
  assumes "red_inv v cd all_stable m"
  shows "red_inv v cd all_stable (apply_cmds (map (DelCmd \<circ> redisKey) js) m)"
    and "recmap cd (apply_cmds (map (DelCmd \<circ> redisKey) js) m) = fold (\<lambda>j q. q(j := None)) js (recmap cd m)"
proof -
  have "red_inv v cd all_stable (apply_cmds (map (DelCmd \<circ> redisKey) js) m) \<and>
      recmap cd (apply_cmds (map (DelCmd \<circ> redisKey) js) m) = fold (\<lambda>j q. q(j := None)) js (recmap cd m)"
    using assms by (induction js arbitrary: m) (simp_all add: red_inv_del)
  then show "red_inv v cd all_stable (apply_cmds (map (DelCmd \<circ> redisKey) js) m)"
    and "recmap cd (apply_cmds (map (DelCmd \<circ> redisKey) js) m) = fold (\<lambda>j q. q(j := None)) js (recmap cd m)" by auto
qed

lemma set_then_remove:
  "i \<notin> set js \<Longrightarrow> apply_cmds (map (DelCmd \<circ> redisKey) js) (m(redisKey i \<mapsto> b)) =
     (apply_cmds (map (DelCmd \<circ> redisKey) js) m)(redisKey i \<mapsto> b)"
  by (induction js arbitrary: m) (simp_all add: fun_upd_twist)

lemma undisturbed_create:
  assumes ri: "red_inv v cd all_stable (map_of xs)" and b: "json_Unmarshal cd b = Inr r" "rec_Identity r = i"
    and m: "mem_inv v m" "lookup_item m = (fold (\<lambda>j q. q(j := None)) js (recmap cd (map_of xs)))(i \<mapsto> r)"
    and "i \<notin> set js" "ownerConflictTotal m = n"
  shows "undisturbed v cd (calm [] (committed (SetCmd (redisKey i) b # map (DelCmd \<circ> redisKey) js) xs) n) m"
proof -
  let ?db = "apply_cmds (map (DelCmd \<circ> redisKey) js) (map_of xs)"
  have "wf_map v ((recmap cd ?db)(i \<mapsto> r))" using m removed_keys(2) [OF ri] by (simp add: mem_inv_def)
  then have "red_inv v cd all_stable (?db(redisKey i \<mapsto> b))" using removed_keys(1) [OF ri] b by (intro red_inv_set) simp_all
  then show ?thesis
    using assms removed_keys(2) [OF ri] unfolding undisturbed_def
    by (intro exI [of _ "committed (SetCmd (redisKey i) b # map (DelCmd \<circ> redisKey) js) xs"])
      (simp add: map_of_committed set_then_remove)
qed

lemma simulates_memory:
  assumes "\<And>m xs. mem_inv v m \<Longrightarrow> red_inv v cd all_stable (map_of xs) \<Longrightarrow> recmap cd (map_of xs) = lookup_item m \<Longrightarrow>
     wp op (\<lambda>x s'. E x (fst (memop m)) \<and> undisturbed v cd s' (snd (memop m))) (calm [] xs (ownerConflictTotal m))"
  shows "simulates (undisturbed v cd) E op (State memop)"
  unfolding simulates_def undisturbed_def [of v cd]
  using assms unfolding undisturbed_def [of v cd] by (auto simp: wp_State split_beta)

section \<open>The three kinds of transactions\<close>

text \<open>
  What a callback has to decide for its operation to agree with an operation of the in-memory store that
  ends with the result and the state \<open>out\<close>.
\<close>

definition mutate_agrees ::
  "(resourceRecord \<Rightarrow> bool \<Rightarrow> (server rworld, resourceRecord result) state) \<Rightarrow> Identity \<Rightarrow>
   (resourceRecord \<Rightarrow> 'd) \<Rightarrow> Store \<Rightarrow> 'd result \<times> Store \<Rightarrow> bool" where
  "mutate_agrees mutate i proj m out \<longleftrightarrow> (\<forall>xs. \<exists>r n'.
     decides xs (ownerConflictTotal m) (mutate (record_of (lookup_item m i)) (lookup_item m i \<noteq> None)) r n' \<and>
     (case r of
        Inl e \<Rightarrow> store_error e \<and> out = (Inl e, m\<lparr>ownerConflictTotal := n'\<rparr>)
      | Inr x \<Rightarrow> rec_Identity x = i \<and> out = (Inr (proj x), put_item i x (m\<lparr>ownerConflictTotal := n'\<rparr>))))"

definition delete_agrees ::
  "(resourceRecord \<Rightarrow> bool \<Rightarrow> (server rworld, goerror option) state) \<Rightarrow> Identity \<Rightarrow>
   Store \<Rightarrow> unit result \<times> Store \<Rightarrow> bool" where
  "delete_agrees precheck i m out \<longleftrightarrow> (\<forall>xs. \<exists>r n'.
     decides xs (ownerConflictTotal m) (do {
       p \<leftarrow> precheck (record_of (lookup_item m i)) (lookup_item m i \<noteq> None);
       State_Monad.return (case p of Some e \<Rightarrow> Inl e | None \<Rightarrow> Inr ())
     }) r n' \<and>
     (case r of
        Inl e \<Rightarrow> store_error e \<and> out = (Inl e, m\<lparr>ownerConflictTotal := n'\<rparr>)
      | Inr x \<Rightarrow> out = (Inr (), delete_item i (m\<lparr>ownerConflictTotal := n'\<rparr>))))"

definition siblings_in :: "Store \<Rightarrow> Identity \<Rightarrow> targetSiblings" where
  "siblings_in m i = (\<lambda>t. if t \<in> set AllTypes then lookup_item m (sibling i t) else None)"

text \<open>A creation may also remove the record of a superseded sibling.\<close>

definition create_agrees ::
  "(targetSiblings \<Rightarrow> (server rworld, (resourceRecord \<times> string list) result) state) \<Rightarrow> Identity \<Rightarrow>
   (resourceRecord \<Rightarrow> 'd) \<Rightarrow> Store \<Rightarrow> 'd result \<times> Store \<Rightarrow> bool" where
  "create_agrees build i proj m out \<longleftrightarrow> (\<forall>xs. \<exists>r n'.
     decides xs (ownerConflictTotal m) (build (siblings_in m i)) r n' \<and>
     (case r of
        Inl e \<Rightarrow> store_error e \<and> out = (Inl e, m\<lparr>ownerConflictTotal := n'\<rparr>)
      | Inr (x, ks) \<Rightarrow> rec_Identity x = i \<and> fst out = Inr (proj x) \<and> ownerConflictTotal (snd out) = n' \<and>
          (\<exists>js. ks = map redisKey js \<and> i \<notin> set js \<and>
             lookup_item (snd out) = (fold (\<lambda>j q. q(j := None)) js (lookup_item m))(i \<mapsto> x))))"

lemma simulate_mutate:
  assumes cd: "lossless cd" and inv: "\<And>m. mem_inv v m \<Longrightarrow> mem_inv v (snd (memop m))" and f: "\<And>x. f (Some x) = proj x"
    and agrees: "\<And>m. mem_inv v m \<Longrightarrow> mutate_agrees mutate i proj m (memop m)"
  shows "simulates (undisturbed v cd) (=) (do {
      r \<leftarrow> casMutate server_client cd (redisKey i) mutate;
      State_Monad.return (map_result f r)
    }) (State memop)"
proof (rule simulates_memory, unfold wp_bind)
  fix m xs
  assume mi: "mem_inv v m" and ri: "red_inv v cd all_stable (map_of xs)" and eq: "recmap cd (map_of xs) = lookup_item m"
  from agrees [OF mi] obtain r n' where
    d: "decides xs (ownerConflictTotal m) (mutate (record_of (lookup_item m i)) (lookup_item m i \<noteq> None)) r n'"
    and r: "case r of
         Inl e \<Rightarrow> store_error e \<and> memop m = (Inl e, m\<lparr>ownerConflictTotal := n'\<rparr>)
       | Inr x \<Rightarrow> rec_Identity x = i \<and> memop m = (Inr (proj x), put_item i x (m\<lparr>ownerConflictTotal := n'\<rparr>))"
    unfolding mutate_agrees_def by blast
  show "wp (casMutate server_client cd (redisKey i) mutate)
      (\<lambda>a. wp (State_Monad.return (map_result f a)) (\<lambda>x s'. x = fst (memop m) \<and> undisturbed v cd s' (snd (memop m))))
      (calm [] xs (ownerConflictTotal m))"
    using r inv [OF mi] f mi
    by (intro calm_casMutate [where mutate = mutate and i = i, OF ri cd d [folded eq]])
      (auto simp: wp_return map_result_def eq intro!: undisturbed_same [OF ri] undisturbed_put [OF ri])
qed

lemma simulate_delete:
  assumes inv: "\<And>m. mem_inv v m \<Longrightarrow> mem_inv v (snd (memop m))"
    and agrees: "\<And>m. mem_inv v m \<Longrightarrow> delete_agrees precheck i m (memop m)"
  shows "simulates (undisturbed v cd) (=) (casDelete server_client cd (redisKey i) precheck) (State memop)"
proof (rule simulates_memory)
  fix m xs
  assume mi: "mem_inv v m" and ri: "red_inv v cd all_stable (map_of xs)" and eq: "recmap cd (map_of xs) = lookup_item m"
  from agrees [OF mi] obtain r n' where
    d: "decides xs (ownerConflictTotal m) (do {
          p \<leftarrow> precheck (record_of (lookup_item m i)) (lookup_item m i \<noteq> None);
          State_Monad.return (case p of Some e \<Rightarrow> Inl e | None \<Rightarrow> Inr ())
        }) r n'"
    and r: "case r of
         Inl e \<Rightarrow> store_error e \<and> memop m = (Inl e, m\<lparr>ownerConflictTotal := n'\<rparr>)
       | Inr x \<Rightarrow> memop m = (Inr (), delete_item i (m\<lparr>ownerConflictTotal := n'\<rparr>))"
    unfolding delete_agrees_def by blast
  show "wp (casDelete server_client cd (redisKey i) precheck)
      (\<lambda>x s'. x = fst (memop m) \<and> undisturbed v cd s' (snd (memop m))) (calm [] xs (ownerConflictTotal m))"
    using r inv [OF mi] mi
    by (intro calm_casDelete [where precheck = precheck and i = i, OF ri d [folded eq]])
      (auto simp: eq intro!: undisturbed_same [OF ri] undisturbed_del [OF ri])
qed

lemma simulate_create:
  assumes cd: "lossless cd" and inv: "\<And>m. mem_inv v m \<Longrightarrow> mem_inv v (snd (memop m))" and f: "\<And>x. f (Some x) = proj x"
    and agrees: "\<And>m. mem_inv v m \<Longrightarrow> create_agrees build i proj m (memop m)"
  shows "simulates (undisturbed v cd) (=) (do {
      r \<leftarrow> casCreate server_client cd i build;
      State_Monad.return (map_result f r)
    }) (State memop)"
proof (rule simulates_memory, unfold wp_bind)
  fix m xs
  assume mi: "mem_inv v m" and ri: "red_inv v cd all_stable (map_of xs)" and eq: "recmap cd (map_of xs) = lookup_item m"
  have sibs: "sibs_of cd i (map_of xs) = siblings_in m i"
    unfolding sibs_of_def siblings_in_def eq ..
  from agrees [OF mi] obtain r n' where
    d: "decides xs (ownerConflictTotal m) (build (sibs_of cd i (map_of xs))) r n'"
    and r: "case r of
         Inl e \<Rightarrow> store_error e \<and> memop m = (Inl e, m\<lparr>ownerConflictTotal := n'\<rparr>)
       | Inr (x, ks) \<Rightarrow> rec_Identity x = i \<and> fst (memop m) = Inr (proj x) \<and> ownerConflictTotal (snd (memop m)) = n' \<and>
           (\<exists>js. ks = map redisKey js \<and> i \<notin> set js \<and>
              lookup_item (snd (memop m)) = (fold (\<lambda>j q. q(j := None)) js (lookup_item m))(i \<mapsto> x))"
    unfolding create_agrees_def sibs by blast
  show "wp (casCreate server_client cd i build)
      (\<lambda>a. wp (State_Monad.return (map_result f a)) (\<lambda>x s'. x = fst (memop m) \<and> undisturbed v cd s' (snd (memop m))))
      (calm [] xs (ownerConflictTotal m))"
    using r inv [OF mi] f mi
    by (intro calm_casCreate [where build = build and i = i, OF ri cd d])
      (auto simp: wp_return map_result_def eq intro!: undisturbed_same [OF ri] undisturbed_create [OF ri])
qed

section \<open>The operations\<close>

lemma run_checkTargetOwner:
  "run_state (red_checkTargetOwner attempted sibs) (calm ws xs n) =
     (case first_owner sibs AllTypes of
        None \<Rightarrow> (None, calm ws xs n)
      | Some owner \<Rightarrow> (checked_owner owner attempted, calm ws xs (counted owner attempted n)))"
  by (simp add: red_checkTargetOwner_def run_red_CheckOwner split: option.split)

lemma siblings_in_simps [simp]:
  "siblings_in m i TypeApply = lookup_item m (sibling i TypeApply)"
  "siblings_in m i TypeDelete = lookup_item m (sibling i TypeDelete)"
  "siblings_in m i TypeRead = lookup_item m (sibling i TypeRead)"
  "first_owner (siblings_in m i) AllTypes = mem_targetOwner i m"
  by (simp_all add: siblings_in_def mem_targetOwner_def AllTypes_def split: option.split)

lemma simulate_return: "simulates R (=) (State_Monad.return x) (State (\<lambda>m. (x, m)))"
  by (simp add: simulates_def wp_return wp_State)

lemma own_sibling: "DesireTypeOf i = t \<Longrightarrow> sibling i t = i"
  by auto

lemmas decided = own_sibling decides_def run_bind run_checkTargetOwner run_red_CheckOwner checked_owner_def counted_def
  mem_checkTargetOwner_def mem_CheckOwner_counted Let_def

lemma one_key: "P [j] \<Longrightarrow> \<exists>js. [redisKey j] = map redisKey js \<and> P js"
  by (rule exI [of _ "[j]"]) simp

lemma sibling_record: "mem_inv v m \<Longrightarrow> lookup_item m j = Some r \<Longrightarrow> rec_Identity r = j"
  using mem_inv_record_ok [of v m j r] by (simp add: record_ok_def)

lemma create_apply_agrees:
  assumes inv: "mem_inv v m" and val: "ApplyDesire_Validate v d = None"
  shows "create_agrees (build_apply fnd d) (ad_Identity d) projectApplyDesire m (mem_CreateApplyDesire v fnd d m)"
proof -
  note t = ApplyDesire_Validate_type [OF val]
  have "lookup_item m (ad_Identity d) = Some r \<Longrightarrow> lookup_item m (sibling (ad_Identity d) TypeDelete) = None" for r
    using inv wf_apply_excl [OF _ t] by (auto simp: mem_inv_def simp del: map_of_eq_Some_iff)
  then show ?thesis
    using val t sibling_record [OF inv, of "sibling (ad_Identity d) TypeDelete"]
    by (cases "mem_targetOwner (ad_Identity d) m"; cases "lookup_item m (ad_Identity d)";
        cases "lookup_item m (sibling (ad_Identity d) TypeDelete)")
      (auto simp: create_agrees_def build_apply_def decided mem_CreateApplyDesire_def simp del: map_of_eq_Some_iff intro!: one_key)
qed

lemma create_delete_agrees:
  assumes inv: "mem_inv v m" and val: "DeleteDesire_Validate v d = None"
  shows "create_agrees (build_delete d) (dd_Identity d) projectDeleteDesire m (mem_CreateDeleteDesire v d m)"
proof -
  note t = DeleteDesire_Validate_type [OF val]
  show ?thesis
    using val t sibling_record [OF inv, of "sibling (dd_Identity d) TypeApply"]
    by (cases "mem_targetOwner (dd_Identity d) m"; cases "lookup_item m (dd_Identity d)";
        cases "lookup_item m (sibling (dd_Identity d) TypeApply)")
      (auto simp: create_agrees_def build_delete_def decided mem_CreateDeleteDesire_def simp del: map_of_eq_Some_iff intro!: one_key)
qed

lemma create_read_agrees:
  assumes val: "ReadDesire_Validate v d = None"
  shows "create_agrees (build_read d) (rd_Identity d) projectReadDesire m (mem_CreateReadDesire v d m)"
  using val ReadDesire_Validate_type [OF val]
  by (cases "mem_targetOwner (rd_Identity d) m"; cases "lookup_item m (rd_Identity d)")
    (auto simp: create_agrees_def build_read_def decided mem_CreateReadDesire_def simp del: map_of_eq_Some_iff)

lemma simulate_creates:
  assumes "lossless cd"
  shows "simulates (undisturbed v cd) (=) (red_CreateApplyDesire v fnd server_client cd a) (State (mem_CreateApplyDesire v fnd a))"
    and "simulates (undisturbed v cd) (=) (red_CreateDeleteDesire v server_client cd d) (State (mem_CreateDeleteDesire v d))"
    and "simulates (undisturbed v cd) (=) (red_CreateReadDesire v server_client cd g) (State (mem_CreateReadDesire v g))"
proof -
  note create = simulate_create [OF assms]
  show "simulates (undisturbed v cd) (=) (red_CreateApplyDesire v fnd server_client cd a) (State (mem_CreateApplyDesire v fnd a))"
  proof (cases "ApplyDesire_Validate v a")
    case None
    then show ?thesis
      using create [OF mem_inv_create_apply _ create_apply_agrees [OF _ None], where f = red_projectApply]
      by (simp add: red_CreateApplyDesire_def red_projectApply_def)
  qed (simp add: red_CreateApplyDesire_def mem_CreateApplyDesire_def [abs_def] simulate_return)
  show "simulates (undisturbed v cd) (=) (red_CreateDeleteDesire v server_client cd d) (State (mem_CreateDeleteDesire v d))"
  proof (cases "DeleteDesire_Validate v d")
    case None
    then show ?thesis
      using create [OF mem_inv_create_delete _ create_delete_agrees [OF _ None], where f = red_projectDelete]
      by (simp add: red_CreateDeleteDesire_def red_projectDelete_def)
  qed (simp add: red_CreateDeleteDesire_def mem_CreateDeleteDesire_def [abs_def] simulate_return)
  show "simulates (undisturbed v cd) (=) (red_CreateReadDesire v server_client cd g) (State (mem_CreateReadDesire v g))"
  proof (cases "ReadDesire_Validate v g")
    case None
    then show ?thesis
      using create [OF mem_inv_create_read _ create_read_agrees [OF None], where f = red_projectRead]
      by (simp add: red_CreateReadDesire_def red_projectRead_def)
  qed (simp add: red_CreateReadDesire_def mem_CreateReadDesire_def [abs_def] simulate_return)
qed

lemma no_apply_record:
  "mem_inv v m \<Longrightarrow> lookup_item m i = Some r \<Longrightarrow> rec_Apply r = None \<longleftrightarrow> DesireTypeOf i \<noteq> TypeApply"
  using mem_inv_record_ok [of v m i r] by (auto simp: record_ok_def split: option.splits)

lemma mutations_agree:
  assumes inv: "mem_inv v m"
  shows "DesireTypeOf i = TypeApply \<Longrightarrow> ApplySpec_Validate spec = None \<Longrightarrow>
      mutate_agrees (mutate_spec i spec owner n) i projectApplyDesire m (mem_UpdateApplyDesireSpec i spec owner n m)"
    and "mutate_agrees (mutate_apply_status st n) i projectApplyDesire m (mem_UpdateApplyDesireStatus i st n m)"
    and "DesireTypeOf i = TypeDelete \<Longrightarrow>
      mutate_agrees (mutate_delete_status st n) i projectDeleteDesire m (mem_UpdateDeleteDesireStatus i st n m)"
    and "DesireTypeOf i = TypeRead \<Longrightarrow>
      mutate_agrees (mutate_read_status rst) i projectReadDesire m (mem_UpdateReadDesireStatus i rst m)"
  using no_apply_record [OF inv, of i] sibling_record [OF inv, of i]
  by (cases "lookup_item m i"; auto simp: mutate_agrees_def decided mutate_spec_def mutate_apply_status_def
      mutate_delete_status_def mutate_read_status_def mem_UpdateApplyDesireSpec_def mem_UpdateApplyDesireStatus_def
      mem_UpdateDeleteDesireStatus_def mem_UpdateReadDesireStatus_def zero_record_def simp del: map_of_eq_Some_iff
      split: option.split)+

lemma simulate_updates:
  assumes "lossless cd"
  shows "DesireTypeOf i = TypeApply \<Longrightarrow> simulates (undisturbed v cd) (=)
      (red_UpdateApplyDesireSpec server_client cd i spec owner n) (State (mem_UpdateApplyDesireSpec i spec owner n))"
    and "simulates (undisturbed v cd) (=)
      (red_UpdateApplyDesireStatus server_client cd i st n) (State (mem_UpdateApplyDesireStatus i st n))"
    and "simulates (undisturbed v cd) (=)
      (red_UpdateDeleteDesireStatus server_client cd i st n) (State (mem_UpdateDeleteDesireStatus i st n))"
    and "simulates (undisturbed v cd) (=)
      (red_UpdateReadDesireStatus server_client cd i rst) (State (mem_UpdateReadDesireStatus i rst))"
proof -
  note mutate = simulate_mutate [OF assms]
  show "simulates (undisturbed v cd) (=)
      (red_UpdateApplyDesireSpec server_client cd i spec owner n) (State (mem_UpdateApplyDesireSpec i spec owner n))"
    if t: "DesireTypeOf i = TypeApply"
  proof (cases "ApplySpec_Validate spec")
    case None
    then show ?thesis using mutate [OF mem_inv_update_spec _ mutations_agree(1) [OF _ t None], where f = red_projectApply]
      by (simp add: red_UpdateApplyDesireSpec_def red_projectApply_def)
  qed (simp add: red_UpdateApplyDesireSpec_def mem_UpdateApplyDesireSpec_def [abs_def] t simulate_return)
  show "simulates (undisturbed v cd) (=)
      (red_UpdateApplyDesireStatus server_client cd i st n) (State (mem_UpdateApplyDesireStatus i st n))"
    using mutate [OF mem_inv_status(1) _ mutations_agree(2), where f = red_projectApply]
    by (simp add: red_UpdateApplyDesireStatus_def red_projectApply_def)
  show "simulates (undisturbed v cd) (=)
      (red_UpdateDeleteDesireStatus server_client cd i st n) (State (mem_UpdateDeleteDesireStatus i st n))"
  proof (cases "DesireTypeOf i = TypeDelete")
    case True
    then show ?thesis using mutate [OF mem_inv_status(2) _ mutations_agree(3) [OF _ True], where f = red_projectDelete]
      by (simp add: red_UpdateDeleteDesireStatus_def red_projectDelete_def)
  qed (simp add: red_UpdateDeleteDesireStatus_def mem_UpdateDeleteDesireStatus_def [abs_def] simulate_return)
  show "simulates (undisturbed v cd) (=)
      (red_UpdateReadDesireStatus server_client cd i rst) (State (mem_UpdateReadDesireStatus i rst))"
  proof (cases "DesireTypeOf i = TypeRead")
    case True
    then show ?thesis using mutate [OF mem_inv_status(3) _ mutations_agree(4) [OF _ True], where f = red_projectRead]
      by (simp add: red_UpdateReadDesireStatus_def red_projectRead_def)
  qed (simp add: red_UpdateReadDesireStatus_def mem_UpdateReadDesireStatus_def [abs_def] simulate_return)
qed

lemma deletions_agree:
  assumes inv: "mem_inv v m"
  shows "delete_agrees (\<lambda>r exists. precheck_delete ''apply'' i owner n r (exists \<and> rec_Apply r \<noteq> None)) i m
      (mem_DeleteApplyDesire i owner n m)"
    and "DesireTypeOf i = TypeDelete \<Longrightarrow>
      delete_agrees (precheck_delete ''delete'' i owner n) i m (mem_DeleteDeleteDesire i owner n m)"
    and "DesireTypeOf i = TypeRead \<Longrightarrow>
      delete_agrees (precheck_delete ''read'' i owner n) i m (mem_DeleteReadDesire i owner n m)"
  using no_apply_record [OF inv, of i]
  by (cases "lookup_item m i"; auto simp: delete_agrees_def decided precheck_delete_def mem_DeleteApplyDesire_def
      mem_DeleteDeleteDesire_def mem_DeleteReadDesire_def zero_record_def simp del: map_of_eq_Some_iff)+

lemma simulate_deletes:
  "simulates (undisturbed v cd) (=) (red_DeleteApplyDesire server_client cd i owner n) (State (mem_DeleteApplyDesire i owner n))"
  "simulates (undisturbed v cd) (=) (red_DeleteDeleteDesire server_client cd i owner n) (State (mem_DeleteDeleteDesire i owner n))"
  "simulates (undisturbed v cd) (=) (red_DeleteReadDesire server_client cd i owner n) (State (mem_DeleteReadDesire i owner n))"
proof -
  show "simulates (undisturbed v cd) (=) (red_DeleteApplyDesire server_client cd i owner n) (State (mem_DeleteApplyDesire i owner n))"
    unfolding red_DeleteApplyDesire_def by (rule simulate_delete [OF mem_inv_delete(1) deletions_agree(1)])
  show "simulates (undisturbed v cd) (=) (red_DeleteDeleteDesire server_client cd i owner n) (State (mem_DeleteDeleteDesire i owner n))"
    by (cases "DesireTypeOf i = TypeDelete")
      (simp_all add: red_DeleteDeleteDesire_def simulate_delete [OF mem_inv_delete(2) deletions_agree(2)],
        simp add: mem_DeleteDeleteDesire_def [abs_def] simulate_return)
  show "simulates (undisturbed v cd) (=) (red_DeleteReadDesire server_client cd i owner n) (State (mem_DeleteReadDesire i owner n))"
    by (cases "DesireTypeOf i = TypeRead")
      (simp_all add: red_DeleteReadDesire_def simulate_delete [OF mem_inv_delete(3) deletions_agree(3)],
        simp add: mem_DeleteReadDesire_def [abs_def] simulate_return)
qed

lemma simulate_gets:
  "simulates (undisturbed v cd) (=) (red_GetApplyDesire server_client cd i) (State (\<lambda>m. (mem_GetApplyDesire i m, m)))"
  "simulates (undisturbed v cd) (=) (red_GetDeleteDesire server_client cd i) (State (\<lambda>m. (mem_GetDeleteDesire i m, m)))"
  "simulates (undisturbed v cd) (=) (red_GetReadDesire server_client cd i) (State (\<lambda>m. (mem_GetReadDesire i m, m)))"
  by (rule simulates_memory;
      auto simp: red_GetApplyDesire_def red_GetDeleteDesire_def red_GetReadDesire_def mem_GetApplyDesire_def mem_GetDeleteDesire_def
        mem_GetReadDesire_def wp_bind wp_return calm_load map_result_def no_apply_record simp del: map_of_eq_Some_iff
        split: option.split intro!: undisturbed_same)+

section \<open>Reading and clearing a management cluster\<close>

definition cluster_records :: "codec \<Rightarrow> string \<Rightarrow> (string \<times> bytes) list \<Rightarrow> (string \<times> resourceRecord) list" where
  "cluster_records cd mc xs = map (\<lambda>k. (k, found_at cd xs k)) (pages (mcScanPrefix mc @ ''*'') xs)"

lemma pages_cluster:
  "k \<in> set (pages (mcScanPrefix mc @ ''*'') xs) \<longleftrightarrow> k \<in> fst ` set xs \<and> prefix (mcScanPrefix mc) k"
  by (auto simp: pages_set srv_glob_def butlast_append)

lemma cluster_prefix: "prefix (mcScanPrefix mc) k \<Longrightarrow> prefix keyPrefix k"
  unfolding mcScanPrefix_plain by (metis append_prefixD)

lemma calm_cluster:
  assumes "red_inv v cd all_stable (map_of xs)"
  shows "wp (loadClusterRecords 5 server_client cd mc) Q (calm ws xs n) =
    Q (Some (Inr (cluster_records cd mc xs))) (calm ws xs n)"
proof -
  have "decode_values cd (zip (pages (mcScanPrefix mc @ ''*'') xs) (map (value_at (map_of xs)) (pages (mcScanPrefix mc @ ''*'') xs))) =
      Inr (cluster_records cd mc xs)"
    unfolding cluster_records_def using pages_cluster cluster_prefix by (intro decode_found [OF assms]) blast
  then show ?thesis
    by (simp add: loadClusterRecords_def wp_bind calm_scan calm_mget wp_return) (auto simp: cluster_records_def wp_return)
qed

lemma cluster_records_found:
  assumes "red_inv v cd all_stable (map_of xs)" "(k, r) \<in> set (cluster_records cd mc xs)"
  shows "k = redisKey (rec_Identity r)" "recmap cd (map_of xs) (rec_Identity r) = Some r" "ManagementCluster (rec_Identity r) = mc"
proof -
  have k: "k \<in> fst ` set xs" "prefix (mcScanPrefix mc) k" "r = found_at cd xs k"
    using assms(2) by (auto simp: cluster_records_def pages_cluster)
  then show r: "k = redisKey (rec_Identity r)" "recmap cd (map_of xs) (rec_Identity r) = Some r"
    using found_key [OF assms(1) k(1) cluster_prefix [OF k(2)]] by auto
  show "ManagementCluster (rec_Identity r) = mc" using k(2) unfolding r(1) by (simp add: redisKey_prefix)
qed

lemma cluster_records_complete:
  assumes "red_inv v cd all_stable (map_of xs)" "recmap cd (map_of xs) i = Some r" "ManagementCluster i = mc"
  shows "(redisKey i, r) \<in> set (cluster_records cd mc xs)"
proof -
  obtain b where b: "map_of xs (redisKey i) = Some b" using recmap_present [of cd "map_of xs" i] assms(2) by auto
  then have "found_at cd xs (redisKey i) = r" using assms(2) by (simp add: found_at_def recmap_def split: sum.splits)
  moreover have "redisKey i \<in> set (pages (mcScanPrefix mc @ ''*'') xs)"
    using b assms(3) unfolding pages_cluster by (metis dom_map_of_conv_image_fst domI redisKey_prefix)
  ultimately show ?thesis by (auto simp: cluster_records_def)
qed

lemma cluster_records_distinct:
  assumes "red_inv v cd all_stable (map_of xs)"
  shows "distinct (map (\<lambda>(k, r). rec_Identity r) (cluster_records cd mc xs))"
proof -
  have "distinct (map fst (cluster_records cd mc xs))" by (simp add: cluster_records_def comp_def pages_set)
  moreover have "map fst (cluster_records cd mc xs) = map redisKey (map (\<lambda>(k, r). rec_Identity r) (cluster_records cd mc xs))"
    using cluster_records_found(1) [OF assms] by auto
  ultimately show ?thesis by (metis distinct_map)
qed

text \<open>A listing of one type has the same desires as that of the in-memory store.\<close>

lemma listing_agrees:
  assumes ri: "red_inv v cd all_stable (map_of xs)" and mi: "mem_inv v m" and eq: "recmap cd (map_of xs) = lookup_item m"
  shows "mset (list_type t project (cluster_records cd mc xs)) =
    mset (map (\<lambda>(i, r). project r) (filter (\<lambda>(i, r). ManagementCluster i = mc \<and> DesireTypeOf i = t) (items m)))"
proof -
  let ?A = "filter (\<lambda>(k, r). DesireTypeOf (rec_Identity r) = t) (cluster_records cd mc xs)"
  let ?B = "filter (\<lambda>(i, r). ManagementCluster i = mc \<and> DesireTypeOf i = t) (items m)"
  have items: "(i, r) \<in> set (items m) \<longleftrightarrow> lookup_item m i = Some r" for i r
    using mi by (simp add: mem_inv_def)
  have "distinct (map (\<lambda>(k, r). rec_Identity r) ?A)" by (rule distinct_map_filter [OF cluster_records_distinct [OF ri]])
  moreover have "map (\<lambda>(k, r). rec_Identity r) ?A = map rec_Identity (map snd ?A)" by auto
  ultimately have A: "distinct (map snd ?A)" by (simp only: distinct_map)
  have "distinct (map fst ?B)" using mi by (simp add: mem_inv_def distinct_map_filter)
  moreover have "map fst ?B = map rec_Identity (map snd ?B)"
    using sibling_record [OF mi] items by (simp add: split_beta) (metis prod.collapse)
  ultimately have B: "distinct (map snd ?B)" by (simp only: distinct_map)
  have "r \<in> set (map snd ?A) \<longleftrightarrow> r \<in> set (map snd ?B)" for r
  proof
    assume "r \<in> set (map snd ?A)"
    then obtain k where "(k, r) \<in> set (cluster_records cd mc xs)" "DesireTypeOf (rec_Identity r) = t" by auto
    then have "(rec_Identity r, r) \<in> set ?B"
      using cluster_records_found [OF ri] by (auto simp: items eq simp del: map_of_eq_Some_iff)
    then show "r \<in> set (map snd ?B)" by force
  next
    assume "r \<in> set (map snd ?B)"
    then obtain i where i: "lookup_item m i = Some r" "ManagementCluster i = mc" "DesireTypeOf i = t"
      by (auto simp: items simp del: map_of_eq_Some_iff)
    then have "(redisKey i, r) \<in> set ?A"
      using cluster_records_complete [OF ri _ i(2), of r] sibling_record [OF mi i(1)] by (auto simp: eq simp del: map_of_eq_Some_iff)
    then show "r \<in> set (map snd ?A)" by force
  qed
  then have "set (map snd ?A) = set (map snd ?B)" by blast
  then have "mset (map snd ?A) = mset (map snd ?B)" using set_eq_iff_mset_eq_distinct [OF A B] by blast
  then have "mset (map project (map snd ?A)) = mset (map project (map snd ?B))" by (simp only: mset_map)
  then show ?thesis by (simp add: list_type_def case_prod_unfold comp_def)
qed

lemma simulate_lists:
  "simulates (undisturbed v cd) same_listing (finished (red_ListApplyDesires 5 server_client cd mc))
     (State (\<lambda>m. (mem_ListApplyDesires mc m, m)))"
  "simulates (undisturbed v cd) same_listing (finished (red_ListDeleteDesires 5 server_client cd mc))
     (State (\<lambda>m. (mem_ListDeleteDesires mc m, m)))"
  "simulates (undisturbed v cd) same_listing (finished (red_ListReadDesires 5 server_client cd mc))
     (State (\<lambda>m. (mem_ListReadDesires mc m, m)))"
  by (rule simulates_memory; simp add: finished_def red_ListApplyDesires_def red_ListDeleteDesires_def red_ListReadDesires_def
      mem_ListApplyDesires_def mem_ListDeleteDesires_def mem_ListReadDesires_def same_listing_def
      wp_bind wp_return calm_cluster map_result_def listing_agrees undisturbed_same del: mset_map mset_filter)+

lemma calm_delete_records:
  assumes "red_inv v cd all_stable (map_of xs)" "distinct (map (\<lambda>(k, r). rec_Identity r) crs)"
    and "\<forall>(k, r)\<in>set crs. k = redisKey (rec_Identity r) \<and> recmap cd (map_of xs) (rec_Identity r) = Some r"
    and "\<And>xs'. red_inv v cd all_stable (map_of xs') \<Longrightarrow>
      recmap cd (map_of xs') = (\<lambda>i. if Matches sel i \<and> (\<exists>(k, r)\<in>set crs. i = rec_Identity r) then None else recmap cd (map_of xs) i) \<Longrightarrow>
      Q (Inr ()) (calm [] xs' n)"
  shows "wp (delete_records server_client cd sel crs) Q (calm [] xs n)"
  using assms
proof (induction crs arbitrary: xs)
  case Nil
  then show ?case by (simp add: wp_return)
next
  case (Cons cr crs)
  obtain k r where cr: "cr = (k, r)" by force
  then have k: "k = redisKey (rec_Identity r)" "recmap cd (map_of xs) (rec_Identity r) = Some r" using Cons.prems(3) by auto
  have fresh: "\<forall>(k', r')\<in>set crs. rec_Identity r' \<noteq> rec_Identity r" using Cons.prems(2) cr by force
  show ?case
  proof (cases "Matches sel (rec_Identity r)")
    case False
    have "wp (delete_records server_client cd sel crs) Q (calm [] xs n)"
    proof (rule Cons.IH [OF Cons.prems(1)])
      show "Q (Inr ()) (calm [] xs' n)" if "red_inv v cd all_stable (map_of xs')"
        "recmap cd (map_of xs') = (\<lambda>i. if Matches sel i \<and> (\<exists>(k, r)\<in>set crs. i = rec_Identity r) then None else recmap cd (map_of xs) i)" for xs'
        using that False cr by (intro Cons.prems(4)) (auto simp: fun_eq_iff)
    qed (use Cons.prems(2,3) in auto)
    then show ?thesis using False cr by simp
  next
    case True
    let ?xs = "committed [DelCmd k] xs"
    have db: "map_of ?xs = (map_of xs)(redisKey (rec_Identity r) := None)" by (simp add: map_of_committed k(1))
    have "wp (delete_records server_client cd sel crs) Q (calm [] ?xs n)"
    proof (rule Cons.IH)
      show "red_inv v cd all_stable (map_of ?xs)" unfolding db by (rule red_inv_del [OF Cons.prems(1)])
      show "distinct (map (\<lambda>(k, r). rec_Identity r) crs)" using Cons.prems(2) by simp
      show "\<forall>(k, r)\<in>set crs. k = redisKey (rec_Identity r) \<and> recmap cd (map_of ?xs) (rec_Identity r) = Some r"
        using Cons.prems(3) fresh by (auto simp: db)
      show "Q (Inr ()) (calm [] xs' n)" if "red_inv v cd all_stable (map_of xs')"
        "recmap cd (map_of xs') = (\<lambda>i. if Matches sel i \<and> (\<exists>(k, r)\<in>set crs. i = rec_Identity r) then None else recmap cd (map_of ?xs) i)" for xs'
        using that True cr by (intro Cons.prems(4)) (auto simp: fun_eq_iff db)
    qed
    then have "wp (casDelete server_client cd (redisKey (rec_Identity r)) (precheck_prefix sel))
        (\<lambda>a. wp (case a of Inl err \<Rightarrow> State_Monad.return (Inl err) | Inr u \<Rightarrow> delete_records server_client cd sel crs) Q) (calm [] xs n)"
      using True k by (intro calm_casDelete [where r = "Inr ()" and n' = n, OF Cons.prems(1)]) (simp_all add: precheck_prefix_def decides_return)
    then show ?thesis using True cr k(1) by (simp add: wp_bind)
  qed
qed

lemma simulate_delete_by_prefix:
  "simulates (undisturbed v cd) (=) (finished (red_DeleteByPrefix 5 server_client cd mc sel)) (State (mem_DeleteByPrefix mc sel))"
proof (rule simulates_memory)
  fix m xs
  assume mi: "mem_inv v m" and ri: "red_inv v cd all_stable (map_of xs)" and eq: "recmap cd (map_of xs) = lookup_item m"
  have "wp (delete_records server_client cd sel (cluster_records cd mc xs))
      (\<lambda>x s'. x = Inr () \<and> undisturbed v cd s' (snd (mem_DeleteByPrefix mc sel m))) (calm [] xs (ownerConflictTotal m))"
  proof (rule calm_delete_records [OF ri cluster_records_distinct [OF ri]])
    show "\<forall>(k, r)\<in>set (cluster_records cd mc xs). k = redisKey (rec_Identity r) \<and> recmap cd (map_of xs) (rec_Identity r) = Some r"
      using cluster_records_found [OF ri] by blast
    fix xs'
    assume "red_inv v cd all_stable (map_of xs')"
      and gone: "recmap cd (map_of xs') = (\<lambda>i. if Matches sel i \<and> (\<exists>(k, r)\<in>set (cluster_records cd mc xs). i = rec_Identity r)
        then None else recmap cd (map_of xs) i)"
    have "(\<exists>(k, r)\<in>set (cluster_records cd mc xs). i = rec_Identity r) \<longleftrightarrow> lookup_item m i \<noteq> None \<and> ManagementCluster i = mc" for i
    proof
      assume "\<exists>(k, r)\<in>set (cluster_records cd mc xs). i = rec_Identity r"
      then obtain k r where "(k, r) \<in> set (cluster_records cd mc xs)" "i = rec_Identity r" by auto
      then show "lookup_item m i \<noteq> None \<and> ManagementCluster i = mc"
        using cluster_records_found(2,3) [OF ri, of k r mc] by (simp add: eq del: map_of_eq_Some_iff)
    next
      assume "lookup_item m i \<noteq> None \<and> ManagementCluster i = mc"
      then obtain r where "lookup_item m i = Some r" "ManagementCluster i = mc" by blast
      then show "\<exists>(k, r)\<in>set (cluster_records cd mc xs). i = rec_Identity r"
        using cluster_records_complete [OF ri, of i r mc] sibling_record [OF mi, of i r] unfolding eq by force
    qed
    then have "recmap cd (map_of xs') i = lookup_item (snd (mem_DeleteByPrefix mc sel m)) i" for i
      unfolding gone lookup_delete_by_prefix [OF mi] eq by simp
    then show "Inr () = Inr () \<and> undisturbed v cd (calm [] xs' (ownerConflictTotal m)) (snd (mem_DeleteByPrefix mc sel m))"
      using \<open>red_inv v cd all_stable (map_of xs')\<close> mem_inv_delete_by_prefix [OF mi]
      by (auto simp: mem_DeleteByPrefix_def intro!: undisturbed_same)
  qed
  then show "wp (finished (red_DeleteByPrefix 5 server_client cd mc sel))
      (\<lambda>x s'. x = fst (mem_DeleteByPrefix mc sel m) \<and> undisturbed v cd s' (snd (mem_DeleteByPrefix mc sel m)))
      (calm [] xs (ownerConflictTotal m))"
    by (simp add: finished_def red_DeleteByPrefix_def wp_bind wp_return calm_cluster [OF ri] mem_DeleteByPrefix_def)
qed

section \<open>Conformance\<close>

text \<open>With an encoding that keeps every record the two stores are related as the locale asks.\<close>

locale lossless_encoding =
  fixes cd :: codec
  assumes keeps_records: "lossless cd"

sublocale lossless_encoding \<subseteq> like_memory: store_simulation "redis_backend v fnd cd" "memory_store v fnd" "undisturbed v cd"
  for v fnd
  using keeps_records
  by unfold_locales (simp_all add: redis_backend_def memory_store_def simulate_creates simulate_gets simulate_updates
      simulate_deletes simulate_lists simulate_delete_by_prefix)

context lossless_encoding
begin

lemma redis_conforms:
  assumes "names_ok v" "finds_conditions fnd"
  shows "conforms now (redis_backend v fnd cd) (calm [] [] n)"
  using like_memory.same_verdict [OF undisturbed_New] memory_conforms [OF assms] by simp

end

interpretation sample_like_memory: lossless_encoding sample_codec
  by unfold_locales (rule sample_lossless)

end
