(* ===== verification/ConformanceProperties.thy ===== *)
theory ConformanceProperties
  imports RedisMemory Samples
begin

text \<open>
  The verdict of the conformance suite on both backends. The Redis-backed store runs on the server of
  \<open>RedisServer\<close> with one client and no failing command, as the tests of the repository run it.
\<close>



end
