(* ===== verification/Redaction.thy ===== *)
theory Redaction
  imports Json
begin

text \<open>
  \<open>RedactSecrets\<close> of \<open>internal/config/config.go\<close>: the pattern
  \<open>(?i)([a-z][a-z0-9+.-]*://[^:@\s/]*:)[^@\s]+@\<close> on the bytes of a string. Every class of the pattern ends
  where the next part begins, so a match at a position is determined; the case-insensitive \<open>[a-z]\<close>
  also matches the long s (C5 BF) and the Kelvin sign (E2 84 AA), which fold to s and k.
\<close>

section \<open>The pattern\<close>

definition is_blank :: "char \<Rightarrow> bool" where
  "is_blank c \<longleftrightarrow> c \<in> {CHR 0x09, CHR 0x0A, CHR 0x0C, CHR 0x0D, CHR '' ''}"

definition is_letter :: "char \<Rightarrow> bool" where
  "is_letter c \<longleftrightarrow> in_range 65 90 c \<or> in_range 97 122 c"

definition is_scheme_char :: "char \<Rightarrow> bool" where
  "is_scheme_char c \<longleftrightarrow> is_letter c \<or> is_digit c \<or> c \<in> {CHR ''+'', CHR ''.'', CHR ''-''}"

text \<open>The length of the rune at the start when the class holds it, and \<open>0\<close> otherwise.\<close>

definition folded_rune :: "string \<Rightarrow> nat" where
  "folded_rune s = (if prefix [CHR 0xC5, CHR 0xBF] s then 2 else if prefix [CHR 0xE2, CHR 0x84, CHR 0xAA] s then 3 else 0)"

definition letter_rune :: "string \<Rightarrow> nat" where
  "letter_rune s = (if s \<noteq> [] \<and> is_letter (hd s) then 1 else folded_rune s)"

definition scheme_rune :: "string \<Rightarrow> nat" where
  "scheme_rune s = (if s \<noteq> [] \<and> is_scheme_char (hd s) then 1 else folded_rune s)"

lemma folded_rune_le: "folded_rune s \<le> length s"
  by (auto simp: folded_rune_def prefix_def)

lemma scheme_rune_le: "scheme_rune s \<le> length s"
  using folded_rune_le [of s] by (cases s) (auto simp: scheme_rune_def)

function scheme_run :: "string \<Rightarrow> nat" where
  "scheme_run s = (let n = scheme_rune s in if n = 0 then 0 else n + scheme_run (drop n s))"
  by pat_completeness auto
termination
  using scheme_rune_le by (relation "measure length") (auto simp: Let_def, metis diff_less le_zero_eq list.size(3) length_greater_0_conv)

declare scheme_run.simps [simp del]

definition user_char :: "char \<Rightarrow> bool" where
  "user_char c \<longleftrightarrow> c \<noteq> CHR '':'' \<and> c \<noteq> CHR ''@'' \<and> \<not> is_blank c \<and> c \<noteq> CHR ''/''"

definition secret_char :: "char \<Rightarrow> bool" where
  "secret_char c \<longleftrightarrow> c \<noteq> CHR ''@'' \<and> \<not> is_blank c"

text \<open>The match at the start of a string: the group the replacement keeps, the password and what follows.\<close>

definition password_at :: "string \<Rightarrow> (string \<times> string \<times> string) option" where
  "password_at s =
     (if letter_rune s = 0 then None
      else let n = scheme_run s; r1 = drop n s in
        if \<not> prefix ''://'' r1 then None
        else let r2 = drop 3 r1 in
          (case dropWhile user_char r2 of
             [] \<Rightarrow> None
           | c # r4 \<Rightarrow>
               if c \<noteq> CHR '':'' then None
               else (case dropWhile secret_char r4 of
                   [] \<Rightarrow> None
                 | d # r6 \<Rightarrow>
                     if d \<noteq> CHR ''@'' \<or> takeWhile secret_char r4 = [] then None
                     else Some (take n s @ ''://'' @ takeWhile user_char r2 @ [c], takeWhile secret_char r4, r6))))"

lemma password_at_shorter: "password_at s = Some (g, pw, r) \<Longrightarrow> length r < length s"
proof -
  assume *: "password_at s = Some (g, pw, r)"
  define r2 where "r2 = drop 3 (drop (scheme_run s) s)"
  obtain c r4 where r4: "dropWhile user_char r2 = c # r4" "dropWhile secret_char r4 = CHR ''@'' # r"
    using * by (auto simp: password_at_def Let_def r2_def split: if_splits list.splits)
  have "length (dropWhile user_char r2) \<le> length s" by (rule le_trans [OF length_dropWhile_le]) (simp add: r2_def)
  moreover have "length (dropWhile secret_char r4) \<le> length r4" by (rule length_dropWhile_le)
  ultimately show ?thesis using r4 by simp
qed

function RedactSecrets :: "string \<Rightarrow> string" where
  "RedactSecrets s =
     (case password_at s of
        Some (g, pw, r) \<Rightarrow> g @ ''REDACTED@'' @ RedactSecrets r
      | None \<Rightarrow> (case s of [] \<Rightarrow> [] | c # r \<Rightarrow> c # RedactSecrets r))"
  by pat_completeness auto
termination
  by (relation "measure length") (auto dest: password_at_shorter)

declare RedactSecrets.simps [simp del]

section \<open>What a match is\<close>

definition scheme_ok :: "string \<Rightarrow> bool" where
  "scheme_ok a \<longleftrightarrow> letter_rune a \<noteq> 0 \<and> scheme_run a = length a"

definition group_ok :: "string \<Rightarrow> bool" where
  "group_ok g \<longleftrightarrow> (\<exists>a u. g = a @ ''://'' @ u @ '':'' \<and> scheme_ok a \<and> list_all user_char u)"

lemma folded_cases:
  assumes "folded_rune s \<noteq> 0"
  obtains r where "s = CHR 0xC5 # CHR 0xBF # r" "folded_rune s = 2" | r where "s = CHR 0xE2 # CHR 0x84 # CHR 0xAA # r" "folded_rune s = 3"
  using assms by (auto simp: folded_rune_def prefix_def split: if_splits)

lemma folded_simps [simp]:
  "folded_rune (CHR 0xC5 # CHR 0xBF # r) = 2" "folded_rune (CHR 0xE2 # CHR 0x84 # CHR 0xAA # r) = 3" "folded_rune [] = 0"
  by (simp_all add: folded_rune_def)

lemma folded_append: "folded_rune s \<noteq> 0 \<Longrightarrow> folded_rune (s @ t) = folded_rune s \<and> folded_rune (take (folded_rune s) s) = folded_rune s"
  by (erule folded_cases) simp_all

lemma rune_append:
  "scheme_rune s \<noteq> 0 \<Longrightarrow> scheme_rune (s @ t) = scheme_rune s"
  "letter_rune s \<noteq> 0 \<Longrightarrow> letter_rune (s @ t) = letter_rune s"
  by (cases s; simp add: scheme_rune_def letter_rune_def folded_append [of s t] split: if_splits; use folded_append [of s t] in auto)+

lemma rune_take:
  assumes "scheme_rune s \<noteq> 0" shows "scheme_rune (take (scheme_rune s) s) = scheme_rune s"
proof (cases "s \<noteq> [] \<and> is_scheme_char (hd s)")
  case False
  then have s: "scheme_rune s = folded_rune s" by (auto simp: scheme_rune_def)
  then have "folded_rune s \<noteq> 0" using assms by simp
  then show ?thesis using False unfolding s by (cases rule: folded_cases) (simp_all add: scheme_rune_def)
qed (cases s; simp add: scheme_rune_def)

lemma letter_is_scheme: "letter_rune s \<noteq> 0 \<Longrightarrow> scheme_rune s \<noteq> 0"
  by (auto simp: scheme_rune_def letter_rune_def is_scheme_char_def)

lemma scheme_run_le: "scheme_run s \<le> length s"
proof (induction s rule: scheme_run.induct)
  case (1 s)
  then show ?case using scheme_rune_le [of s] by (subst scheme_run.simps) (auto simp: Let_def)
qed

lemma scheme_run_append: "scheme_run a = length a \<Longrightarrow> scheme_run (a @ t) = length a + scheme_run t"
proof (induction a rule: scheme_run.induct)
  case (1 a)
  show ?case
  proof (cases "scheme_rune a = 0")
    case True
    then have "a = []" using 1 by (simp add: scheme_run.simps [of a])
    then show ?thesis by simp
  next
    case False
    define n where "n = scheme_rune a"
    have n: "n \<noteq> 0" "n \<le> length a" "scheme_rune (a @ t) = n"
      using False scheme_rune_le [of a] rune_append(1) [OF False] by (simp_all add: n_def)
    have "scheme_run a = n + scheme_run (drop n a)" using n(1) by (subst scheme_run.simps) (simp add: n_def Let_def)
    then have "scheme_run (drop n a) = length (drop n a)" using "1.prems" n(2) by simp
    then have "scheme_run (drop n a @ t) = length (drop n a) + scheme_run t" using "1.IH" n(1) by (simp add: n_def)
    moreover have "scheme_run (a @ t) = n + scheme_run (drop n a @ t)"
      using n by (subst scheme_run.simps) (simp add: Let_def)
    ultimately show ?thesis using n(2) by simp
  qed
qed

lemma scheme_run_take: "scheme_run (take (scheme_run s) s) = scheme_run s"
proof (induction s rule: scheme_run.induct)
  case (1 s)
  show ?case
  proof (cases "scheme_rune s = 0")
    case True
    then show ?thesis by (simp add: scheme_run.simps [of s]) (simp add: scheme_run.simps scheme_rune_def folded_rune_def)
  next
    case False
    define n where "n = scheme_rune s"
    have n: "n \<noteq> 0" "n \<le> length s" using False scheme_rune_le [of s] by (simp_all add: n_def)
    have run: "scheme_run s = n + scheme_run (drop n s)" using n(1) by (subst scheme_run.simps) (simp add: n_def Let_def)
    have split: "take (scheme_run s) s = take n s @ take (scheme_run (drop n s)) (drop n s)" by (simp add: run take_add)
    have "scheme_rune (take n s) = n" using rune_take [OF False] by (simp add: n_def)
    then have "scheme_run (take n s) = length (take n s)" using n
      by (subst scheme_run.simps) (simp add: Let_def, simp add: scheme_run.simps scheme_rune_def)
    then have "scheme_run (take (scheme_run s) s) = n + scheme_run (take (scheme_run (drop n s)) (drop n s))"
      unfolding split using scheme_run_append n(2) by simp
    then show ?thesis using 1 n(1) run by (simp add: n_def)
  qed
qed

text \<open>The bytes of a scheme are none of those that end a part of the pattern.\<close>

lemma ascii_scheme_char: "is_scheme_char c \<Longrightarrow> secret_char c \<and> user_char c"
  by (auto simp: is_scheme_char_def is_letter_def is_digit_def in_range_def secret_char_def user_char_def is_blank_def)

lemma rune_bytes: "c \<in> set (take (scheme_rune s) s) \<Longrightarrow> secret_char c \<and> user_char c"
proof (cases "s \<noteq> [] \<and> is_scheme_char (hd s)")
  case True
  then show "c \<in> set (take (scheme_rune s) s) \<Longrightarrow> ?thesis" by (cases s) (auto simp: scheme_rune_def ascii_scheme_char)
next
  case False
  then have s: "scheme_rune s = folded_rune s" by (auto simp: scheme_rune_def)
  assume c: "c \<in> set (take (scheme_rune s) s)"
  then have "folded_rune s \<noteq> 0" unfolding s by (metis list.set(1) empty_iff take_0)
  then show ?thesis using c unfolding s
    by (cases rule: folded_cases) (auto simp: secret_char_def user_char_def is_blank_def numeral_3_eq_3)
qed

lemma scheme_bytes: "scheme_run a = length a \<Longrightarrow> c \<in> set a \<Longrightarrow> secret_char c \<and> user_char c"
proof (induction a rule: scheme_run.induct)
  case (1 a)
  show ?case
  proof (cases "scheme_rune a = 0")
    case True
    then show ?thesis using 1 by (simp add: scheme_run.simps [of a])
  next
    case False
    define n where "n = scheme_rune a"
    have n: "n \<noteq> 0" "n \<le> length a" using False scheme_rune_le [of a] by (simp_all add: n_def)
    have "scheme_run a = n + scheme_run (drop n a)" using n(1) by (subst scheme_run.simps) (simp add: n_def Let_def)
    then have "scheme_run (drop n a) = length (drop n a)" using "1.prems" n(2) by simp
    moreover have "c \<in> set (take n a) \<or> c \<in> set (drop n a)" using "1.prems"(2) by (metis append_take_drop_id Un_iff set_append)
    ultimately show ?thesis using "1.IH" n(1) rune_bytes [of c a] by (auto simp: n_def)
  qed
qed

lemma secret_user: "user_char c \<Longrightarrow> secret_char c"
  by (simp add: user_char_def secret_char_def)

lemma group_chars: "group_ok g \<Longrightarrow> list_all secret_char g"
  by (auto simp: group_ok_def scheme_ok_def list_all_iff scheme_bytes secret_user) (auto simp: secret_char_def is_blank_def)

lemma takeWhile_exact: "list_all P xs \<Longrightarrow> \<not> P c \<Longrightarrow> takeWhile P (xs @ c # r) = xs \<and> dropWhile P (xs @ c # r) = c # r"
  by (induction xs) auto

lemma special_chars [simp]: "\<not> user_char (CHR '':'')" "\<not> secret_char (CHR ''@'')" "scheme_rune (CHR '':'' # r) = 0"
  by (simp_all add: user_char_def secret_char_def scheme_rune_def is_scheme_char_def is_letter_def in_range_def is_digit_def folded_rune_def)

lemma scheme_run_colon [simp]: "scheme_run (CHR '':'' # r) = 0"
  by (subst scheme_run.simps) simp

lemma letter_take: "letter_rune s \<noteq> 0 \<Longrightarrow> letter_rune (take (scheme_rune s) s) \<noteq> 0"
proof (cases "s \<noteq> [] \<and> is_letter (hd s)")
  case False
  moreover assume "letter_rune s \<noteq> 0"
  ultimately have "folded_rune s \<noteq> 0" by (auto simp: letter_rune_def)
  then show ?thesis
    by (cases rule: folded_cases) (simp_all add: scheme_rune_def letter_rune_def is_scheme_char_def is_letter_def in_range_def is_digit_def)
qed (cases s; simp add: letter_rune_def scheme_rune_def is_scheme_char_def)

lemma password_at_iff:
  "password_at s = Some (g, pw, r) \<longleftrightarrow> s = g @ pw @ CHR ''@'' # r \<and> group_ok g \<and> list_all secret_char pw \<and> pw \<noteq> []"
proof
  assume *: "password_at s = Some (g, pw, r)"
  define n r2 where "n = scheme_run s" and "r2 = drop 3 (drop n s)"
  have a: "letter_rune s \<noteq> 0" "prefix ''://'' (drop n s)"
    using * by (auto simp: password_at_def Let_def n_def split: if_splits)
  obtain r4 where r4: "dropWhile user_char r2 = CHR '':'' # r4" "dropWhile secret_char r4 = CHR ''@'' # r"
    "pw = takeWhile secret_char r4" "pw \<noteq> []" "g = take n s @ ''://'' @ takeWhile user_char r2 @ '':''"
    using * by (auto simp: password_at_def Let_def n_def r2_def split: if_splits list.splits)
  obtain rest where rest: "drop n s = ''://'' @ rest" using a(2) by (auto simp: prefix_def)
  then have "s = take n s @ ''://'' @ r2" using append_take_drop_id [of n s] by (simp add: r2_def)
  also have "r2 = takeWhile user_char r2 @ '':'' @ r4" using takeWhile_dropWhile_id [of user_char r2] by (simp add: r4(1))
  also have "r4 = pw @ CHR ''@'' # r" using takeWhile_dropWhile_id [of secret_char r4] by (simp add: r4(2,3))
  finally have "s = g @ pw @ CHR ''@'' # r" using r4(5) by simp
  moreover have "letter_rune (take n s) \<noteq> 0"
  proof -
    have "n = scheme_rune s + scheme_run (drop (scheme_rune s) s)"
      unfolding n_def using letter_is_scheme [OF a(1)] by (subst scheme_run.simps) (simp add: Let_def)
    then have "take n s = take (scheme_rune s) s @ take (scheme_run (drop (scheme_rune s) s)) (drop (scheme_rune s) s)"
      by (simp add: take_add)
    then show ?thesis using rune_append(2) [OF letter_take [OF a(1)]] letter_take [OF a(1)] by simp
  qed
  then have "scheme_ok (take n s)" using scheme_run_take [of s] scheme_run_le [of s] by (simp add: scheme_ok_def n_def)
  then have "group_ok g" unfolding group_ok_def r4(5) by (auto simp: list_all_iff dest: set_takeWhileD)
  ultimately show "s = g @ pw @ CHR ''@'' # r \<and> group_ok g \<and> list_all secret_char pw \<and> pw \<noteq> []"
    using r4 by (auto simp: list_all_iff dest: set_takeWhileD)
next
  assume s: "s = g @ pw @ CHR ''@'' # r \<and> group_ok g \<and> list_all secret_char pw \<and> pw \<noteq> []"
  then obtain a u where g: "g = a @ ''://'' @ u @ '':''" "scheme_ok a" "list_all user_char u" by (auto simp: group_ok_def)
  then have "scheme_run s = length a" using s scheme_run_append [of a] by (simp add: scheme_ok_def)
  moreover have "letter_rune s \<noteq> 0" using s g rune_append(2) [of a] by (simp add: scheme_ok_def)
  ultimately show "password_at s = Some (g, pw, r)"
    using s g takeWhile_exact [of user_char u "CHR '':''" "pw @ CHR ''@'' # r"] takeWhile_exact [of secret_char pw "CHR ''@''" r]
    by (simp add: password_at_def Let_def)
qed

section \<open>No password is left\<close>

definition no_password_shown :: "string \<Rightarrow> bool" where
  "no_password_shown s \<longleftrightarrow>
     list_all (\<lambda>t. case password_at t of None \<Rightarrow> True | Some (g, pw, r) \<Rightarrow> pw = ''REDACTED'') (suffixes s)"

lemma no_password_shownI:
  "(\<And>t g pw r. suffix t s \<Longrightarrow> password_at t = Some (g, pw, r) \<Longrightarrow> pw = ''REDACTED'') \<Longrightarrow> no_password_shown s"
  by (auto simp: no_password_shown_def list_all_iff split: option.split)

lemma no_password_shownD:
  "no_password_shown s \<Longrightarrow> suffix t s \<Longrightarrow> password_at t = Some (g, pw, r) \<Longrightarrow> pw = ''REDACTED''"
  by (auto simp: no_password_shown_def list_all_iff dest!: bspec [of _ _ t])

lemma redacted_secret [simp]: "c \<in> set ''REDACTED'' \<Longrightarrow> secret_char c"
  by (auto simp: secret_char_def is_blank_def)

lemma group_colons: "group_ok g \<Longrightarrow> count_list g (CHR '':'') = 2 \<and> (\<exists>h. g = h @ '':'')"
proof -
  assume "group_ok g"
  then obtain a u where g: "g = a @ ''://'' @ u @ '':''" "scheme_ok a" "list_all user_char u" by (auto simp: group_ok_def)
  have "CHR '':'' \<notin> set a" using g(2) scheme_bytes [of a "CHR '':''"] by (auto simp: scheme_ok_def)
  moreover have "CHR '':'' \<notin> set u" using g(3) by (auto simp: list_all_iff)
  ultimately show ?thesis using g(1) by (auto simp: count_list_0_iff)
qed

lemma last_colon:
  assumes "xs @ '':'' @ b = ys @ '':'' @ d" "CHR '':'' \<notin> set b" "CHR '':'' \<notin> set d" shows "b = d"
proof -
  have "rev b @ CHR '':'' # rev xs = rev d @ CHR '':'' # rev ys" using arg_cong [OF assms(1), of rev] by simp
  moreover have "takeWhile (\<lambda>c. c \<noteq> CHR '':'') (rev b @ CHR '':'' # rev xs) = rev b"
    "takeWhile (\<lambda>c. c \<noteq> CHR '':'') (rev d @ CHR '':'' # rev ys) = rev d"
    by (rule conjunct1 [OF takeWhile_exact]; use assms(2,3) in \<open>auto simp: list_all_iff\<close>)+
  ultimately show ?thesis by simp
qed

lemma secret_part:
  assumes "z @ CHR ''@'' # q = y @ CHR ''@'' # r" "list_all secret_char z" "list_all secret_char y"
  shows "z = y"
proof -
  have "takeWhile secret_char (z @ CHR ''@'' # q) = z" "takeWhile secret_char (y @ CHR ''@'' # r) = y"
    using takeWhile_exact [of secret_char] assms(2,3) special_chars(2) by blast+
  then show ?thesis using assms(1) by simp
qed

text \<open>A match that begins in a replaced piece ends with it.\<close>

lemma match_in_replaced:
  assumes g: "group_ok g" and t: "suffix t (g @ ''REDACTED'')" and m: "password_at (t @ CHR ''@'' # R) = Some (g', pw', r')"
  shows "pw' = ''REDACTED''"
proof -
  have m': "t @ CHR ''@'' # R = (g' @ pw') @ CHR ''@'' # r'" "group_ok g'" "list_all secret_char pw'" using m by (simp_all add: password_at_iff)
  have "list_all secret_char (g @ ''REDACTED'')" using group_chars [OF g] unfolding list_all_iff set_append by auto
  then have "list_all secret_char t" using set_mono_suffix [OF t] unfolding list_all_iff by blast
  then have eq: "t = g' @ pw'" using secret_part [OF m'(1)] group_chars [OF m'(2)] m'(3) by simp
  obtain h' where h': "g' = h' @ '':''" using group_colons [OF m'(2)] by blast
  consider (red) "suffix t ''REDACTED''" | (grp) x where "t = x @ ''REDACTED''" "suffix x g" using t by (auto simp: suffix_append)
  then show ?thesis
  proof cases
    case red
    then have "CHR '':'' \<notin> set t" using set_mono_suffix [OF red] by auto
    then show ?thesis using eq h' by auto
  next
    case grp
    obtain h where h: "g = h @ '':''" using group_colons [OF g] by blast
    obtain zs where zs: "g = zs @ x" using grp(2) by (auto simp: suffix_def)
    have "count_list g (CHR '':'') = 2" using group_colons [OF g] by blast
    then have "count_list x (CHR '':'') \<le> 2" unfolding zs by simp
    then have x: "count_list pw' (CHR '':'') = 0" "x \<noteq> []"
      using arg_cong [OF eq, of "\<lambda>l. count_list l (CHR '':'')"] group_colons [OF m'(2)] grp(1) by auto
    then obtain k where "x = k @ '':''" using grp(2) h by (auto simp: suffix_def append_eq_append_conv2 Cons_eq_append_conv)
    then have "k @ '':'' @ ''REDACTED'' = h' @ '':'' @ pw'" using eq grp(1) h' by simp
    then show ?thesis using last_colon [of k "''REDACTED''" h' pw'] x(1) by (simp add: count_list_0_iff)
  qed
qed

text \<open>The text up to the first replaced password.\<close>

lemma first_change:
  "RedactSecrets s = s \<or> (\<exists>u g pw rest. s = u @ g @ pw @ CHR ''@'' # rest \<and> group_ok g \<and> pw \<noteq> [] \<and> list_all secret_char pw \<and>
     RedactSecrets s = u @ g @ ''REDACTED@'' @ RedactSecrets rest)"
proof (induction s rule: RedactSecrets.induct)
  case (1 s)
  show ?case
  proof (cases "password_at s")
    case (Some m)
    then obtain g pw r where m: "password_at s = Some (g, pw, r)" by (cases m) auto
    then have "RedactSecrets s = [] @ g @ ''REDACTED@'' @ RedactSecrets r" by (subst RedactSecrets.simps) simp
    then show ?thesis using m unfolding password_at_iff by (metis append_Nil)
  next
    case None
    then have out: "RedactSecrets s = (case s of [] \<Rightarrow> [] | c # r \<Rightarrow> c # RedactSecrets r)" by (subst RedactSecrets.simps) simp
    show ?thesis
    proof (cases s)
      case (Cons c r)
      from "1.IH"(1) [OF None Cons] show ?thesis
      proof (elim disjE exE conjE)
        fix u g pw rest
        assume r: "r = u @ g @ pw @ CHR ''@'' # rest" "group_ok g" "pw \<noteq> []" "list_all secret_char pw"
          "RedactSecrets r = u @ g @ ''REDACTED@'' @ RedactSecrets rest"
        have "s = (c # u) @ g @ pw @ CHR ''@'' # rest \<and> group_ok g \<and> pw \<noteq> [] \<and> list_all secret_char pw \<and>
            RedactSecrets s = (c # u) @ g @ ''REDACTED@'' @ RedactSecrets rest"
          using r out Cons by simp
        then show ?thesis by blast
      qed (use out Cons in simp)
    qed (use out in simp)
  qed
qed

lemma no_new_match:
  assumes none: "password_at (c # s) = None" and m: "password_at (c # RedactSecrets s) = Some (g', pw', r')"
  shows False
proof -
  from first_change [of s] show False
  proof (elim disjE exE conjE)
    assume "RedactSecrets s = s"
    then show False using none m by simp
  next
    fix u g pw rest
    assume s: "s = u @ g @ pw @ CHR ''@'' # rest" "RedactSecrets s = u @ g @ ''REDACTED@'' @ RedactSecrets rest"
      and pw: "list_all secret_char pw" "pw \<noteq> []"
    define w where "w = c # u @ g"
    have m': "w @ ''REDACTED@'' @ RedactSecrets rest = g' @ pw' @ CHR ''@'' # r'" "group_ok g'" "list_all secret_char pw'" "pw' \<noteq> []"
      using m s by (auto simp: password_at_iff w_def)
    obtain h where h: "g' = h @ '':''" using group_colons [OF m'(2)] by blast
    have secret: "list_all secret_char (g' @ pw')" using group_chars [OF m'(2)] m'(3) by simp
    show False
    proof (cases "list_all secret_char w")
      case True
      have "(w @ ''REDACTED'') @ CHR ''@'' # RedactSecrets rest = (g' @ pw') @ CHR ''@'' # r'" using m'(1) by simp
      then have eq: "w @ ''REDACTED'' = g' @ pw'" by (rule secret_part) (use True secret in simp_all)
      then obtain q where q: "w = g' @ q"
        using h by (auto simp: append_eq_append_conv2 Cons_eq_append_conv append_eq_Cons_conv)
      then have "c # s = g' @ (q @ pw) @ CHR ''@'' # rest" using s(1) by (simp add: w_def)
      moreover have "list_all secret_char (q @ pw)" using True q pw(1) by simp
      ultimately have "password_at (c # s) = Some (g', q @ pw, rest)" using m'(2) pw(2) by (simp add: password_at_iff)
      then show False using none by simp
    next
      case False
      then have "\<exists>d\<in>set w. \<not> secret_char d" by (simp add: list_all_iff)
      from split_list_first_prop [OF this] obtain y d w' where w: "w = y @ d # w'" "list_all secret_char y" "\<not> secret_char d"
        by (auto simp: list_all_iff)
      have same: "y @ d # w' @ ''REDACTED@'' @ RedactSecrets rest = (g' @ pw') @ CHR ''@'' # r'" using m'(1) w(1) by simp
      have "y = g' @ pw'" "d # w' @ ''REDACTED@'' @ RedactSecrets rest = CHR ''@'' # r'"
        using takeWhile_exact [OF w(2,3), of "w' @ ''REDACTED@'' @ RedactSecrets rest"]
          takeWhile_exact [OF secret special_chars(2), of r'] unfolding same by (elim conjE, simp only:)+
      then have "y = g' @ pw' \<and> d = CHR ''@''" by simp
      then have "c # s = g' @ pw' @ CHR ''@'' # (w' @ pw @ CHR ''@'' # rest)" using w(1) s(1) by (simp add: w_def)
      then have "password_at (c # s) = Some (g', pw', w' @ pw @ CHR ''@'' # rest)" using m' by (simp add: password_at_iff)
      then show False using none by simp
    qed
  qed
qed

lemma redact_redacted: "no_password_shown (RedactSecrets s)"
proof (induction s rule: RedactSecrets.induct)
  case (1 s)
  show ?case
  proof (cases "password_at s")
    case (Some m)
    then obtain g pw r where m: "password_at s = Some (g, pw, r)" by (cases m) auto
    then have out: "RedactSecrets s = (g @ ''REDACTED'') @ CHR ''@'' # RedactSecrets r" by (subst RedactSecrets.simps) simp
    have g: "group_ok g" using m by (simp add: password_at_iff)
    have rest: "no_password_shown (RedactSecrets r)" using "1.IH"(2) [OF m refl refl] by simp
    show ?thesis
    proof (rule no_password_shownI)
      fix t g' pw' r'
      assume t: "suffix t (RedactSecrets s)" and m': "password_at t = Some (g', pw', r')"
      have "suffix t (RedactSecrets r) \<or> (\<exists>z. t = z @ CHR ''@'' # RedactSecrets r \<and> suffix z (g @ ''REDACTED''))"
        using t unfolding out suffix_append suffix_Cons by auto
      then show "pw' = ''REDACTED''"
        using no_password_shownD [OF rest _ m'] match_in_replaced [OF g, of _ "RedactSecrets r" g' pw' r'] m' by blast
    qed
  next
    case None
    then have out: "RedactSecrets s = (case s of [] \<Rightarrow> [] | c # r \<Rightarrow> c # RedactSecrets r)" by (subst RedactSecrets.simps) simp
    show ?thesis
    proof (cases s)
      case Nil
      then show ?thesis using out None by (auto intro!: no_password_shownI)
    next
      case (Cons c r)
      show ?thesis
      proof (rule no_password_shownI)
        fix t g' pw' r'
        assume t: "suffix t (RedactSecrets s)" and m': "password_at t = Some (g', pw', r')"
        then have "t = c # RedactSecrets r \<or> suffix t (RedactSecrets r)" using out Cons by (auto simp: suffix_Cons)
        then show "pw' = ''REDACTED''"
          using no_new_match [of c r g' pw' r'] None Cons m' no_password_shownD [OF "1.IH"(1) [OF None Cons] _ m'] by auto
      qed
    qed
  qed
qed

text \<open>Redacting twice changes nothing, and a text without a password is left as it is.\<close>

lemma redact_shown: "no_password_shown s \<Longrightarrow> RedactSecrets s = s"
proof (induction s rule: RedactSecrets.induct)
  case (1 s)
  show ?case
  proof (cases "password_at s")
    case (Some m)
    then obtain g pw r where m: "password_at s = Some (g, pw, r)" by (cases m) auto
    have pw: "pw = ''REDACTED''" using no_password_shownD [OF "1.prems" _ m] by simp
    have s: "s = g @ pw @ CHR ''@'' # r" using m by (simp add: password_at_iff)
    have "no_password_shown r"
      by (rule no_password_shownI, rule no_password_shownD [OF "1.prems"]) (auto simp: s suffix_append suffix_Cons)
    then have "RedactSecrets r = r" using "1.IH"(2) [OF m refl refl] by simp
    then show ?thesis using m s pw by (subst RedactSecrets.simps) simp
  next
    case None
    show ?thesis
    proof (cases s)
      case (Cons c r)
      have "no_password_shown r"
        by (rule no_password_shownI, rule no_password_shownD [OF "1.prems"]) (auto simp: Cons suffix_Cons)
      then show ?thesis using "1.IH"(1) [OF None Cons] None Cons by (subst RedactSecrets.simps) simp
    qed (use None in \<open>simp add: RedactSecrets.simps\<close>)
  qed
qed

lemma redact_idempotent: "RedactSecrets (RedactSecrets s) = RedactSecrets s"
  by (rule redact_shown [OF redact_redacted])

text \<open>A blank ends every match, so pieces of text can be redacted one by one.\<close>

lemma shown_blank:
  assumes "no_password_shown x" "no_password_shown y" "is_blank b"
  shows "no_password_shown (x @ b # y)"
proof (rule no_password_shownI)
  fix t g pw r
  assume t: "suffix t (x @ b # y)" and m: "password_at t = Some (g, pw, r)"
  have m': "t = (g @ pw) @ CHR ''@'' # r" "group_ok g" "list_all secret_char pw" "pw \<noteq> []" using m by (simp_all add: password_at_iff)
  have secret: "list_all secret_char (g @ pw)" using group_chars [OF m'(2)] m'(3) by simp
  consider (right) "suffix t (b # y)" | (left) z where "t = z @ b # y" "suffix z x" using t by (auto simp: suffix_append)
  then show "pw = ''REDACTED''"
  proof cases
    case right
    have "g \<noteq> []" using group_colons [OF m'(2)] by auto
    then have "secret_char (hd t)" using m'(1) secret by (cases g) simp_all
    then have "suffix t y" using right assms(3) by (auto simp: suffix_Cons secret_char_def)
    then show ?thesis by (rule no_password_shownD [OF assms(2) _ m])
  next
    case left
    have "z @ b # y = (g @ pw) @ CHR ''@'' # r" using left(1) m'(1) by simp
    moreover have "b \<noteq> CHR ''@''" "b \<notin> set (g @ pw)"
      using assms(3) secret by (auto simp: is_blank_def secret_char_def list_all_iff)
    ultimately have "\<exists>r'. z = g @ pw @ CHR ''@'' # r'"
      unfolding append_eq_append_conv2 by (auto simp: Cons_eq_append_conv append_eq_Cons_conv)
    then obtain r' where "password_at z = Some (g, pw, r')" using m' by (auto simp: password_at_iff)
    then show ?thesis by (rule no_password_shownD [OF assms(1) left(2)])
  qed
qed

end
