(* ===== verification/Config.thy ===== *)
theory Config
  imports Redaction Leadership
begin

text \<open>
  Package \<open>internal/config\<close>: the configuration, its validation, and the order in which the settings of flags,
  environment, file and defaults win. Viper is an argument, the record of the calls the code makes, with
  what is relied on of it in the locale \<open>viper_library\<close>; \<open>url.Parse\<close> and the environment are arguments,
  and nothing is assumed of them.
\<close>

section \<open>The configuration\<close>

record LogConfig =
  lc_Level :: string
  lc_Format :: string
  lc_Output :: string

record RedisConfig =
  redis_URL :: string

record KubernetesConfig =
  KubeConfigPath :: string

record ClientsConfig =
  cc_Redis :: RedisConfig
  cc_Kubernetes :: KubernetesConfig

record Config =
  cfg_Log :: LogConfig
  cfg_ManagementCluster :: string
  cfg_Clients :: ClientsConfig
  cfg_PollInterval :: duration
  cfg_DiscoveryRefreshInterval :: duration
  cfg_DebugConfig :: bool

definition newConfig :: Config where
  "newConfig =
     \<lparr>cfg_Log = \<lparr>lc_Level = ''info'', lc_Format = ''json'', lc_Output = ''stdout''\<rparr>,
      cfg_ManagementCluster = [],
      cfg_Clients = \<lparr>cc_Redis = \<lparr>redis_URL = []\<rparr>, cc_Kubernetes = \<lparr>KubeConfigPath = []\<rparr>\<rparr>,
      cfg_PollInterval = 0, cfg_DiscoveryRefreshInterval = 0, cfg_DebugConfig = False\<rparr>"

definition Redacted :: "Config \<Rightarrow> Config" where
  "Redacted c = c\<lparr>cfg_Clients := (cfg_Clients c)\<lparr>cc_Redis := (cc_Redis (cfg_Clients c))
     \<lparr>redis_URL := RedactSecrets (redis_URL (cc_Redis (cfg_Clients c)))\<rparr>\<rparr>\<rparr>"

section \<open>The namespace of the election\<close>

text \<open>
  \<open>strings.TrimSpace\<close> removes the encodings of the runes \<open>unicode.IsSpace\<close> holds for at both ends.
\<close>

definition space_runes :: "string list" where
  "space_runes =
     map (\<lambda>c. [c]) [CHR 0x09, CHR 0x0A, CHR 0x0B, CHR 0x0C, CHR 0x0D, CHR 0x20] @
     [[CHR 0xC2, CHR 0x85], [CHR 0xC2, CHR 0xA0], [CHR 0xE1, CHR 0x9A, CHR 0x80]] @
     map (\<lambda>c. [CHR 0xE2, CHR 0x80, c])
       [CHR 0x80, CHR 0x81, CHR 0x82, CHR 0x83, CHR 0x84, CHR 0x85, CHR 0x86, CHR 0x87, CHR 0x88, CHR 0x89, CHR 0x8A,
        CHR 0xA8, CHR 0xA9, CHR 0xAF] @
     [[CHR 0xE2, CHR 0x81, CHR 0x9F], [CHR 0xE3, CHR 0x80, CHR 0x80]]"

fun trim_runes :: "nat \<Rightarrow> string list \<Rightarrow> string \<Rightarrow> string" where
  "trim_runes 0 ws s = s"
| "trim_runes (Suc n) ws s =
     (case List.find (\<lambda>w. prefix w s) ws of None \<Rightarrow> s | Some w \<Rightarrow> trim_runes n ws (drop (length w) s))"

definition TrimSpace :: "string \<Rightarrow> string" where
  "TrimSpace s =
     (let l = trim_runes (length s) space_runes s in
      rev (trim_runes (length l) (map rev space_runes) (rev l)))"

definition inClusterNamespaceFile :: string where
  "inClusterNamespaceFile = ''/var/run/secrets/kubernetes.io/serviceaccount/namespace''"

definition resolveNamespace :: "(string \<Rightarrow> string) \<Rightarrow> (string \<Rightarrow> bytes result) \<Rightarrow> string result" where
  "resolveNamespace getenv readNamespaceFile =
     (if getenv ''POD_NAMESPACE'' \<noteq> [] then Inr (getenv ''POD_NAMESPACE'')
      else case readNamespaceFile inClusterNamespaceFile of
        Inr data \<Rightarrow>
          if TrimSpace data \<noteq> [] then Inr (TrimSpace data)
          else Inl (ErrorString (''leader election requires a namespace: set POD_NAMESPACE or run in a pod with '' @
            inClusterNamespaceFile @ '' projected''))
      | Inl err \<Rightarrow>
          Inl (ErrorString (''leader election requires a namespace: set POD_NAMESPACE or run in a pod with '' @
            inClusterNamespaceFile @ '' projected'')))"

text \<open>\<open>os.ReadFile\<close> is an argument.\<close>

definition ElectionNamespace :: "(string \<Rightarrow> string) \<Rightarrow> (string \<Rightarrow> bytes result) \<Rightarrow> string result" where
  "ElectionNamespace getenv os_ReadFile = resolveNamespace getenv os_ReadFile"

section \<open>Validation\<close>

text \<open>What \<open>url.Parse\<close> returns, of which the code reads two fields.\<close>

record parsed_url =
  Scheme :: string
  Host :: string

definition Config_Validate :: "(string \<Rightarrow> parsed_url result) \<Rightarrow> Config \<Rightarrow> goerror option" where
  "Config_Validate url_Parse c =
     (if cfg_ManagementCluster c = [] then Some (ErrorString ''management_cluster is required'')
      else if cfg_PollInterval c \<le> 0 then
        Some (ErrorString (''poll_interval must be positive, got '' @ Duration_String (cfg_PollInterval c)))
      else if cfg_DiscoveryRefreshInterval c \<le> 0 then
        Some (ErrorString (''discovery_refresh_interval must be positive, got '' @
          Duration_String (cfg_DiscoveryRefreshInterval c)))
      else case url_Parse (redis_URL (cc_Redis (cfg_Clients c))) of
        Inl err \<Rightarrow> Some (ErrorString (''clients.redis.url is invalid: '' @ RedactSecrets (error_text err)))
      | Inr redisURL \<Rightarrow>
          if Scheme redisURL \<noteq> ''redis'' \<and> Scheme redisURL \<noteq> ''rediss'' \<and> Scheme redisURL \<noteq> ''unix'' then
            Some (ErrorString ''clients.redis.url must use redis, rediss, or unix scheme'')
          else if Scheme redisURL \<noteq> ''unix'' \<and> Host redisURL = [] then
            Some (ErrorString ''clients.redis.url must include a host'')
          else if lc_Level (cfg_Log c) = [] then Some (ErrorString ''log.level is required'')
          else if lc_Format (cfg_Log c) = [] then Some (ErrorString ''log.format is required'')
          else if lc_Output (cfg_Log c) = [] then Some (ErrorString ''log.output is required'')
          else None)"

section \<open>Loading\<close>

definition EnvPrefix :: string where "EnvPrefix = ''HYPERFLEET''"

definition viperKeyMappings :: "(string \<times> string) list" where
  "viperKeyMappings =
     [(''debug_config'', ''DEBUG_CONFIG''),
      (''management_cluster'', ''MANAGEMENT_CLUSTER''),
      (''log::level'', ''LOG_LEVEL''),
      (''log::format'', ''LOG_FORMAT''),
      (''log::output'', ''LOG_OUTPUT''),
      (''clients::redis::url'', ''REDIS_URL''),
      (''clients::kubernetes::kube_config_path'', ''KUBERNETES_KUBE_CONFIG_PATH''),
      (''poll_interval'', ''POLL_INTERVAL''),
      (''discovery_refresh_interval'', ''DISCOVERY_REFRESH_INTERVAL'')]"

definition cliFlags :: "(string \<times> string) list" where
  "cliFlags =
     [(''debug-config'', ''debug_config''),
      (''management-cluster'', ''management_cluster''),
      (''log-level'', ''log::level''),
      (''log-format'', ''log::format''),
      (''log-output'', ''log::output''),
      (''redis-url'', ''clients::redis::url''),
      (''kubernetes-kube-config-path'', ''clients::kubernetes::kube_config_path''),
      (''poll-interval'', ''poll_interval''),
      (''discovery-refresh-interval'', ''discovery_refresh_interval'')]"

text \<open>The calls of Viper and of a flag set; \<open>flags\<close> is absent when the pointer is nil.\<close>

record 'v viper =
  vp_NewWithKeyDelimiter :: "string \<Rightarrow> 'v"
  vp_SetConfigFile :: "string \<Rightarrow> 'v \<Rightarrow> 'v"
  vp_ReadInConfig :: "'v \<Rightarrow> goerror option \<times> 'v"
  vp_BindEnv :: "string \<Rightarrow> string \<Rightarrow> 'v \<Rightarrow> goerror option \<times> 'v"
  vp_Set :: "string \<Rightarrow> string \<Rightarrow> 'v \<Rightarrow> 'v"
  vp_UnmarshalExact :: "'v \<Rightarrow> Config \<Rightarrow> Config result"

record flag =
  flag_Changed :: bool
  flag_String :: string

type_synonym flag_set = "string \<Rightarrow> flag option"

text \<open>The four parts of \<open>LoadConfig\<close>; the two loops range over maps, in an order that is an argument.\<close>

definition read_config_file :: "'v viper \<Rightarrow> (string \<Rightarrow> string) \<Rightarrow> string \<Rightarrow> 'v result" where
  "read_config_file api getenv file =
     (let configFile = (if file = [] then getenv (EnvPrefix @ ''_CONFIG'') else file);
          v = vp_NewWithKeyDelimiter api ''::'' in
      if configFile \<noteq> [] then
        (case vp_ReadInConfig api (vp_SetConfigFile api configFile v) of
           (Some err, v1) \<Rightarrow> Inl (wrap ''failed to read config file'' err)
         | (None, v1) \<Rightarrow> Inr v1)
      else Inr v)"

primrec bind_envs :: "'v viper \<Rightarrow> (string \<times> string) list \<Rightarrow> 'v \<Rightarrow> 'v result" where
  "bind_envs api [] v = Inr v"
| "bind_envs api (m # ms) v =
     (let envName = EnvPrefix @ ''_'' @ snd m in
      case vp_BindEnv api (fst m) envName v of
        (Some err, v1) \<Rightarrow> Inl (wrap (''failed to bind env var '' @ envName) err)
      | (None, v1) \<Rightarrow> bind_envs api ms v1)"

primrec set_flags :: "'v viper \<Rightarrow> flag_set \<Rightarrow> (string \<times> string) list \<Rightarrow> 'v \<Rightarrow> 'v" where
  "set_flags api lookup [] v = v"
| "set_flags api lookup (m # ms) v =
     (case lookup (fst m) of
        Some flag \<Rightarrow>
          if flag_Changed flag then set_flags api lookup ms (vp_Set api (snd m) (flag_String flag) v)
          else set_flags api lookup ms v
      | None \<Rightarrow> set_flags api lookup ms v)"

definition LoadConfig ::
  "'v viper \<Rightarrow> (string \<Rightarrow> parsed_url result) \<Rightarrow> (string \<Rightarrow> string) \<Rightarrow> (string \<times> string) list \<Rightarrow> (string \<times> string) list \<Rightarrow>
   string \<Rightarrow> flag_set option \<Rightarrow> Config result" where
  "LoadConfig api url_Parse getenv envOrder flagOrder configFile flags =
     (case read_config_file api getenv configFile of
        Inl err \<Rightarrow> Inl err
      | Inr v \<Rightarrow>
          (case bind_envs api envOrder v of
             Inl err \<Rightarrow> Inl err
           | Inr v1 \<Rightarrow>
               (let v2 = (case flags of None \<Rightarrow> v1 | Some lookup \<Rightarrow> set_flags api lookup flagOrder v1) in
                case vp_UnmarshalExact api v2 newConfig of
                  Inl err \<Rightarrow> Inl (wrap ''failed to unmarshal config'' err)
                | Inr cfg \<Rightarrow>
                    (case Config_Validate url_Parse cfg of
                       Some err \<Rightarrow> Inl (wrap ''invalid config'' err)
                     | None \<Rightarrow> Inr cfg))))"

section \<open>What is relied on of Viper\<close>

text \<open>
  A value is a text, from a flag or a variable, or what the file holds. Viper keeps the values set
  explicitly, the variables bound to a key and the values of the file; a key has the first of an explicit
  value, a bound variable that is not empty, and the value of the file. Decoding looks at the values only.
\<close>

datatype 'x setting = Text string | FileValue 'x

definition effective ::
  "(string \<Rightarrow> string) \<Rightarrow> (string \<rightharpoonup> string) \<Rightarrow> (string \<rightharpoonup> string) \<Rightarrow> (string \<rightharpoonup> 'x) \<Rightarrow> string \<rightharpoonup> 'x setting" where
  "effective getenv explicit bound file k =
     (case explicit k of
        Some x \<Rightarrow> Some (Text x)
      | None \<Rightarrow>
          (case bound k of
             Some e \<Rightarrow> if getenv e \<noteq> [] then Some (Text (getenv e)) else map_option FileValue (file k)
           | None \<Rightarrow> map_option FileValue (file k)))"

locale viper_library =
  fixes api :: "'v viper" and getenv :: "string \<Rightarrow> string"
    and explicit :: "'v \<Rightarrow> string \<rightharpoonup> string" and bound :: "'v \<Rightarrow> string \<rightharpoonup> string" and in_file :: "'v \<Rightarrow> string \<rightharpoonup> 'x"
    and decode :: "(string \<rightharpoonup> 'x setting) \<Rightarrow> Config \<Rightarrow> Config result"
  assumes new: "explicit (vp_NewWithKeyDelimiter api d) = Map.empty" "bound (vp_NewWithKeyDelimiter api d) = Map.empty"
    and config_file: "explicit (vp_SetConfigFile api f v) = explicit v" "bound (vp_SetConfigFile api f v) = bound v"
    and read: "explicit (snd (vp_ReadInConfig api v)) = explicit v" "bound (snd (vp_ReadInConfig api v)) = bound v"
    and bind: "k \<noteq> [] \<Longrightarrow> fst (vp_BindEnv api k e v) = None"
      "k \<noteq> [] \<Longrightarrow> bound (snd (vp_BindEnv api k e v)) = (bound v)(k \<mapsto> e)"
      "explicit (snd (vp_BindEnv api k e v)) = explicit v" "in_file (snd (vp_BindEnv api k e v)) = in_file v"
    and set: "explicit (vp_Set api k x v) = (explicit v)(k \<mapsto> x)" "bound (vp_Set api k x v) = bound v"
      "in_file (vp_Set api k x v) = in_file v"
    and unmarshal: "vp_UnmarshalExact api v cfg = decode (effective getenv (explicit v) (bound v) (in_file v)) cfg"

text \<open>The precedence the code documents: flags, then environment, then file.\<close>

definition given :: "flag_set \<Rightarrow> string \<times> string \<Rightarrow> string option" where
  "given lookup m = (case lookup (fst m) of Some fl \<Rightarrow> if flag_Changed fl then Some (flag_String fl) else None | None \<Rightarrow> None)"

definition flag_for :: "flag_set option \<Rightarrow> string \<rightharpoonup> string" where
  "flag_for flags k =
     (case flags of
        None \<Rightarrow> None
      | Some lookup \<Rightarrow>
          (case List.find (\<lambda>m. snd m = k) cliFlags of
             None \<Rightarrow> None
           | Some m \<Rightarrow> given lookup m))"

definition variable_for :: "string \<rightharpoonup> string" where
  "variable_for k = map_option (\<lambda>suf. EnvPrefix @ ''_'' @ suf) (map_of viperKeyMappings k)"

definition chosen :: "(string \<Rightarrow> string) \<Rightarrow> flag_set option \<Rightarrow> (string \<rightharpoonup> 'x) \<Rightarrow> string \<rightharpoonup> 'x setting" where
  "chosen getenv flags file k =
     (case flag_for flags k of
        Some x \<Rightarrow> Some (Text x)
      | None \<Rightarrow>
          (case variable_for k of
             Some e \<Rightarrow> if getenv e \<noteq> [] then Some (Text (getenv e)) else map_option FileValue (file k)
           | None \<Rightarrow> map_option FileValue (file k)))"

text \<open>Updates of a map in any order, when the entries for one key agree.\<close>

definition put_all :: "('m \<Rightarrow> 'k) \<Rightarrow> ('m \<Rightarrow> 'x option) \<Rightarrow> 'm list \<Rightarrow> ('k \<rightharpoonup> 'x) \<Rightarrow> 'k \<rightharpoonup> 'x" where
  "put_all key val ms b = fold (\<lambda>m b. case val m of Some x \<Rightarrow> b(key m \<mapsto> x) | None \<Rightarrow> b) ms b"

lemma put_all_simps [simp]:
  "put_all key val [] b = b"
  "put_all key val (m # ms) b = put_all key val ms (case val m of Some x \<Rightarrow> b(key m \<mapsto> x) | None \<Rightarrow> b)"
  by (simp_all add: put_all_def split: option.split)

lemma put_all_at:
  "\<forall>m\<in>set ms. key m = k \<longrightarrow> val m = w \<Longrightarrow>
   put_all key val ms b k = (if \<exists>m\<in>set ms. key m = k then (case w of Some x \<Rightarrow> Some x | None \<Rightarrow> b k) else b k)"
proof (induction ms arbitrary: b)
  case (Cons m ms)
  have "put_all key val ms c k = (if \<exists>m\<in>set ms. key m = k then (case w of Some x \<Rightarrow> Some x | None \<Rightarrow> c k) else c k)" for c
    using Cons by simp
  then show ?case using Cons.prems by (cases "val m"; cases "key m = k") (auto split: option.split)
qed simp

lemma keys_distinct: "distinct (map fst viperKeyMappings)" "distinct (map snd cliFlags)" "\<forall>m\<in>set viperKeyMappings. fst m \<noteq> []"
  by (simp_all add: viperKeyMappings_def cliFlags_def)

lemma find_keyed: "distinct (map f ms) \<Longrightarrow> m \<in> set ms \<Longrightarrow> List.find (\<lambda>x. f x = f m) ms = Some m"
  by (induction ms) (auto simp: image_iff)

context viper_library
begin

lemma read_config_file_layers:
  "read_config_file api getenv f = Inr v \<Longrightarrow> explicit v = Map.empty \<and> bound v = Map.empty"
  using new config_file read by (auto simp: read_config_file_def Let_def split: if_splits prod.splits option.splits) (metis snd_conv)+

lemma bind_envs_layers:
  assumes "\<forall>m\<in>set ms. fst m \<noteq> []"
  shows "\<exists>v'. bind_envs api ms v = Inr v' \<and> explicit v' = explicit v \<and> in_file v' = in_file v \<and>
    bound v' = put_all fst (\<lambda>m. Some (EnvPrefix @ ''_'' @ snd m)) ms (bound v)"
  using assms
proof (induction ms arbitrary: v)
  case (Cons m ms)
  let ?r = "vp_BindEnv api (fst m) (EnvPrefix @ ''_'' @ snd m) v"
  obtain v' where v': "bind_envs api ms (snd ?r) = Inr v'" "explicit v' = explicit (snd ?r)" "in_file v' = in_file (snd ?r)"
    "bound v' = put_all fst (\<lambda>m. Some (EnvPrefix @ ''_'' @ snd m)) ms (bound (snd ?r))"
    using Cons.IH [of "snd ?r"] Cons.prems by auto
  have "fst ?r = None" using Cons.prems bind(1) by simp
  then have "bind_envs api (m # ms) v = bind_envs api ms (snd ?r)" by (cases ?r) simp
  then show ?case using v' bind Cons.prems by simp
qed simp

lemma set_flags_layers:
  "bound (set_flags api lookup ms v) = bound v \<and> in_file (set_flags api lookup ms v) = in_file v \<and>
   explicit (set_flags api lookup ms v) = put_all snd (given lookup) ms (explicit v)"
  using set by (induction ms arbitrary: v) (auto simp: given_def split: option.split)

lemma load_config:
  assumes orders: "set envOrder = set viperKeyMappings" "set flagOrder = set cliFlags"
  shows "LoadConfig api url_Parse getenv envOrder flagOrder configFile flags =
    (case read_config_file api getenv configFile of
       Inl err \<Rightarrow> Inl err
     | Inr v \<Rightarrow>
         (case decode (chosen getenv flags (in_file v)) newConfig of
            Inl err \<Rightarrow> Inl (wrap ''failed to unmarshal config'' err)
          | Inr cfg \<Rightarrow>
              (case Config_Validate url_Parse cfg of
                 Some err \<Rightarrow> Inl (wrap ''invalid config'' err)
               | None \<Rightarrow> Inr cfg)))"
proof (cases "read_config_file api getenv configFile")
  case (Inr v)
  have v: "explicit v = Map.empty" "bound v = Map.empty" using read_config_file_layers [OF Inr] by auto
  have "\<forall>m\<in>set envOrder. fst m \<noteq> []" unfolding orders by (rule keys_distinct(3))
  from bind_envs_layers [OF this] obtain v1 where
    v1: "bind_envs api envOrder v = Inr v1" "explicit v1 = Map.empty" "in_file v1 = in_file v"
      "bound v1 = put_all fst (\<lambda>m. Some (EnvPrefix @ ''_'' @ snd m)) envOrder Map.empty"
    using v by metis
  define v2 where "v2 = (case flags of None \<Rightarrow> v1 | Some lookup \<Rightarrow> set_flags api lookup flagOrder v1)"
  have bound: "bound v2 k = variable_for k" for k
  proof -
    have "bound v2 = bound v1" using set_flags_layers by (simp add: v2_def split: option.split)
    moreover have "\<forall>m\<in>set envOrder. fst m = k \<longrightarrow> Some (EnvPrefix @ ''_'' @ snd m) = variable_for k"
      unfolding orders using keys_distinct(1) by (auto simp: variable_for_def)
    moreover have "variable_for k \<noteq> None \<longleftrightarrow> (\<exists>m\<in>set envOrder. fst m = k)"
      unfolding orders by (force simp: variable_for_def map_of_eq_None_iff)
    ultimately show ?thesis using put_all_at [of envOrder fst k "\<lambda>m. Some (EnvPrefix @ ''_'' @ snd m)" "variable_for k" Map.empty]
      by (auto simp: v1(4))
  qed
  have explicit: "explicit v2 k = flag_for flags k" for k
  proof (cases flags)
    case (Some lookup)
    have "\<forall>m\<in>set flagOrder. snd m = k \<longrightarrow> given lookup m = flag_for flags k"
      unfolding orders using find_keyed [OF keys_distinct(2)] by (auto simp: Some flag_for_def)
    moreover have "flag_for flags k = None" if "\<forall>m\<in>set flagOrder. snd m \<noteq> k"
    proof -
      have "List.find (\<lambda>m. snd m = k) cliFlags = None" using that unfolding orders find_None_iff by blast
      then show ?thesis by (simp add: Some flag_for_def)
    qed
    ultimately show ?thesis
      using put_all_at [of flagOrder snd k "given lookup" "flag_for flags k" Map.empty] set_flags_layers [of lookup flagOrder v1]
      by (auto simp: v2_def Some v1(2) split: option.splits)
  qed (simp add: v2_def v1(2) flag_for_def)
  have in_file: "in_file v2 = in_file v" using set_flags_layers v1(3) by (simp add: v2_def split: option.split)
  have "effective getenv (explicit v2) (bound v2) (in_file v2) = chosen getenv flags (in_file v)"
    unfolding effective_def [abs_def] chosen_def [abs_def] bound explicit in_file ..
  then have "vp_UnmarshalExact api v2 newConfig = decode (chosen getenv flags (in_file v)) newConfig" by (simp add: unmarshal)
  then show ?thesis by (simp add: LoadConfig_def Inr v1(1) Let_def v2_def [symmetric])
qed (simp add: LoadConfig_def)

end

section \<open>A library for the witnesses\<close>

text \<open>
  The three layers kept as maps, a file with fixed contents, and a decoder that reads every value as a text,
  a duration as a number of nanoseconds.
\<close>

record layers =
  ly_explicit :: "string \<rightharpoonup> string"
  ly_bound :: "string \<rightharpoonup> string"
  ly_file :: "string \<rightharpoonup> string"

definition layered_viper ::
  "(string \<Rightarrow> string) \<Rightarrow> (string \<rightharpoonup> string) \<Rightarrow> ((string \<rightharpoonup> string setting) \<Rightarrow> Config \<Rightarrow> Config result) \<Rightarrow> layers viper" where
  "layered_viper getenv contents decode = \<lparr>
     vp_NewWithKeyDelimiter = (\<lambda>d. \<lparr>ly_explicit = Map.empty, ly_bound = Map.empty, ly_file = Map.empty\<rparr>),
     vp_SetConfigFile = (\<lambda>f v. v),
     vp_ReadInConfig = (\<lambda>v. (None, v\<lparr>ly_file := contents\<rparr>)),
     vp_BindEnv = (\<lambda>k e v. if k = [] then (Some (ErrorString ''missing key to bind to''), v)
        else (None, v\<lparr>ly_bound := (ly_bound v)(k \<mapsto> e)\<rparr>)),
     vp_Set = (\<lambda>k x v. v\<lparr>ly_explicit := (ly_explicit v)(k \<mapsto> x)\<rparr>),
     vp_UnmarshalExact = (\<lambda>v. decode (effective getenv (ly_explicit v) (ly_bound v) (ly_file v)))\<rparr>"

interpretation layered: viper_library "layered_viper getenv contents decode" getenv ly_explicit ly_bound ly_file decode
  for getenv contents decode
  by unfold_locales (simp_all add: layered_viper_def)

definition number :: "string \<Rightarrow> duration" where
  "number s = foldl (\<lambda>n c. 10 * n + (of_char c - 48)) 0 s"

definition read_settings :: "(string \<rightharpoonup> string setting) \<Rightarrow> Config \<Rightarrow> Config result" where
  "read_settings val c =
     (let text = (\<lambda>k d. case val k of None \<Rightarrow> d | Some (Text x) \<Rightarrow> x | Some (FileValue x) \<Rightarrow> x);
          num = (\<lambda>k d. case val k of None \<Rightarrow> d | Some (Text x) \<Rightarrow> number x | Some (FileValue x) \<Rightarrow> number x) in
      Inr \<lparr>cfg_Log = \<lparr>lc_Level = text ''log::level'' (lc_Level (cfg_Log c)), lc_Format = text ''log::format'' (lc_Format (cfg_Log c)),
             lc_Output = text ''log::output'' (lc_Output (cfg_Log c))\<rparr>,
           cfg_ManagementCluster = text ''management_cluster'' (cfg_ManagementCluster c),
           cfg_Clients = \<lparr>cc_Redis = \<lparr>redis_URL = text ''clients::redis::url'' (redis_URL (cc_Redis (cfg_Clients c)))\<rparr>,
             cc_Kubernetes = \<lparr>KubeConfigPath = text ''clients::kubernetes::kube_config_path''
               (KubeConfigPath (cc_Kubernetes (cfg_Clients c)))\<rparr>\<rparr>,
           cfg_PollInterval = num ''poll_interval'' (cfg_PollInterval c),
           cfg_DiscoveryRefreshInterval = num ''discovery_refresh_interval'' (cfg_DiscoveryRefreshInterval c),
           cfg_DebugConfig = (text ''debug_config'' [] = ''true'')\<rparr>)"

end
