(* ===== verification/StartRunnables.thy ===== *)
theory StartRunnables
  imports Prelude "HOL-Library.Multiset"
begin

text \<open>
  \<open>startRunnables\<close> of \<open>cmd/main.go\<close> as a step relation: a goroutine for each runnable, which reports its
  error and cancels the shared context, and the function itself, which waits for the context and then for
  every goroutine. Steps of different goroutines interleave freely.
\<close>

section \<open>States and steps\<close>

text \<open>
  Where the goroutine of a runnable is: \<open>Start\<close> has not returned; it returned and the error is to be sent;
  it is to cancel; it ended.
\<close>

datatype run_goroutine =
    Started
  | Stopped "goerror option"
  | Reported "goerror option"
  | Ended "goerror option"

datatype caller = AwaitContext | AwaitAll | Joined "goerror option"

record process_run =
  pr_goroutines :: "run_goroutine list"
  pr_ctx_done :: bool
  pr_errCh :: "goerror list"
  pr_caller :: caller

definition startRunnables :: "nat \<Rightarrow> process_run" where
  "startRunnables n =
     \<lparr>pr_goroutines = replicate n Started, pr_ctx_done = False, pr_errCh = [], pr_caller = AwaitContext\<rparr>"

definition channel :: "goerror option \<Rightarrow> goerror list" where
  "channel e = (case e of None \<Rightarrow> [] | Some err \<Rightarrow> [err])"

definition has_ended :: "run_goroutine \<Rightarrow> bool" where
  "has_ended g = (case g of Ended e \<Rightarrow> True | _ \<Rightarrow> False)"

text \<open>The channel has room for every runnable, so a send never blocks.\<close>

inductive pr_step :: "process_run \<Rightarrow> process_run \<Rightarrow> bool" where
  stop: "i < length (pr_goroutines s) \<Longrightarrow> pr_goroutines s ! i = Started \<Longrightarrow>
    pr_step s (s\<lparr>pr_goroutines := (pr_goroutines s)[i := Stopped e]\<rparr>)"
| report: "i < length (pr_goroutines s) \<Longrightarrow> pr_goroutines s ! i = Stopped e \<Longrightarrow>
    pr_step s (s\<lparr>pr_goroutines := (pr_goroutines s)[i := Reported e], pr_errCh := pr_errCh s @ channel e\<rparr>)"
| cancel: "i < length (pr_goroutines s) \<Longrightarrow> pr_goroutines s ! i = Reported e \<Longrightarrow>
    pr_step s (s\<lparr>pr_goroutines := (pr_goroutines s)[i := Ended e], pr_ctx_done := True\<rparr>)"
| shutdown: "pr_step s (s\<lparr>pr_ctx_done := True\<rparr>)"
| done_ctx: "pr_caller s = AwaitContext \<Longrightarrow> pr_ctx_done s \<Longrightarrow> pr_step s (s\<lparr>pr_caller := AwaitAll\<rparr>)"
| wait_all: "pr_caller s = AwaitAll \<Longrightarrow> list_all has_ended (pr_goroutines s) \<Longrightarrow>
    pr_step s (s\<lparr>pr_caller := Joined (errors_Join (pr_errCh s))\<rparr>)"

inductive_cases pr_stepE: "pr_step s s'"

section \<open>Invariant\<close>

definition sent_by :: "run_goroutine \<Rightarrow> goerror list" where
  "sent_by g = (case g of Reported e \<Rightarrow> channel e | Ended e \<Rightarrow> channel e | _ \<Rightarrow> [])"

definition all_sent :: "run_goroutine list \<Rightarrow> goerror multiset" where
  "all_sent gs = mset (concat (map sent_by gs))"

definition pr_inv :: "process_run \<Rightarrow> bool" where
  "pr_inv s \<longleftrightarrow>
     mset (pr_errCh s) = all_sent (pr_goroutines s) \<and>
     (list_ex has_ended (pr_goroutines s) \<longrightarrow> pr_ctx_done s) \<and>
     (pr_caller s \<noteq> AwaitContext \<longrightarrow> pr_ctx_done s) \<and>
     (\<forall>r. pr_caller s = Joined r \<longrightarrow> list_all has_ended (pr_goroutines s) \<and> r = errors_Join (pr_errCh s))"

lemma sent_update:
  "i < length gs \<Longrightarrow> all_sent (gs[i := g]) + mset (sent_by (gs ! i)) = all_sent gs + mset (sent_by g)"
proof (induction gs arbitrary: i)
  case (Cons x gs)
  then show ?case by (cases i) (auto simp: all_sent_def ac_simps)
qed simp

lemma ended_update: "list_ex has_ended (gs[i := g]) \<Longrightarrow> has_ended g \<or> list_ex has_ended gs"
  using set_update_subset_insert [of gs i g] by (auto simp: list_ex_iff)

lemmas goroutine_defs = sent_by_def has_ended_def

lemma pr_inv_move:
  assumes inv: "pr_inv s" and i: "i < length (pr_goroutines s)" "\<not> has_ended (pr_goroutines s ! i)"
    and sent: "mset es + mset (sent_by (pr_goroutines s ! i)) = mset (sent_by g)" and d: "has_ended g \<Longrightarrow> d" "pr_ctx_done s \<Longrightarrow> d"
  shows "pr_inv (s\<lparr>pr_goroutines := (pr_goroutines s)[i := g], pr_errCh := pr_errCh s @ es, pr_ctx_done := d\<rparr>)"
proof -
  have "pr_caller s \<noteq> Joined r" for r using inv i by (auto simp: pr_inv_def list_all_length)
  moreover have "mset (pr_errCh s @ es) = all_sent ((pr_goroutines s)[i := g])"
    using inv sent sent_update [OF i(1), of g] by (simp add: pr_inv_def union_assoc [symmetric]) (metis add_right_cancel add.assoc add.commute)
  ultimately show ?thesis using inv d ended_update [of "pr_goroutines s" i g] by (auto simp: pr_inv_def)
qed

lemma pr_inv_step: "pr_step s s' \<Longrightarrow> pr_inv s \<Longrightarrow> pr_inv s'"
proof (induction rule: pr_step.induct)
  case (stop i s e)
  then show ?case using pr_inv_move [of s i "[]" "Stopped e" "pr_ctx_done s"] by (simp add: goroutine_defs)
next
  case (report i s e)
  then show ?case using pr_inv_move [of s i "channel e" "Reported e" "pr_ctx_done s"] by (simp add: goroutine_defs)
next
  case (cancel i s e)
  then show ?case using pr_inv_move [of s i "[]" "Ended e" True] by (simp add: goroutine_defs)
qed (auto simp: pr_inv_def)

lemma pr_inv_start: "pr_inv (startRunnables n)"
  by (auto simp: pr_inv_def startRunnables_def all_sent_def goroutine_defs list_ex_iff)

lemma pr_inv_reachable: "pr_step\<^sup>*\<^sup>* (startRunnables n) s \<Longrightarrow> pr_inv s"
  by (induction rule: rtranclp_induct) (auto intro: pr_inv_start pr_inv_step)

section \<open>Every run that the runnables let end does end\<close>

text \<open>Once a runnable returned, its goroutine can end; once all ended, the caller can return.\<close>

lemma goroutine_ends:
  assumes "i < length (pr_goroutines s)" "pr_goroutines s ! i \<noteq> Started"
  shows "\<exists>s' e. pr_step\<^sup>*\<^sup>* s s' \<and> pr_goroutines s' = (pr_goroutines s)[i := Ended e] \<and> pr_caller s' = pr_caller s"
proof (cases "pr_goroutines s ! i")
  case (Stopped e)
  let ?s = "s\<lparr>pr_goroutines := (pr_goroutines s)[i := Reported e], pr_errCh := pr_errCh s @ channel e\<rparr>"
  have "pr_step s ?s" using assms(1) Stopped by (rule pr_step.report)
  moreover have "pr_step ?s (?s\<lparr>pr_goroutines := (pr_goroutines ?s)[i := Ended e], pr_ctx_done := True\<rparr>)"
    using assms(1) by (intro pr_step.cancel) simp_all
  ultimately show ?thesis by (intro exI [of _ "?s\<lparr>pr_goroutines := (pr_goroutines ?s)[i := Ended e], pr_ctx_done := True\<rparr>"] exI [of _ e])
      (auto intro: converse_rtranclp_into_rtranclp)
next
  case (Reported e)
  have "pr_step s (s\<lparr>pr_goroutines := (pr_goroutines s)[i := Ended e], pr_ctx_done := True\<rparr>)"
    using assms(1) Reported by (rule pr_step.cancel)
  then show ?thesis by (intro exI [of _ "s\<lparr>pr_goroutines := (pr_goroutines s)[i := Ended e], pr_ctx_done := True\<rparr>"] exI [of _ e]) auto
next
  case (Ended e)
  then have "(pr_goroutines s)[i := Ended e] = pr_goroutines s" by (metis list_update_id)
  then show ?thesis by (intro exI [of _ s] exI [of _ e]) simp
qed (use assms in simp)

lemma goroutines_end:
  assumes "list_all (\<lambda>g. g \<noteq> Started) (pr_goroutines s)" "k \<le> length (pr_goroutines s)"
  shows "\<exists>s'. pr_step\<^sup>*\<^sup>* s s' \<and> length (pr_goroutines s') = length (pr_goroutines s) \<and> pr_caller s' = pr_caller s \<and>
    list_all (\<lambda>g. g \<noteq> Started) (pr_goroutines s') \<and> (\<forall>i<k. has_ended (pr_goroutines s' ! i))"
  using assms(2)
proof (induction k)
  case 0
  then show ?case using assms(1) by (intro exI [of _ s]) simp
next
  case (Suc k)
  then obtain s1 where s1: "pr_step\<^sup>*\<^sup>* s s1" "length (pr_goroutines s1) = length (pr_goroutines s)" "pr_caller s1 = pr_caller s"
    "list_all (\<lambda>g. g \<noteq> Started) (pr_goroutines s1)" "\<forall>i<k. has_ended (pr_goroutines s1 ! i)" by auto
  have k: "k < length (pr_goroutines s1)" using Suc.prems s1(2) by simp
  moreover have "pr_goroutines s1 ! k \<noteq> Started" using s1(4) k by (simp add: list_all_length)
  ultimately obtain s2 e where s2: "pr_step\<^sup>*\<^sup>* s1 s2" "pr_goroutines s2 = (pr_goroutines s1)[k := Ended e]" "pr_caller s2 = pr_caller s1"
    using goroutine_ends by blast
  then have "\<forall>i<Suc k. has_ended (pr_goroutines s2 ! i)"
    using s1(5) k by (auto simp: less_Suc_eq nth_list_update has_ended_def)
  moreover have "list_all (\<lambda>g. g \<noteq> Started) (pr_goroutines s2)"
    using s1(4) s2(2) by (auto simp: list_all_iff dest!: subsetD [OF set_update_subset_insert])
  ultimately show ?case using s1 s2 by (intro exI [of _ s2]) (auto intro: rtranclp_trans)
qed

lemma startRunnables_returns:
  assumes reach: "pr_step\<^sup>*\<^sup>* (startRunnables n) s" and n: "0 < n" and stopped: "list_all (\<lambda>g. g \<noteq> Started) (pr_goroutines s)"
  shows "\<exists>s' r. pr_step\<^sup>*\<^sup>* s s' \<and> pr_caller s' = Joined r"
proof -
  obtain s1 where s1: "pr_step\<^sup>*\<^sup>* s s1" "length (pr_goroutines s1) = length (pr_goroutines s)" "pr_caller s1 = pr_caller s"
    "\<forall>i<length (pr_goroutines s). has_ended (pr_goroutines s1 ! i)"
    using goroutines_end [OF stopped order_refl] by blast
  have all: "list_all has_ended (pr_goroutines s1)" using s1(2,4) by (simp add: list_all_length)
  have reach1: "pr_step\<^sup>*\<^sup>* (startRunnables n) s1" using reach s1(1) by (rule rtranclp_trans)
  have "length (pr_goroutines s1) = n"
    using reach1 by (induction rule: rtranclp_induct) (auto simp: startRunnables_def elim!: pr_stepE)
  then have "list_ex has_ended (pr_goroutines s1)" using n all by (cases "pr_goroutines s1") auto
  then have ctx: "pr_ctx_done s1" using pr_inv_reachable [OF reach1] by (simp add: pr_inv_def)
  have wait: "\<exists>s2. pr_step\<^sup>*\<^sup>* s1 s2 \<and> (pr_caller s2 = AwaitAll \<or> (\<exists>r. pr_caller s2 = Joined r)) \<and> pr_goroutines s2 = pr_goroutines s1"
  proof (cases "pr_caller s1")
    case AwaitContext
    then show ?thesis using pr_step.done_ctx [OF AwaitContext ctx] by (intro exI [of _ "s1\<lparr>pr_caller := AwaitAll\<rparr>"]) auto
  qed auto
  then obtain s2 where s2: "pr_step\<^sup>*\<^sup>* s1 s2" "pr_caller s2 = AwaitAll \<or> (\<exists>r. pr_caller s2 = Joined r)"
    "pr_goroutines s2 = pr_goroutines s1" by blast
  have "pr_step\<^sup>*\<^sup>* s s2" using s1(1) s2(1) by (rule rtranclp_trans)
  from s2(2) show ?thesis
  proof
    assume "pr_caller s2 = AwaitAll"
    then have "pr_step s2 (s2\<lparr>pr_caller := Joined (errors_Join (pr_errCh s2))\<rparr>)" using all s2(3) by (intro pr_step.wait_all) simp_all
    with \<open>pr_step\<^sup>*\<^sup>* s s2\<close> show ?thesis
      by (intro exI [of _ "s2\<lparr>pr_caller := Joined (errors_Join (pr_errCh s2))\<rparr>"] exI [of _ "errors_Join (pr_errCh s2)"])
        (simp add: rtranclp.rtrancl_into_rtrancl)
  qed (use \<open>pr_step\<^sup>*\<^sup>* s s2\<close> in blast)
qed

end
