(* ===== verification/Serve.thy ===== *)
theory Serve
  imports Config StartRunnables
begin

text \<open>
  \<open>cmd/main.go\<close>: the commands of the process, from the configuration to the runnables, with what each prints and
  which effects on the Redis client it has in which order. The constructors of the clients are arguments
  that say whether they fail; a run of \<open>startRunnables\<close> is one of the runs of \<open>StartRunnables\<close>. Cobra and
  the logging library are left out.
\<close>

section \<open>Serving\<close>

datatype serve_event =
    OpenRedis string
  | PingRedis
  | CloseRedis
  | RunRunnables process_run
  | SetLogger LogConfig
  | LogConfiguration bytes

record serve_env =
  env_Getenv :: "string \<Rightarrow> string"
  env_ReadFile :: "string \<Rightarrow> bytes result"
  env_BuildConfigFromFlags :: "string \<Rightarrow> string \<Rightarrow> goerror option"
  env_coordination_NewForConfig :: "goerror option"
  env_dynamic_NewForConfig :: "goerror option"
  env_NewDiscoveryClientForConfig :: "goerror option"
  env_redis_ParseURL :: "string \<Rightarrow> goerror option"
  env_redis_Ping :: "goerror option"
  env_uuid_NewString :: string
  env_run :: process_run

definition newKubernetesClients :: "serve_env \<Rightarrow> goerror option" where
  "newKubernetesClients env =
     (case env_dynamic_NewForConfig env of
        Some err \<Rightarrow> Some (wrap ''build Kubernetes dynamic client'' err)
      | None \<Rightarrow>
          (case env_NewDiscoveryClientForConfig env of
             Some err \<Rightarrow> Some (wrap ''build Kubernetes discovery client'' err)
           | None \<Rightarrow> None))"

text \<open>The cleanup function the caller gets is the event \<open>CloseRedis\<close>; a failed close is logged and dropped.\<close>

definition newRedisStore :: "serve_env \<Rightarrow> string \<Rightarrow> goerror option \<times> serve_event list" where
  "newRedisStore env redisURL =
     (case env_redis_ParseURL env redisURL of
        Some err \<Rightarrow> (Some (wrap ''parse Redis URL'' err), [])
      | None \<Rightarrow>
          (case env_redis_Ping env of
             Some pingErr \<Rightarrow> (Some (wrap ''connect to Redis'' pingErr), [OpenRedis redisURL, PingRedis, CloseRedis])
           | None \<Rightarrow> (None, [OpenRedis redisURL, PingRedis])))"

text \<open>
  A call of \<open>startRunnables\<close> ends in a state in which the caller has joined. The deferred \<open>closeRedis\<close>
  runs on every return after it.
\<close>

definition run_result :: "process_run \<Rightarrow> goerror option" where
  "run_result s = (case pr_caller s of Joined r \<Rightarrow> r | _ \<Rightarrow> None)"

definition runServe :: "serve_env \<Rightarrow> Config \<Rightarrow> goerror option \<times> serve_event list" where
  "runServe env cfg =
     (case ElectionNamespace (env_Getenv env) (env_ReadFile env) of
        Inl err \<Rightarrow> (Some err, [])
      | Inr namespace \<Rightarrow>
     (case env_BuildConfigFromFlags env [] (KubeConfigPath (cc_Kubernetes (cfg_Clients cfg))) of
        Some err \<Rightarrow> (Some (wrap ''build leader election client config'' err), [])
      | None \<Rightarrow>
     (case env_coordination_NewForConfig env of
        Some err \<Rightarrow> (Some (wrap ''build leader election client'' err), [])
      | None \<Rightarrow>
     (case newKubernetesClients env of
        Some err \<Rightarrow> (Some err, [])
      | None \<Rightarrow>
     (case newRedisStore env (redis_URL (cc_Redis (cfg_Clients cfg))) of
        (Some err, events) \<Rightarrow> (Some err, events)
      | (None, events) \<Rightarrow>
          (case leadership_New namespace (cfg_ManagementCluster cfg) (env_uuid_NewString env) of
             Some err \<Rightarrow> (Some err, events @ [CloseRedis])
           | None \<Rightarrow> (run_result (env_run env), events @ [RunRunnables (env_run env), CloseRedis])))))))"

section \<open>Commands\<close>

record log_library =
  hf_ParseLevel :: "string \<Rightarrow> goerror option"
  hf_ParseFormat :: "string \<Rightarrow> goerror option"
  hf_ParseOutput :: "string \<Rightarrow> goerror option"

definition initLogging :: "log_library \<Rightarrow> LogConfig \<Rightarrow> goerror option \<times> serve_event list" where
  "initLogging hf lc =
     (case hf_ParseLevel hf (lc_Level lc) of
        Some err \<Rightarrow> (Some (wrap ''parse log level'' err), [])
      | None \<Rightarrow>
     (case hf_ParseFormat hf (lc_Format lc) of
        Some err \<Rightarrow> (Some (wrap ''parse log format'' err), [])
      | None \<Rightarrow>
     (case hf_ParseOutput hf (lc_Output lc) of
        Some err \<Rightarrow> (Some (wrap ''parse log output'' err), [])
      | None \<Rightarrow> (None, [SetLogger lc]))))"

text \<open>The configuration is loaded by the argument \<open>load\<close>, \<open>LoadConfig\<close> with the flags of the command.\<close>

definition serve_command ::
  "(string \<Rightarrow> Config result) \<Rightarrow> log_library \<Rightarrow> (Config \<Rightarrow> bytes result) \<Rightarrow> serve_env \<Rightarrow> string \<Rightarrow>
   goerror option \<times> serve_event list" where
  "serve_command load hf yaml_Marshal env configFile =
     (case load configFile of
        Inl err \<Rightarrow> (Some err, [])
      | Inr cfg \<Rightarrow>
          (case initLogging hf (cfg_Log cfg) of
             (Some err, events) \<Rightarrow> (Some (wrap ''initialize logging'' err), events)
           | (None, events) \<Rightarrow>
               (let debug = (if cfg_DebugConfig cfg
                             then (case yaml_Marshal (Redacted cfg) of Inl err \<Rightarrow> [] | Inr data \<Rightarrow> [LogConfiguration data])
                             else []);
                    (err, served) = runServe env cfg in
                (err, events @ debug @ served))))"

text \<open>What \<open>config-dump\<close> prints.\<close>

definition config_dump_command ::
  "(string \<Rightarrow> Config result) \<Rightarrow> (Config \<Rightarrow> bytes result) \<Rightarrow> string \<Rightarrow> bytes result" where
  "config_dump_command load yaml_Marshal configFile =
     (case load configFile of
        Inl err \<Rightarrow> Inl err
      | Inr cfg \<Rightarrow>
          (case yaml_Marshal (Redacted cfg) of
             Inl err \<Rightarrow> Inl (wrap ''marshal configuration'' err)
           | Inr data \<Rightarrow> Inr data))"

text \<open>What \<open>main\<close> writes to the standard error output before it exits with status 1.\<close>

definition main_report :: "string list \<Rightarrow> goerror \<Rightarrow> string" where
  "main_report args err =
     (let joined = join_with '' '' args;
          command = (if joined = [] then ''(no command)'' else joined) in
      ''Error executing command '' @ [CHR 0x27] @ ''applier '' @ RedactSecrets command @ [CHR 0x27] @ '': '' @
      RedactSecrets (error_text err) @ [CHR 0x0A])"

text \<open>The flags \<open>serve\<close> and \<open>config-dump\<close> declare beside \<open>config\<close>, and what \<open>version\<close> prints.\<close>

datatype flag_kind = FlagBool | FlagString

record flag_decl =
  fl_Name :: string
  fl_Shorthand :: string
  fl_Kind :: flag_kind
  fl_Usage :: string

definition addConfigOverrideFlags :: "flag_decl list" where
  "addConfigOverrideFlags =
     [\<lparr>fl_Name = ''debug-config'', fl_Shorthand = [], fl_Kind = FlagBool,
       fl_Usage = ''Log the merged configuration. Env: HYPERFLEET_DEBUG_CONFIG''\<rparr>,
      \<lparr>fl_Name = ''management-cluster'', fl_Shorthand = [], fl_Kind = FlagString,
       fl_Usage = ''Management-cluster partition. Env: HYPERFLEET_MANAGEMENT_CLUSTER''\<rparr>,
      \<lparr>fl_Name = ''log-level'', fl_Shorthand = ''l'', fl_Kind = FlagString,
       fl_Usage = ''Log level. Env: HYPERFLEET_LOG_LEVEL''\<rparr>,
      \<lparr>fl_Name = ''log-format'', fl_Shorthand = ''f'', fl_Kind = FlagString,
       fl_Usage = ''Log format. Env: HYPERFLEET_LOG_FORMAT''\<rparr>,
      \<lparr>fl_Name = ''log-output'', fl_Shorthand = [], fl_Kind = FlagString,
       fl_Usage = ''Log output. Env: HYPERFLEET_LOG_OUTPUT''\<rparr>,
      \<lparr>fl_Name = ''redis-url'', fl_Shorthand = [], fl_Kind = FlagString,
       fl_Usage = ''Redis connection URL. Env: HYPERFLEET_REDIS_URL''\<rparr>,
      \<lparr>fl_Name = ''kubernetes-kube-config-path'', fl_Shorthand = [], fl_Kind = FlagString,
       fl_Usage = ''Path to kubeconfig; empty uses in-cluster auth. Env: HYPERFLEET_KUBERNETES_KUBE_CONFIG_PATH''\<rparr>,
      \<lparr>fl_Name = ''poll-interval'', fl_Shorthand = [], fl_Kind = FlagString,
       fl_Usage = ''Controller poll interval. Env: HYPERFLEET_POLL_INTERVAL''\<rparr>,
      \<lparr>fl_Name = ''discovery-refresh-interval'', fl_Shorthand = [], fl_Kind = FlagString,
       fl_Usage = ''REST discovery refresh interval. Env: HYPERFLEET_DISCOVERY_REFRESH_INTERVAL''\<rparr>]"

definition version_output :: "string \<Rightarrow> string \<Rightarrow> string \<Rightarrow> string" where
  "version_output version commit date =
     ''Version:    '' @ version @ [CHR 0x0A] @ ''Commit:     '' @ commit @ [CHR 0x0A] @ ''Build Date: '' @ date @ [CHR 0x0A]"

text \<open>
  The flags that are declared are those \<open>LoadConfig\<close> looks up, and the variable the usage of a flag names
  is the one bound to the setting of the flag.
\<close>

definition documents_variable :: "flag_decl \<Rightarrow> bool" where
  "documents_variable f \<longleftrightarrow>
     (case map_of cliFlags (fl_Name f) of
        None \<Rightarrow> False
      | Some path \<Rightarrow>
          (case map_of viperKeyMappings path of
             None \<Rightarrow> False
           | Some var \<Rightarrow> suffix ('' Env: '' @ EnvPrefix @ ''_'' @ var) (fl_Usage f)))"

lemma flags_agree:
  "map fl_Name addConfigOverrideFlags = map fst cliFlags" "list_all documents_variable addConfigOverrideFlags"
  "map snd cliFlags = map fst viperKeyMappings"
  by code_simp+

section \<open>Secrets\<close>

lemma shown_plain:
  assumes "no_password_shown x" "CHR ''@'' \<notin> set y"
  shows "no_password_shown (x @ y)"
proof (rule no_password_shownI)
  fix t g pw r
  assume t: "suffix t (x @ y)" and m: "password_at t = Some (g, pw, r)"
  have m': "t = (g @ pw) @ CHR ''@'' # r" "group_ok g" "list_all secret_char pw" "pw \<noteq> []" using m by (simp_all add: password_at_iff)
  have "CHR ''@'' \<in> set t" using m'(1) by simp
  then obtain z where z: "t = z @ y" "suffix z x" using t assms(2) by (auto simp: suffix_append dest: set_mono_suffix)
  then have "z @ y = (g @ pw) @ CHR ''@'' # r" using m'(1) by simp
  then have "\<exists>r'. z = g @ pw @ CHR ''@'' # r'"
    using assms(2) unfolding append_eq_append_conv2 by (auto simp: append_eq_Cons_conv)
  then obtain r' where "password_at z = Some (g, pw, r')" using m' by (auto simp: password_at_iff)
  then show "pw = ''REDACTED''" by (rule no_password_shownD [OF assms(1) z(2)])
qed

lemma shown_nothing: "no_password_shown []"
  by (rule no_password_shownI) (simp add: password_at_iff)

lemma main_report_redacted: "no_password_shown (main_report args err)"
proof -
  define c where "c = RedactSecrets (if join_with '' '' args = [] then ''(no command)'' else join_with '' '' args)"
  have report: "main_report args err =
      (''Error executing command '' @ [CHR 0x27] @ ''applier'') @ CHR '' '' # ((c @ [CHR 0x27] @ '':'') @ CHR '' '' #
        (RedactSecrets (error_text err) @ [CHR 0x0A]))"
    by (simp add: main_report_def Let_def c_def)
  have "no_password_shown ([] @ ''Error executing command '' @ [CHR 0x27] @ ''applier'')"
    by (rule shown_plain [OF shown_nothing]) simp
  moreover have "no_password_shown (c @ [CHR 0x27] @ '':'')"
    unfolding c_def by (rule shown_plain [OF redact_redacted]) simp
  moreover have "no_password_shown (RedactSecrets (error_text err) @ [CHR 0x0A])"
    by (rule shown_plain [OF redact_redacted]) simp
  ultimately show ?thesis unfolding report by (intro shown_blank) (simp_all add: is_blank_def redact_redacted shown_nothing)
qed

lemma redacted_url: "no_password_shown (redis_URL (cc_Redis (cfg_Clients (Redacted cfg))))"
  by (simp add: Redacted_def redact_redacted)

end
